(* ===== verification/Prelude.thy ===== *)
theory Prelude
  imports Main "HOL-Library.AList"
begin

text \<open>
  What every component of the model shares: the exceptions of the Python code as a datatype,
  results that are either an exception or a value, Python dictionaries as association lists
  in insertion order, and finite sets of CPU numbers. The lemma collections declared here
  are filled by the component theories.
\<close>

named_theorems res_simps \<open>evaluation of results\<close>
named_theorems text_simps \<open>printing and parsing of range strings\<close>
named_theorems ledger_simps \<open>reading the ledger after an operation\<close>
named_theorems store_simps \<open>running the state store\<close>

section \<open>Exceptions and results\<close>

text \<open>
  The exception classes the code raises or catches. The argument is \<open>str(e)\<close>.
  \<open>OtherError\<close> stands for the remaining subclasses of \<open>Exception\<close>
  (\<open>AttributeError\<close>, \<open>CalledProcessError\<close>, pydantic's \<open>ValidationError\<close>).
\<close>

datatype py_error =
    ValueError string
  | StateCorruptionError string
  | StateUncertainError string
  | OSError string
  | OtherError string

primrec error_message :: "py_error \<Rightarrow> string" where
  "error_message (ValueError m) = m"
| "error_message (StateCorruptionError m) = m"
| "error_message (StateUncertainError m) = m"
| "error_message (OSError m) = m"
| "error_message (OtherError m) = m"

primrec is_value_error :: "py_error \<Rightarrow> bool" where
  "is_value_error (ValueError m) = True"
| "is_value_error (StateCorruptionError m) = False"
| "is_value_error (StateUncertainError m) = False"
| "is_value_error (OSError m) = False"
| "is_value_error (OtherError m) = False"

type_synonym 'a result = "py_error + 'a"

text \<open>Sequencing: the first exception ends the computation.\<close>

definition bindE :: "'a result \<Rightarrow> ('a \<Rightarrow> 'b result) \<Rightarrow> 'b result" where
  "bindE m f = (case m of Inl e \<Rightarrow> Inl e | Inr x \<Rightarrow> f x)"

text \<open>\<open>if bad: raise e\<close> and then the rest.\<close>

definition raise_if :: "bool \<Rightarrow> py_error \<Rightarrow> 'a result \<Rightarrow> 'a result" where
  "raise_if bad e k = (if bad then Inl e else k)"

fun mapE :: "('a \<Rightarrow> 'b result) \<Rightarrow> 'a list \<Rightarrow> 'b list result" where
  "mapE f [] = Inr []"
| "mapE f (x # xs) = bindE (f x) (\<lambda>y. bindE (mapE f xs) (\<lambda>ys. Inr (y # ys)))"

fun foldE :: "('a \<Rightarrow> 's \<Rightarrow> 's result) \<Rightarrow> 'a list \<Rightarrow> 's \<Rightarrow> 's result" where
  "foldE f [] s = Inr s"
| "foldE f (x # xs) s = bindE (f x s) (foldE f xs)"

text \<open>Evaluation must not build the message of an exception that is not raised.\<close>

lemmas raise_if_unfold [code_unfold] = raise_if_def

lemma bindE_Inl [simp, res_simps]: "bindE (Inl e) f = Inl e"
  and bindE_Inr [simp, res_simps]: "bindE (Inr x) f = f x"
  by (simp_all add: bindE_def)

lemma bindE_eq_Inr: "bindE m f = Inr y \<longleftrightarrow> (\<exists>x. m = Inr x \<and> f x = Inr y)"
  by (cases m) auto

lemma bindE_eq_Inl: "bindE m f = Inl e \<longleftrightarrow> m = Inl e \<or> (\<exists>x. m = Inr x \<and> f x = Inl e)"
  by (cases m) auto

lemma bindE_InrE [elim!]:
  assumes "bindE m f = Inr y"
  obtains x where "m = Inr x" "f x = Inr y"
  using assms by (auto simp: bindE_eq_Inr)

lemma bindE_assoc: "bindE (bindE m f) g = bindE m (\<lambda>x. bindE (f x) g)"
  by (cases m) auto

lemma bindE_raise_if: "bindE (raise_if b e k) f = raise_if b e (bindE k f)"
  by (simp add: raise_if_def)

lemma bindE_if: "bindE (if b then x else y) f = (if b then bindE x f else bindE y f)"
  by simp

lemma bindE_pair: "bindE (case p of (a, b) \<Rightarrow> k a b) f = (case p of (a, b) \<Rightarrow> bindE (k a b) f)"
  by (cases p) simp

lemma raise_if_eq_Inr [simp, res_simps]: "raise_if b e k = Inr y \<longleftrightarrow> \<not> b \<and> k = Inr y"
  by (simp add: raise_if_def)

lemma raise_if_simps [simp, res_simps]:
  "raise_if True e k = Inl e"
  "raise_if False e k = k"
  by (simp_all add: raise_if_def)

lemma raise_if_eq_Inl: "raise_if b e k = Inl e' \<longleftrightarrow> b \<and> e = e' \<or> \<not> b \<and> k = Inl e'"
  by (simp add: raise_if_def)

lemma mapE_Inr: "\<forall>x \<in> set xs. f x = Inr (g x) \<Longrightarrow> mapE f xs = Inr (List.map g xs)"
  by (induction xs) auto

lemma mapE_length: "mapE f xs = Inr ys \<Longrightarrow> length ys = length xs"
  by (induction xs arbitrary: ys) auto

lemma mapE_mem:
  "mapE f xs = Inr ys \<Longrightarrow> x \<in> set xs \<Longrightarrow> \<exists>y \<in> set ys. f x = Inr y"
  by (induction xs arbitrary: ys) auto

lemma mapE_source:
  "mapE f xs = Inr ys \<Longrightarrow> y \<in> set ys \<Longrightarrow> \<exists>x \<in> set xs. f x = Inr y"
  by (induction xs arbitrary: ys) auto

lemma foldE_append: "foldE f (xs @ ys) s = bindE (foldE f xs s) (foldE f ys)"
  by (induction xs arbitrary: s) (auto simp: bindE_def split: sum.splits)

text \<open>An invariant of a loop whose body may raise.\<close>

lemma foldE_invariant:
  assumes "foldE f xs s = Inr t" and "P s"
    and "\<And>x s t. x \<in> set xs \<Longrightarrow> P s \<Longrightarrow> f x s = Inr t \<Longrightarrow> P t"
  shows "P t"
  using assms
proof (induction xs arbitrary: s)
  case Nil
  then show ?case by simp
next
  case (Cons x xs)
  from Cons.prems(1) obtain u where u: "f x s = Inr u" "foldE f xs u = Inr t" by auto
  have "P u" using Cons.prems(2,3) u(1) by (metis list.set_intros(1))
  then show ?case using Cons.IH [OF u(2)] Cons.prems(3) by (meson list.set_intros(2))
qed

text \<open>A loop that only checks.\<close>

lemma foldE_checks: "foldE (\<lambda>x _. g x) xs () = Inr () \<Longrightarrow> x \<in> set xs \<Longrightarrow> g x = Inr ()"
  by (induction xs) auto

section \<open>Dictionaries\<close>

text \<open>
  A Python dictionary keeps its insertion order: assignment replaces the value of a present
  key in place and appends an absent one. That is \<^const>\<open>AList.update\<close>; \<open>pop\<close> and \<open>del\<close> are
  \<^const>\<open>AList.delete\<close>; \<open>get\<close> and \<open>in\<close> read \<^const>\<open>map_of\<close>.
\<close>

type_synonym ('k, 'v) dict = "('k \<times> 'v) list"

abbreviation dict_set :: "'k \<Rightarrow> 'v \<Rightarrow> ('k, 'v) dict \<Rightarrow> ('k, 'v) dict" where
  "dict_set \<equiv> AList.update"

abbreviation dict_pop :: "'k \<Rightarrow> ('k, 'v) dict \<Rightarrow> ('k, 'v) dict" where
  "dict_pop \<equiv> AList.delete"

abbreviation dict_keys :: "('k, 'v) dict \<Rightarrow> 'k list" where
  "dict_keys d \<equiv> List.map fst d"

definition dict_has :: "('k, 'v) dict \<Rightarrow> 'k \<Rightarrow> bool" where
  "dict_has d k \<longleftrightarrow> map_of d k \<noteq> None"

definition dict_get :: "('k, 'v) dict \<Rightarrow> 'k \<Rightarrow> 'v \<Rightarrow> 'v" where
  "dict_get d k v = (case map_of d k of None \<Rightarrow> v | Some x \<Rightarrow> x)"

text \<open>\<open>d.setdefault(k, v)\<close>.\<close>

definition dict_setdefault :: "'k \<Rightarrow> 'v \<Rightarrow> ('k, 'v) dict \<Rightarrow> ('k, 'v) dict" where
  "dict_setdefault k v d = (if dict_has d k then d else dict_set k v d)"

text \<open>A list of pairs is a dictionary when no key occurs twice.\<close>

abbreviation dict_ok :: "('k, 'v) dict \<Rightarrow> bool" where
  "dict_ok d \<equiv> distinct (List.map fst d)"

lemma map_of_dict_set [simp]: "map_of (dict_set k v d) = (map_of d)(k \<mapsto> v)"
  by (simp add: update_conv')

lemma map_of_dict_pop [simp]: "map_of (dict_pop k d) = (map_of d)(k := None)"
  by (simp add: delete_conv')

lemma dict_ok_set [simp]: "dict_ok d \<Longrightarrow> dict_ok (dict_set k v d)"
  by (rule AList.distinct_update)

lemma dict_ok_pop [simp]: "dict_ok d \<Longrightarrow> dict_ok (dict_pop k d)"
  by (rule AList.distinct_delete)

lemma dict_has_set [simp]: "dict_has (dict_set k v d) j \<longleftrightarrow> j = k \<or> dict_has d j"
  by (simp add: dict_has_def)

lemma dict_has_pop [simp]: "dict_has (dict_pop k d) j \<longleftrightarrow> j \<noteq> k \<and> dict_has d j"
  by (simp add: dict_has_def)

lemma dict_has_Nil [simp]: "\<not> dict_has [] k"
  by (simp add: dict_has_def)

lemma dict_pop_absent: "\<not> dict_has d k \<Longrightarrow> dict_pop k d = d"
  by (simp add: dict_has_def delete_id map_of_eq_None_iff)

lemma dict_has_iff_keys: "dict_has d k \<longleftrightarrow> k \<in> set (dict_keys d)"
  by (metis dict_has_def map_of_eq_None_iff list.set_map)

lemma dict_get_set [simp]: "dict_get (dict_set k v d) j w = (if j = k then v else dict_get d j w)"
  by (simp add: dict_get_def)

lemma dict_get_pop [simp]: "dict_get (dict_pop k d) j w = (if j = k then w else dict_get d j w)"
  by (simp add: dict_get_def)

lemma dict_get_absent: "\<not> dict_has d k \<Longrightarrow> dict_get d k v = v"
  by (simp add: dict_has_def dict_get_def)

lemma dict_get_Nil [simp]: "dict_get [] k v = v"
  by (simp add: dict_get_def)

lemma dict_item_iff: "dict_ok d \<Longrightarrow> (k, v) \<in> set d \<longleftrightarrow> map_of d k = Some v"
  by auto

lemma set_dict_pop: "set (dict_pop k d) \<subseteq> set d"
  by (induction d) auto

lemma set_dict_set: "set (dict_set k v d) \<subseteq> insert (k, v) (set d)"
  by (induction d) auto

text \<open>Every key of one dictionary is a key of the other.\<close>

definition keys_within :: "('k, 'v) dict \<Rightarrow> ('k, 'w) dict \<Rightarrow> bool" where
  "keys_within d e \<longleftrightarrow> (\<forall>k \<in> set (dict_keys d). dict_has e k)"

lemma keys_within_iff: "keys_within d e \<longleftrightarrow> (\<forall>k. dict_has d k \<longrightarrow> dict_has e k)"
  unfolding keys_within_def dict_has_iff_keys [of d] by blast

lemma keys_withinD: "keys_within d e \<Longrightarrow> dict_has d k \<Longrightarrow> dict_has e k"
  by (simp add: keys_within_iff)

lemma keys_within_Nil [simp]: "keys_within [] e"
  by (simp add: keys_within_def)

lemma keys_within_upd:
  "keys_within d e \<Longrightarrow> keys_within (dict_set k v d) (dict_set k w e)"
  "keys_within d e \<Longrightarrow> keys_within d (dict_set k w e)"
  "keys_within d e \<Longrightarrow> keys_within (dict_pop k d) (dict_pop k e)"
  "keys_within d e \<Longrightarrow> keys_within (dict_pop k d) e"
  "keys_within d e \<Longrightarrow> \<not> dict_has d k \<Longrightarrow> keys_within d (dict_pop k e)"
  "keys_within d e \<Longrightarrow> dict_has e k \<Longrightarrow> keys_within (dict_set k v d) e"
  by (auto simp: keys_within_iff)

section \<open>Sets of CPU numbers\<close>

text \<open>
  Python's unbounded \<open>int\<close> is \<^typ>\<open>int\<close>, a Python set of them an \<^typ>\<open>int set\<close>. Every CPU
  set the code builds is finite and has no negative member.
\<close>

definition cpu_ids :: "int set \<Rightarrow> bool" where
  "cpu_ids S \<longleftrightarrow> finite S \<and> (\<forall>c \<in> S. 0 \<le> c)"

text \<open>\<open>sorted(S)\<close> and \<open>len(S)\<close>.\<close>

abbreviation py_sorted :: "int set \<Rightarrow> int list" where
  "py_sorted \<equiv> sorted_list_of_set"

definition py_len :: "'a set \<Rightarrow> int" where
  "py_len S = int (card S)"

lemma cpu_ids_empty [simp, intro]: "cpu_ids {}"
  by (simp add: cpu_ids_def)

lemma cpu_ids_insert [simp]: "cpu_ids (insert c S) \<longleftrightarrow> 0 \<le> c \<and> cpu_ids S"
  by (auto simp: cpu_ids_def)

lemma cpu_ids_Un [simp]: "cpu_ids (S \<union> T) \<longleftrightarrow> cpu_ids S \<and> cpu_ids T"
  by (auto simp: cpu_ids_def)

lemma cpu_ids_subset: "cpu_ids S \<Longrightarrow> T \<subseteq> S \<Longrightarrow> cpu_ids T"
  by (auto simp: cpu_ids_def intro: finite_subset)

lemma cpu_ids_Diff [simp, intro]: "cpu_ids S \<Longrightarrow> cpu_ids (S - T)"
  by (auto simp: cpu_ids_def)

lemma cpu_ids_Int1 [intro]: "cpu_ids S \<Longrightarrow> cpu_ids (S \<inter> T)"
  by (auto simp: cpu_ids_def)

lemma cpu_ids_Int2 [intro]: "cpu_ids T \<Longrightarrow> cpu_ids (S \<inter> T)"
  by (auto simp: cpu_ids_def)

lemma cpu_ids_finite [dest]: "cpu_ids S \<Longrightarrow> finite S"
  by (simp add: cpu_ids_def)

lemma cpu_ids_atLeastAtMost [simp]: "0 \<le> a \<Longrightarrow> cpu_ids {a..b}"
  by (auto simp: cpu_ids_def)

lemma py_len_empty [simp]: "py_len {} = 0"
  by (simp add: py_len_def)

lemma py_len_nonneg [simp]: "0 \<le> py_len S"
  by (simp add: py_len_def)

lemma py_len_mono: "finite T \<Longrightarrow> S \<subseteq> T \<Longrightarrow> py_len S \<le> py_len T"
  by (simp add: py_len_def card_mono)

lemma py_len_zero_iff: "finite S \<Longrightarrow> py_len S = 0 \<longleftrightarrow> S = {}"
  by (simp add: py_len_def)

lemma py_len_Un_disjoint:
  "finite S \<Longrightarrow> finite T \<Longrightarrow> S \<inter> T = {} \<Longrightarrow> py_len (S \<union> T) = py_len S + py_len T"
  by (simp add: py_len_def card_Un_disjoint)

end
