(* ===== verification/Py_Text.thy ===== *)
theory Py_Text
  imports Prelude
begin

text \<open>
  The part of Python's \<open>str\<close> and \<open>int\<close> the code uses: \<open>strip\<close>, \<open>split\<close>, \<open>join\<close>,
  \<open>int(s)\<close>, \<open>str(n)\<close> and \<open>repr(s)\<close>, on ASCII text (a \<^typ>\<open>string\<close> is a list of
  characters), with the lemmas that printing a number and reading it back is the identity.
\<close>

section \<open>Whitespace and stripping\<close>

abbreviation char_code :: "char \<Rightarrow> nat" where
  "char_code \<equiv> of_char"

text \<open>\<open>str.strip\<close> removes what \<open>str.isspace\<close> accepts, \<open>int\<close> only the C locale's spaces.\<close>

definition is_space :: "char \<Rightarrow> bool" where
  "is_space c \<longleftrightarrow> (9 \<le> char_code c \<and> char_code c \<le> 13) \<or> (28 \<le> char_code c \<and> char_code c \<le> 32)"

definition is_c_space :: "char \<Rightarrow> bool" where
  "is_c_space c \<longleftrightarrow> (9 \<le> char_code c \<and> char_code c \<le> 13) \<or> char_code c = 32"

definition strip_by :: "(char \<Rightarrow> bool) \<Rightarrow> string \<Rightarrow> string" where
  "strip_by p s = rev (dropWhile p (rev (dropWhile p s)))"

definition strip :: "string \<Rightarrow> string" where
  "strip s = strip_by is_space s"

lemma dropWhile_none: "\<forall>c \<in> set s. \<not> p c \<Longrightarrow> dropWhile p s = s"
  by (simp add: dropWhile_eq_self_iff)

lemma strip_by_id: "\<forall>c \<in> set s. \<not> p c \<Longrightarrow> strip_by p s = s"
  by (simp add: strip_by_def dropWhile_none)

lemma strip_by_eq_Nil: "strip_by p s = [] \<longleftrightarrow> (\<forall>c \<in> set s. p c)"
  by (induction s) (simp_all add: strip_by_def dropWhile_eq_Nil_conv)

lemma strip_Nil [simp]: "strip [] = []"
  by (simp add: strip_def strip_by_def)

section \<open>Splitting and joining\<close>

text \<open>\<open>s.split(c)\<close> for a one-character separator: never the empty list.\<close>

fun split_on :: "char \<Rightarrow> string \<Rightarrow> string list" where
  "split_on c [] = [[]]"
| "split_on c (x # xs) =
     (if x = c then [] # split_on c xs
      else (case split_on c xs of [] \<Rightarrow> [[x]] | p # ps \<Rightarrow> (x # p) # ps))"

text \<open>\<open>sep.join(parts)\<close>.\<close>

fun join :: "string \<Rightarrow> string list \<Rightarrow> string" where
  "join sep [] = []"
| "join sep [p] = p"
| "join sep (p # q # ps) = p @ sep @ join sep (q # ps)"

lemma split_on_ne [simp]: "split_on c s \<noteq> []"
  by (induction s) (auto split: list.splits)

lemma split_on_no_sep: "c \<notin> set s \<Longrightarrow> split_on c s = [s]"
  by (induction s) auto

lemma split_on_append: "c \<notin> set p \<Longrightarrow> split_on c (p @ c # s) = p # split_on c s"
  by (induction p) auto

lemma split_on_join:
  "ps \<noteq> [] \<Longrightarrow> \<forall>p \<in> set ps. c \<notin> set p \<Longrightarrow> split_on c (join [c] ps) = ps"
proof (induction ps rule: induct_list012)
  case (3 p q ps)
  then show ?case by (simp add: split_on_append)
qed (auto simp: split_on_no_sep)

lemma join_eq_Nil: "join sep ps = [] \<Longrightarrow> \<forall>p \<in> set ps. p \<noteq> [] \<Longrightarrow> ps = []"
  by (cases "(sep, ps)" rule: join.cases) auto

lemma set_join: "set (join sep ps) \<subseteq> \<Union> (set ` set ps) \<union> set sep"
  by (induction sep ps rule: join.induct) auto

section \<open>Digits and numbers\<close>

definition is_digit :: "char \<Rightarrow> bool" where
  "is_digit c \<longleftrightarrow> 48 \<le> char_code c \<and> char_code c \<le> 57"

definition digit_val :: "char \<Rightarrow> int" where
  "digit_val c = int (char_code c) - 48"

definition digit_char :: "nat \<Rightarrow> char" where
  "digit_char n = char_of (48 + n)"

text \<open>\<open>s.isdigit()\<close>: non-empty and all digits.\<close>

definition isdigit :: "string \<Rightarrow> bool" where
  "isdigit s \<longleftrightarrow> s \<noteq> [] \<and> list_all is_digit s"

text \<open>
  The digits of an integer literal after the first one: single underscores are allowed
  between digits. \<open>None\<close> is a malformed literal.
\<close>

fun read_digits :: "int \<Rightarrow> string \<Rightarrow> int option" where
  "read_digits a [] = Some a"
| "read_digits a [c] = (if is_digit c then Some (10 * a + digit_val c) else None)"
| "read_digits a (c # d # cs) =
     (if is_digit c then read_digits (10 * a + digit_val c) (d # cs)
      else if c = CHR ''_'' \<and> is_digit d then read_digits (10 * a + digit_val d) cs
      else None)"

definition read_unsigned :: "string \<Rightarrow> int option" where
  "read_unsigned s =
     (case s of [] \<Rightarrow> None
      | c # cs \<Rightarrow> if is_digit c then read_digits (digit_val c) cs else None)"

definition read_int :: "string \<Rightarrow> int option" where
  "read_int s =
     (let t = strip_by is_c_space s in
      case t of [] \<Rightarrow> None
      | c # cs \<Rightarrow>
          if c = CHR ''-'' then map_option uminus (read_unsigned cs)
          else if c = CHR ''+'' then read_unsigned cs
          else read_unsigned t)"

text \<open>\<open>repr(s)\<close> of a string: quotes, and the escapes of \<open>repr\<close> for ASCII.\<close>

definition hex_digit :: "nat \<Rightarrow> char" where
  "hex_digit n = (if n < 10 then char_of (48 + n) else char_of (87 + n))"

definition repr_char :: "char \<Rightarrow> char \<Rightarrow> string" where
  "repr_char q c =
     (if c = q \<or> char_code c = 92 then [char_of (92::nat), c]
      else if char_code c = 10 then [char_of (92::nat), CHR ''n'']
      else if char_code c = 13 then [char_of (92::nat), CHR ''r'']
      else if char_code c = 9 then [char_of (92::nat), CHR ''t'']
      else if char_code c < 32 \<or> char_code c = 127
      then [char_of (92::nat), CHR ''x'', hex_digit (char_code c div 16), hex_digit (char_code c mod 16)]
      else [c])"

definition py_repr :: "string \<Rightarrow> string" where
  "py_repr s =
     (let single = char_of (39::nat); double = char_of (34::nat);
          q = (if single \<in> set s \<and> double \<notin> set s then double else single)
      in [q] @ concat (List.map (repr_char q) s) @ [q])"

text \<open>\<open>int(s)\<close>.\<close>

definition py_int :: "string \<Rightarrow> int result" where
  "py_int s =
     (case read_int s of
        None \<Rightarrow> Inl (ValueError (''invalid literal for int() with base 10: '' @ py_repr s))
      | Some n \<Rightarrow> Inr n)"

text \<open>\<open>str(n)\<close>.\<close>

fun str_nat :: "nat \<Rightarrow> string" where
  "str_nat n = (if n < 10 then [digit_char n] else str_nat (n div 10) @ [digit_char (n mod 10)])"

declare str_nat.simps [simp del]

definition str_int :: "int \<Rightarrow> string" where
  "str_int n = (if n < 0 then CHR ''-'' # str_nat (nat (- n)) else str_nat (nat n))"

text \<open>
  \<open>a, b = map(int, parts)\<close>: the elements are converted as they are unpacked, at most three of
  them, before the count is rejected.
\<close>

fun unpack_two_ints :: "string list \<Rightarrow> (int \<times> int) result" where
  "unpack_two_ints [] = Inl (ValueError ''not enough values to unpack (expected 2, got 0)'')"
| "unpack_two_ints [a] =
     bindE (py_int a) (\<lambda>_. Inl (ValueError ''not enough values to unpack (expected 2, got 1)''))"
| "unpack_two_ints [a, b] = bindE (py_int a) (\<lambda>x. bindE (py_int b) (\<lambda>y. Inr (x, y)))"
| "unpack_two_ints (a # b # c # ps) =
     bindE (py_int a) (\<lambda>_. bindE (py_int b) (\<lambda>_. bindE (py_int c)
       (\<lambda>_. Inl (ValueError ''too many values to unpack (expected 2)''))))"

section \<open>Printing and reading a number\<close>

lemma digit_char_code: "n < 10 \<Longrightarrow> char_code (digit_char n) = 48 + n"
  by (simp add: digit_char_def)

lemma is_digit_digit_char [simp]: "n < 10 \<Longrightarrow> is_digit (digit_char n)"
  by (simp add: is_digit_def digit_char_code)

lemma digit_val_digit_char [simp]: "n < 10 \<Longrightarrow> digit_val (digit_char n) = int n"
  by (simp add: digit_val_def digit_char_code)

lemma digit_val_nonneg: "is_digit c \<Longrightarrow> 0 \<le> digit_val c"
  by (simp add: is_digit_def digit_val_def)

lemma str_nat_digits: "list_all is_digit (str_nat n)"
proof (induction n rule: str_nat.induct)
  case (1 n)
  show ?case
  proof (cases "n < 10")
    case True
    then show ?thesis by (simp add: str_nat.simps)
  next
    case False
    with 1 show ?thesis by (subst str_nat.simps) simp
  qed
qed

lemma str_nat_ne [simp]: "str_nat n \<noteq> []"
  by (subst str_nat.simps) simp

lemma read_digits_snoc:
  "list_all is_digit s \<Longrightarrow> is_digit d \<Longrightarrow>
   read_digits a (s @ [d]) = map_option (\<lambda>n. 10 * n + digit_val d) (read_digits a s)"
  by (induction a s rule: read_digits.induct) auto

lemma read_unsigned_snoc:
  "s \<noteq> [] \<Longrightarrow> list_all is_digit s \<Longrightarrow> is_digit d \<Longrightarrow>
   read_unsigned (s @ [d]) = map_option (\<lambda>n. 10 * n + digit_val d) (read_unsigned s)"
  by (cases s) (auto simp: read_unsigned_def read_digits_snoc)

lemma read_unsigned_str_nat: "read_unsigned (str_nat n) = Some (int n)"
proof (induction n rule: str_nat.induct)
  case (1 n)
  show ?case
  proof (cases "n < 10")
    case True
    then show ?thesis by (simp add: str_nat.simps [of n] read_unsigned_def)
  next
    case False
    have "read_unsigned (str_nat n) = read_unsigned (str_nat (n div 10) @ [digit_char (n mod 10)])"
      using False by (subst str_nat.simps) simp
    also have "\<dots> = Some (10 * int (n div 10) + int (n mod 10))"
      using 1 False by (simp add: read_unsigned_snoc str_nat_digits)
    also have "10 * int (n div 10) + int (n mod 10) = int n" by presburger
    finally show ?thesis .
  qed
qed

lemma digit_not_space: "is_digit c \<Longrightarrow> \<not> is_space c \<and> \<not> is_c_space c"
  by (auto simp: is_digit_def is_space_def is_c_space_def)

lemma digit_not_sep:
  "is_digit c \<Longrightarrow> c \<noteq> CHR '','' \<and> c \<noteq> CHR ''-'' \<and> c \<noteq> CHR ''+''"
  by (auto simp: is_digit_def)

lemma strip_digits: "list_all is_digit s \<Longrightarrow> strip_by is_c_space s = s"
  by (rule strip_by_id) (auto simp: list_all_iff dest: digit_not_space)

lemma read_int_digits: "list_all is_digit s \<Longrightarrow> s \<noteq> [] \<Longrightarrow> read_int s = read_unsigned s"
  by (cases s) (auto simp: read_int_def Let_def strip_digits dest: digit_not_sep)

lemma str_int_nonneg: "0 \<le> n \<Longrightarrow> str_int n = str_nat (nat n)"
  by (simp add: str_int_def)

lemma py_int_str_int [text_simps]: "0 \<le> n \<Longrightarrow> py_int (str_int n) = Inr n"
  by (simp add: py_int_def str_int_nonneg read_int_digits str_nat_digits read_unsigned_str_nat)

lemma str_int_digits: "0 \<le> n \<Longrightarrow> list_all is_digit (str_int n)"
  by (simp add: str_int_nonneg str_nat_digits)

lemma str_int_ne [simp]: "str_int n \<noteq> []"
  by (simp add: str_int_def)

text \<open>A literal without a minus sign is not negative.\<close>

lemma read_digits_nonneg: "read_digits a s = Some n \<Longrightarrow> 0 \<le> a \<Longrightarrow> 0 \<le> n"
  by (induction a s rule: read_digits.induct) (auto split: if_splits dest: digit_val_nonneg)

lemma read_unsigned_nonneg: "read_unsigned s = Some n \<Longrightarrow> 0 \<le> n"
  by (auto simp: read_unsigned_def digit_val_nonneg read_digits_nonneg split: list.splits if_splits)

lemma set_strip_by: "set (strip_by p s) \<subseteq> set s"
  by (auto simp: strip_by_def dest!: set_dropWhileD)

lemma py_int_nonneg: "py_int s = Inr n \<Longrightarrow> CHR ''-'' \<notin> set s \<Longrightarrow> 0 \<le> n"
  using set_strip_by [of is_c_space s]
  by (auto simp: py_int_def read_int_def Let_def read_unsigned_nonneg
      split: option.splits list.splits if_splits)

lemma split_on_parts: "p \<in> set (split_on c s) \<Longrightarrow> c \<notin> set p"
proof (induction s arbitrary: p)
  case (Cons x s)
  then show ?case by (cases "split_on c s") (fastforce split: if_splits)+
qed simp

lemma unpack_two_ints_Inr:
  "unpack_two_ints ps = Inr (a, b) \<Longrightarrow> \<exists>s t. ps = [s, t] \<and> py_int s = Inr a \<and> py_int t = Inr b"
  by (induction ps rule: unpack_two_ints.induct) auto

lemma unpack_split_nonneg:
  "unpack_two_ints (split_on (CHR ''-'') s) = Inr (a, b) \<Longrightarrow> 0 \<le> a \<and> 0 \<le> b"
  by (metis list.set_intros(1) list.set_intros(2) py_int_nonneg split_on_parts unpack_two_ints_Inr)

end
