(* ===== verification/Cpu_Ranges.thy ===== *)
theory Cpu_Ranges
  imports Py_Text
begin

text \<open>
  \<open>epa_orchestrator/utils.py\<close>: reading and printing CPU range strings, and the NUMA topology
  in sysfs. The host's files are a parameter: a \<open>host\<close> gives the text of a file, the entries
  of a directory and the existence of a path, where \<open>None\<close> is an \<open>OSError\<close>.
\<close>

section \<open>The host's files\<close>

record host =
  file_text :: "string \<Rightarrow> string option"
  dir_entries :: "string \<Rightarrow> string list option"
  path_exists :: "string \<Rightarrow> bool"

definition read_file_strict :: "host \<Rightarrow> string \<Rightarrow> string" where
  "read_file_strict h path = (case file_text h path of None \<Rightarrow> [] | Some t \<Rightarrow> strip t)"

section \<open>Parsing and printing range strings\<close>

definition parse_part :: "string \<Rightarrow> int set result" where
  "parse_part part =
     (if CHR ''-'' \<in> set part
      then bindE (unpack_two_ints (split_on (CHR ''-'') part)) (\<lambda>(start, stop).
             raise_if (stop < start)
               (ValueError (''Invalid CPU range: '' @ part @ '' (start > end)''))
               (Inr {start..stop}))
      else bindE (py_int part) (\<lambda>n. Inr {n}))"

fun parse_parts :: "string list \<Rightarrow> int set \<Rightarrow> int set result" where
  "parse_parts [] cpus = Inr cpus"
| "parse_parts (p # ps) cpus =
     (let part = strip p in
      if part = [] then parse_parts ps cpus
      else bindE (parse_part part) (\<lambda>S. parse_parts ps (cpus \<union> S)))"

definition parse_cpu_ranges :: "string \<Rightarrow> int set result" where
  "parse_cpu_ranges cpu_ranges =
     (if cpu_ranges = [] \<or> strip cpu_ranges = [] then Inr {}
      else parse_parts (split_on (CHR '','') cpu_ranges) {})"

definition range_text :: "int \<Rightarrow> int \<Rightarrow> string" where
  "range_text start prev =
     (if start = prev then str_int start else str_int start @ ''-'' @ str_int prev)"

fun ranges_loop :: "int list \<Rightarrow> string list \<Rightarrow> int \<Rightarrow> int \<Rightarrow> string list" where
  "ranges_loop [] ranges start prev = ranges @ [range_text start prev]"
| "ranges_loop (cpu # cpus) ranges start prev =
     (if cpu \<noteq> prev + 1 then ranges_loop cpus (ranges @ [range_text start prev]) cpu cpu
      else ranges_loop cpus ranges start cpu)"

definition to_ranges :: "int list \<Rightarrow> string" where
  "to_ranges cpu_list =
     (case sort cpu_list of [] \<Rightarrow> [] | c # cs \<Rightarrow> join '','' (ranges_loop cs [] c c))"

text \<open>\<open>to_ranges(sorted(S))\<close>, the canonical text of a set.\<close>

abbreviation set_ranges :: "int set \<Rightarrow> string" where
  "set_ranges S \<equiv> to_ranges (py_sorted S)"

definition count_cpus_in_ranges :: "string \<Rightarrow> int result" where
  "count_cpus_in_ranges cpu_ranges = bindE (parse_cpu_ranges cpu_ranges) (\<lambda>S. Inr (py_len S))"

section \<open>NUMA nodes\<close>

definition node_base :: string where
  "node_base = ''/sys/devices/system/node''"

definition is_node_dir :: "string \<Rightarrow> bool" where
  "is_node_dir d \<longleftrightarrow> take 4 d = ''node'' \<and> isdigit (drop 4 d)"

definition node_number :: "string \<Rightarrow> int" where
  "node_number d = (case read_int (drop 4 d) of None \<Rightarrow> 0 | Some n \<Rightarrow> n)"

definition add_node_cpus :: "host \<Rightarrow> string \<Rightarrow> (int, int set) dict \<Rightarrow> (int, int set) dict result" where
  "add_node_cpus h node_dir numa_cpus =
     bindE (parse_cpu_ranges (read_file_strict h (node_base @ ''/'' @ node_dir @ ''/cpulist'')))
       (\<lambda>cpus. Inr (if cpus = {} then numa_cpus else dict_set (node_number node_dir) cpus numa_cpus))"

definition get_numa_node_cpus :: "host \<Rightarrow> (int, int set) dict result" where
  "get_numa_node_cpus h =
     raise_if (\<not> path_exists h node_base) (ValueError ''NUMA topology not available'')
       (let node_dirs = List.filter is_node_dir
              (case dir_entries h node_base of None \<Rightarrow> [] | Some ds \<Rightarrow> ds)
        in bindE (foldE (add_node_cpus h) (sort_key node_number node_dirs) [])
             (\<lambda>numa_cpus. raise_if (numa_cpus = []) (ValueError ''NUMA topology not available'')
                (Inr numa_cpus)))"

definition get_cpus_in_numa_node :: "host \<Rightarrow> int \<Rightarrow> string \<Rightarrow> int set result" where
  "get_cpus_in_numa_node h numa_node cpus_str =
     bindE (get_numa_node_cpus h) (\<lambda>numa_cpus.
     bindE (parse_cpu_ranges cpus_str) (\<lambda>requested_cpus.
       Inr (dict_get numa_cpus numa_node {} \<inter> requested_cpus)))"

section \<open>Every parsed number is a CPU number\<close>

lemma parse_part_ids: "parse_part part = Inr S \<Longrightarrow> cpu_ids S"
  by (auto simp: parse_part_def py_int_nonneg dest!: unpack_split_nonneg split: if_splits)

lemma parse_parts_ids: "parse_parts ps cpus = Inr S \<Longrightarrow> cpu_ids cpus \<Longrightarrow> cpu_ids S"
  by (induction ps arbitrary: cpus) (auto simp: Let_def dest: parse_part_ids split: if_splits)

lemma parse_cpu_ranges_ids: "parse_cpu_ranges r = Inr S \<Longrightarrow> cpu_ids S"
  by (auto simp: parse_cpu_ranges_def parse_parts_ids split: if_splits)

lemma parse_cpu_ranges_Nil [simp]: "parse_cpu_ranges [] = Inr {}"
  by (simp add: parse_cpu_ranges_def)

section \<open>Printing, then parsing\<close>

text \<open>The texts of one range: digits and dashes, so no comma and no space.\<close>

definition part_text :: "string \<Rightarrow> bool" where
  "part_text p \<longleftrightarrow> p \<noteq> [] \<and> (\<forall>x \<in> set p. is_digit x \<or> x = CHR ''-'')"

lemma part_text_no_comma: "part_text p \<Longrightarrow> CHR '','' \<notin> set p"
  by (auto simp: part_text_def dest: digit_not_sep)

lemma part_text_no_space: "part_text p \<Longrightarrow> x \<in> set p \<Longrightarrow> \<not> is_space x"
  by (auto simp: part_text_def is_space_def dest: digit_not_space [unfolded is_space_def])

lemma strip_part_text: "part_text p \<Longrightarrow> strip p = p"
  unfolding strip_def by (rule strip_by_id) (auto dest: part_text_no_space)

lemma range_text_part: "0 \<le> a \<Longrightarrow> 0 \<le> b \<Longrightarrow> part_text (range_text a b)"
  using str_int_digits [of a] str_int_digits [of b]
  by (auto simp: part_text_def range_text_def list_all_iff)

lemma range_text_ne [simp]: "range_text a b \<noteq> []"
  by (simp add: range_text_def)

lemma str_int_no_dash: "0 \<le> a \<Longrightarrow> CHR ''-'' \<notin> set (str_int a)"
  using str_int_digits [of a] by (auto simp: list_all_iff dest: digit_not_sep)

lemma split_range_text:
  "0 \<le> a \<Longrightarrow> 0 \<le> b \<Longrightarrow>
   split_on (CHR ''-'') (str_int a @ CHR ''-'' # str_int b) = [str_int a, str_int b]"
  by (simp add: split_on_append split_on_no_sep str_int_no_dash)

lemma parse_part_range_text [text_simps]:
  "0 \<le> a \<Longrightarrow> a \<le> b \<Longrightarrow> parse_part (range_text a b) = Inr {a..b}"
  by (auto simp: parse_part_def range_text_def str_int_no_dash split_range_text text_simps)

lemma ranges_loop_acc: "ranges_loop cs rs a b = rs @ ranges_loop cs [] a b"
proof (induction cs arbitrary: rs a b)
  case (Cons c cs)
  have "ranges_loop cs (rs @ [range_text a b]) c c = rs @ range_text a b # ranges_loop cs [] c c"
    using Cons [of "rs @ [range_text a b]" c c] by simp
  moreover have "ranges_loop cs [range_text a b] c c = range_text a b # ranges_loop cs [] c c"
    using Cons [of "[range_text a b]" c c] by simp
  moreover have "ranges_loop cs rs a c = rs @ ranges_loop cs [] a c" by (rule Cons)
  ultimately show ?case by (cases "c = b + 1") simp_all
qed simp

lemma ranges_loop_Cons:
  "ranges_loop (c # cs) [] a b =
     (if c \<noteq> b + 1 then range_text a b # ranges_loop cs [] c c else ranges_loop cs [] a c)"
  using ranges_loop_acc [of cs "[range_text a b]" c c] by simp

lemma ranges_loop_ne: "ranges_loop cs [] a b \<noteq> []"
  by (induction cs arbitrary: a b) (simp_all add: ranges_loop_Cons del: ranges_loop.simps(2))

lemma ranges_loop_parts:
  "sorted (b # cs) \<Longrightarrow> 0 \<le> a \<Longrightarrow> a \<le> b \<Longrightarrow> \<forall>p \<in> set (ranges_loop cs [] a b). part_text p"
proof (induction cs arbitrary: a b)
  case Nil
  then show ?case by (simp add: range_text_part)
next
  case (Cons c cs)
  then have "sorted (c # cs)" "0 \<le> c" "a \<le> c" by auto
  then have "\<forall>p \<in> set (ranges_loop cs [] c c). part_text p" "\<forall>p \<in> set (ranges_loop cs [] a c). part_text p"
    using Cons.IH Cons.prems(2) by blast+
  then show ?case
    using Cons.prems by (simp add: ranges_loop_Cons range_text_part del: ranges_loop.simps(2))
qed

text \<open>Each run of consecutive numbers becomes one part, and the parts cover the list.\<close>

lemma parse_ranges_loop:
  "sorted (b # cs) \<Longrightarrow> 0 \<le> a \<Longrightarrow> a \<le> b \<Longrightarrow>
   parse_parts (ranges_loop cs [] a b) acc = Inr (acc \<union> {a..b} \<union> set cs)"
proof (induction cs arbitrary: a b acc)
  case Nil
  then show ?case by (simp add: strip_part_text range_text_part text_simps)
next
  case (Cons c cs)
  then have ord: "b \<le> c" "sorted (c # cs)" by auto
  show ?case
  proof (cases "c = b + 1")
    case True
    have "acc \<union> {a..b} \<union> set (c # cs) = acc \<union> ({a..c} \<union> set cs)" using True Cons.prems by auto
    then show ?thesis using Cons.IH [OF ord(2), of a acc] Cons.prems True
      by (simp add: ranges_loop_Cons Un_assoc del: ranges_loop.simps(2) list.set(2))
  next
    case False
    have "parse_parts (ranges_loop cs [] c c) (acc \<union> {a..b}) = Inr (acc \<union> {a..b} \<union> {c..c} \<union> set cs)"
      using Cons.IH [OF ord(2), of c "acc \<union> {a..b}"] Cons.prems ord by simp
    then show ?thesis using False Cons.prems
      by (simp add: ranges_loop_Cons strip_part_text range_text_part text_simps del: ranges_loop.simps(2))
  qed
qed

lemma join_mem: "p \<in> set ps \<Longrightarrow> x \<in> set p \<Longrightarrow> x \<in> set (join sep ps)"
  by (induction sep ps rule: join.induct) auto

lemma to_ranges_eq_Nil [simp]: "to_ranges xs = [] \<longleftrightarrow> xs = []"
proof
  assume h: "to_ranges xs = []"
  show "xs = []"
  proof (cases "sort xs")
    case Nil
    then show ?thesis by (metis set_empty set_sort)
  next
    case (Cons c cs)
    have "\<forall>p \<in> set (ranges_loop cs [] a b). p \<noteq> []" for a b
      by (induction cs arbitrary: a b) (auto simp: ranges_loop_Cons simp del: ranges_loop.simps(2))
    with h Cons show ?thesis using join_eq_Nil ranges_loop_ne by (fastforce simp: to_ranges_def)
  qed
qed (simp add: to_ranges_def)

text \<open>The text of a list splits back into parts that cover it.\<close>

lemma to_ranges_parts:
  assumes "xs \<noteq> []" and "\<forall>c \<in> set xs. 0 \<le> c"
  shows "(\<forall>p \<in> set (split_on (CHR '','') (to_ranges xs)). part_text p) \<and>
    parse_parts (split_on (CHR '','') (to_ranges xs)) {} = Inr (set xs)"
proof (cases "sort xs")
  case Nil
  then show ?thesis using assms(1) by (metis set_empty set_sort)
next
  case (Cons c cs)
  let ?ps = "ranges_loop cs [] c c"
  have srt: "sorted (c # cs)" by (metis Cons sorted_sort)
  have st: "set xs = insert c (set cs)" by (metis Cons list.simps(15) set_sort)
  have c0: "0 \<le> c" using assms st by simp
  have parts: "\<forall>p \<in> set ?ps. part_text p" using ranges_loop_parts [OF srt c0] by simp
  then have "split_on (CHR '','') (to_ranges xs) = ?ps"
    by (simp add: to_ranges_def Cons split_on_join ranges_loop_ne part_text_no_comma)
  moreover have "parse_parts ?ps {} = Inr (set xs)"
    using parse_ranges_loop [OF srt c0, of "{}"] st by auto
  ultimately show ?thesis using parts by simp
qed

lemma join_split_on: "join [c] (split_on c s) = s"
proof (induction s)
  case (Cons x s)
  then show ?case
    by (cases "split_on c s" rule: remdups_adj.cases) (auto split: if_splits)
qed simp

lemma strip_to_ranges:
  assumes "xs \<noteq> []" and "\<forall>c \<in> set xs. 0 \<le> c"
  shows "strip (to_ranges xs) \<noteq> []"
proof -
  let ?ps = "split_on (CHR '','') (to_ranges xs)"
  have "part_text (hd ?ps)" using to_ranges_parts [OF assms] by simp
  then obtain x where "x \<in> set (hd ?ps)" "\<not> is_space x"
    by (metis part_text_def part_text_no_space list.set_sel(1))
  then have "x \<in> set (join '','' ?ps)" "\<not> is_space x" by (auto intro: join_mem [OF list.set_sel(1)])
  then show ?thesis by (metis join_split_on strip_by_eq_Nil strip_def)
qed

lemma parse_to_ranges [text_simps]:
  assumes "\<forall>c \<in> set xs. 0 \<le> c"
  shows "parse_cpu_ranges (to_ranges xs) = Inr (set xs)"
proof (cases "xs = []")
  case True
  then show ?thesis by (simp add: to_ranges_def)
next
  case False
  then show ?thesis
    using to_ranges_parts [OF False assms] strip_to_ranges [OF False assms]
    by (simp add: parse_cpu_ranges_def)
qed

end
