(* ===== verification/Claim_Table.thy ===== *)
theory Claim_Table
  imports Cpu_Ranges
begin

text \<open>
  The allocation dictionaries of the ledger map a service to the text of a CPU set. This theory
  states what the ledger relies on about that text as an interface, \<open>range_codec\<close>, proves the
  laws of a dictionary of encoded claims from the interface alone, and interprets it with
  \<^const>\<open>to_ranges\<close> and \<^const>\<open>parse_cpu_ranges\<close>.
\<close>

section \<open>Reading a dictionary of encoded claims\<close>

definition decoded :: "(string \<Rightarrow> int set result) \<Rightarrow> string \<Rightarrow> int set" where
  "decoded dec r = (case dec r of Inl e \<Rightarrow> {} | Inr S \<Rightarrow> S)"

definition claim_of :: "(string \<Rightarrow> int set result) \<Rightarrow> (string, string) dict \<Rightarrow> string \<Rightarrow> int set" where
  "claim_of dec d k = (case map_of d k of None \<Rightarrow> {} | Some r \<Rightarrow> decoded dec r)"

definition readable :: "(string \<Rightarrow> int set result) \<Rightarrow> (string, string) dict \<Rightarrow> bool" where
  "readable dec d \<longleftrightarrow> (\<forall>(k, r) \<in> set d. \<exists>S. dec r = Inr S)"

text \<open>How readability is evaluated.\<close>

lemma readable_code [code]: "readable dec d \<longleftrightarrow> list_all (\<lambda>(k, r). \<not> isl (dec r)) d"
proof -
  have "(\<exists>S. x = Inr S) \<longleftrightarrow> \<not> isl x" for x :: "int set result" by (cases x) auto
  then show ?thesis by (auto simp: readable_def list_all_iff)
qed

definition claims_union :: "(string \<Rightarrow> int set result) \<Rightarrow> (string, string) dict \<Rightarrow> int set" where
  "claims_union dec d = (\<Union>(k, r) \<in> set d. decoded dec r)"

lemma claim_of_Nil [simp]: "claim_of dec [] k = {}"
  by (simp add: claim_of_def)

lemma claim_of_absent: "\<not> dict_has d k \<Longrightarrow> claim_of dec d k = {}"
  by (simp add: claim_of_def dict_has_def)

lemma claim_of_pop [simp]: "claim_of dec (dict_pop k d) j = (if j = k then {} else claim_of dec d j)"
  by (simp add: claim_of_def)

lemma claim_of_subset: "claim_of dec d k \<subseteq> claims_union dec d"
  by (auto simp: claim_of_def claims_union_def split: option.splits dest!: map_of_SomeD)

lemma readable_pop: "readable dec d \<Longrightarrow> readable dec (dict_pop k d)"
  using set_dict_pop [of k d] by (auto simp: readable_def)

lemma claims_union_claim_of: "dict_ok d \<Longrightarrow> claims_union dec d = (\<Union>k. claim_of dec d k)"
proof -
  assume ok: "dict_ok d"
  have "decoded dec r \<subseteq> claim_of dec d k" if "(k, r) \<in> set d" for k r
    using that ok by (simp add: claim_of_def map_of_is_SomeI)
  then have "claims_union dec d \<subseteq> (\<Union>k. claim_of dec d k)" by (fastforce simp: claims_union_def)
  then show ?thesis using claim_of_subset by blast
qed

text \<open>Two services never share a number.\<close>

definition table_disjoint :: "(string \<Rightarrow> int set result) \<Rightarrow> (string, string) dict \<Rightarrow> bool" where
  "table_disjoint dec d \<longleftrightarrow> (\<forall>s t. s \<noteq> t \<longrightarrow> claim_of dec d s \<inter> claim_of dec d t = {})"

lemma table_disjointD: "table_disjoint dec d \<Longrightarrow> s \<noteq> t \<Longrightarrow> claim_of dec d s \<inter> claim_of dec d t = {}"
  by (simp add: table_disjoint_def)

lemma Union_replace:
  assumes "\<And>t. s \<noteq> t \<Longrightarrow> f s \<inter> f t = {}"
  shows "(\<Union>k. if k = s then S else f k) = ((\<Union>k. f k) - f s) \<union> S"
proof (intro equalityI subsetI)
  fix x assume "x \<in> (\<Union>k. if k = s then S else f k)"
  then obtain k where "x \<in> (if k = s then S else f k)" by blast
  then show "x \<in> ((\<Union>k. f k) - f s) \<union> S" using assms [of k] by (auto split: if_splits)
next
  fix x assume "x \<in> ((\<Union>k. f k) - f s) \<union> S"
  then consider "x \<in> S" | k where "x \<in> f k" "x \<notin> f s" by blast
  then show "x \<in> (\<Union>k. if k = s then S else f k)"
  proof cases
    case 1
    then have "x \<in> (if s = s then S else f s)" by simp
    then show ?thesis by blast
  next
    case 2
    then have "x \<in> (if k = s then S else f k)" by auto
    then show ?thesis by blast
  qed
qed

lemma claims_union_pop:
  "dict_ok d \<Longrightarrow> table_disjoint dec d \<Longrightarrow>
   claims_union dec (dict_pop s d) = claims_union dec d - claim_of dec d s"
  using Union_replace [of s "claim_of dec d" "{}", OF table_disjointD [of dec d s]]
  by (simp add: claims_union_claim_of)

text \<open>
  A well-formed table: unique keys, readable claims, and a set that is the union of the claims.
\<close>

definition table_ok :: "(string \<Rightarrow> int set result) \<Rightarrow> (string, string) dict \<Rightarrow> int set \<Rightarrow> bool" where
  "table_ok dec d U \<longleftrightarrow> dict_ok d \<and> readable dec d \<and> U = claims_union dec d"

lemma table_ok_pop:
  "table_ok dec d U \<Longrightarrow> table_disjoint dec d \<Longrightarrow> table_ok dec (dict_pop s d) (U - claim_of dec d s)"
  by (simp add: table_ok_def readable_pop claims_union_pop)

lemma table_ok_union: "table_ok dec d U \<Longrightarrow> U = (\<Union>k. claim_of dec d k)"
  by (simp add: table_ok_def claims_union_claim_of)

section \<open>The interface of the range text\<close>

locale range_codec =
  fixes enc :: "int set \<Rightarrow> string"
    and dec :: "string \<Rightarrow> int set result"
  assumes dec_enc: "cpu_ids S \<Longrightarrow> dec (enc S) = Inr S"
    and dec_ids: "dec r = Inr S \<Longrightarrow> cpu_ids S"
    and dec_Nil: "dec [] = Inr {}"
    and enc_Nil: "finite S \<Longrightarrow> enc S = [] \<longleftrightarrow> S = {}"
begin

lemma enc_inject: "cpu_ids S \<Longrightarrow> cpu_ids T \<Longrightarrow> enc S = enc T \<longleftrightarrow> S = T"
  by (metis dec_enc sum.inject(2))

lemma decoded_enc: "cpu_ids S \<Longrightarrow> decoded dec (enc S) = S"
  by (simp add: decoded_def dec_enc)

lemma decoded_ids: "cpu_ids (decoded dec r)"
  by (auto simp: decoded_def dec_ids split: sum.splits)

lemma claim_of_ids: "cpu_ids (claim_of dec d k)"
  by (simp add: claim_of_def decoded_ids split: option.splits)

lemma claim_of_set:
  "cpu_ids S \<Longrightarrow> claim_of dec (dict_set k (enc S) d) j = (if j = k then S else claim_of dec d j)"
  by (simp add: claim_of_def decoded_enc)

lemma readable_set: "readable dec d \<Longrightarrow> cpu_ids S \<Longrightarrow> readable dec (dict_set k (enc S) d)"
  using set_dict_set [of k "enc S" d] by (auto simp: readable_def dec_enc)

lemma dec_lookup: "readable dec d \<Longrightarrow> map_of d k = Some r \<Longrightarrow> dec r = Inr (claim_of dec d k)"
  by (auto simp: readable_def claim_of_def decoded_def dest!: map_of_SomeD)

text \<open>\<open>parse(d.get(k, ""))\<close>.\<close>

lemma dec_dict_get: "readable dec d \<Longrightarrow> dec (dict_get d k []) = Inr (claim_of dec d k)"
proof (cases "map_of d k")
  case None
  then show ?thesis by (simp add: dict_get_def claim_of_def dec_Nil)
next
  case (Some r)
  then show "readable dec d \<Longrightarrow> ?thesis" using dec_lookup by (simp add: dict_get_def)
qed

lemma claims_union_set:
  "dict_ok d \<Longrightarrow> table_disjoint dec d \<Longrightarrow> cpu_ids S \<Longrightarrow>
   claims_union dec (dict_set s (enc S) d) = (claims_union dec d - claim_of dec d s) \<union> S"
  using Union_replace [of s "claim_of dec d" S, OF table_disjointD [of dec d s]]
  by (simp add: claims_union_claim_of claim_of_set)

lemma table_ok_set:
  "table_ok dec d U \<Longrightarrow> table_disjoint dec d \<Longrightarrow> cpu_ids S \<Longrightarrow> V = (U - claim_of dec d s) \<union> S \<Longrightarrow>
   table_ok dec (dict_set s (enc S) d) V"
  by (simp add: table_ok_def readable_set claims_union_set)

text \<open>Taking numbers away from one service: the entry shrinks, or goes when nothing is left.\<close>

lemma table_shrink:
  assumes "table_ok dec d U" "table_disjoint dec d" "X = claim_of dec d s"
    "d' = (if X - R \<noteq> {} then dict_set s (enc (X - R)) d else dict_pop s d)"
  shows "table_ok dec d' (U - X \<inter> R)"
    and "claim_of dec d' t = (if t = s then X - R else claim_of dec d t)"
proof -
  have ids: "cpu_ids (X - R)" using assms(3) claim_of_ids by blast
  have sub: "X \<subseteq> U" using assms(1,3) claim_of_subset by (simp add: table_ok_def)
  show "claim_of dec d' t = (if t = s then X - R else claim_of dec d t)"
    using ids assms(4) by (simp add: claim_of_set)
  show "table_ok dec d' (U - X \<inter> R)"
  proof (cases "X - R = {}")
    case True
    then have "U - X \<inter> R = U - X" by blast
    then show ?thesis using True assms table_ok_pop [OF assms(1,2), of s] by simp
  next
    case False
    have "U - X \<inter> R = (U - claim_of dec d s) \<union> (X - R)" using sub assms(3) by blast
    then show ?thesis using False assms(4) table_ok_set [OF assms(1,2) ids] by simp
  qed
qed

lemma claims_union_ids: "cpu_ids (claims_union dec d)"
proof -
  have "\<forall>(k, r) \<in> set d. cpu_ids (decoded dec r)" by (simp add: decoded_ids split_beta)
  then show ?thesis by (auto simp: claims_union_def cpu_ids_def split_beta)
qed

end

interpretation ranges: range_codec set_ranges parse_cpu_ranges
proof unfold_locales
  fix S :: "int set" assume "cpu_ids S"
  then show "parse_cpu_ranges (set_ranges S) = Inr S"
    by (subst parse_to_ranges) (auto simp: cpu_ids_def)
next
  fix S :: "int set" assume "finite S"
  then show "set_ranges S = [] \<longleftrightarrow> S = {}" by simp
qed (auto simp: parse_cpu_ranges_ids)

end
