(* ===== verification/Cpu_Pinning.thy ===== *)
theory Cpu_Pinning
  imports Cpu_Ranges
begin

text \<open>
  \<open>epa_orchestrator/cpu_pinning.py\<close>: the isolated CPU list and the thread siblings in sysfs,
  and the split of a CPU list into dedicated and shared CPUs with the small/large-system
  heuristic.
\<close>

section \<open>Sysfs files\<close>

definition isolated_cpus_path :: string where
  "isolated_cpus_path = ''/sys/devices/system/cpu/isolated''"

definition present_cpus_path :: string where
  "present_cpus_path = ''/sys/devices/system/cpu/present''"

definition thread_siblings_path :: "int \<Rightarrow> string" where
  "thread_siblings_path cpu =
     ''/sys/devices/system/cpu/cpu'' @ str_int cpu @ ''/topology/thread_siblings_list''"

definition max_allocation_percentage :: int where
  "max_allocation_percentage = 80"

definition large_system_threshold :: int where
  "large_system_threshold = 100"

definition reserved_cores_large_system :: int where
  "reserved_cores_large_system = 16"

text \<open>The text of the \<open>OSError\<close> is the host's, so only the prefix of the message is modelled.\<close>

definition get_isolated_cpus :: "host \<Rightarrow> string result" where
  "get_isolated_cpus h =
     (case file_text h isolated_cpus_path of
        None \<Rightarrow> Inl (ValueError (''Failed to read isolated CPUs from '' @ isolated_cpus_path))
      | Some t \<Rightarrow> Inr (strip t))"

section \<open>Thread siblings\<close>

definition siblings_entry :: "host \<Rightarrow> int set \<Rightarrow> int \<Rightarrow> (int \<times> int set) result" where
  "siblings_entry h cpus cpu =
     (let content = read_file_strict h (thread_siblings_path cpu) in
      if content \<noteq> []
      then bindE (parse_cpu_ranges content) (\<lambda>siblings_all.
             let siblings = siblings_all \<inter> cpus
             in Inr (cpu, if siblings \<noteq> {} then siblings else {cpu}))
      else Inr (cpu, {cpu}))"

definition get_thread_siblings_map :: "host \<Rightarrow> int set \<Rightarrow> (int, int set) dict result" where
  "get_thread_siblings_map h cpus =
     (if cpus = {} then Inr [] else mapE (siblings_entry h cpus) (py_sorted cpus))"

section \<open>Dedicated and shared CPUs\<close>

text \<open>The parser of \<open>calculate_cpu_pinning\<close> is its own: no stripping, no descending-range check.\<close>

definition pin_part :: "string \<Rightarrow> int set result" where
  "pin_part part =
     (if CHR ''-'' \<in> set part
      then bindE (unpack_two_ints (split_on (CHR ''-'') part)) (\<lambda>(start, stop). Inr {start..stop})
      else bindE (py_int part) (\<lambda>n. Inr {n}))"

fun pin_parts :: "string list \<Rightarrow> int set \<Rightarrow> int set result" where
  "pin_parts [] cpus = Inr cpus"
| "pin_parts (p # ps) cpus = bindE (pin_part p) (\<lambda>S. pin_parts ps (cpus \<union> S))"

text \<open>
  \<open>int(total_cpus * 80 / 100)\<close> is computed in floating point; for at most 100 CPUs it is the
  integer quotient.
\<close>

definition default_cores :: "int \<Rightarrow> int" where
  "default_cores total_cpus =
     (if large_system_threshold < total_cpus then total_cpus - reserved_cores_large_system
      else total_cpus * max_allocation_percentage div 100)"

definition calculate_cpu_pinning :: "string \<Rightarrow> int \<Rightarrow> (string \<times> string) result" where
  "calculate_cpu_pinning cpu_list cores_requested =
     (if cpu_list = [] then Inr ([], [])
      else
        bindE (pin_parts (split_on (CHR '','') cpu_list) {}) (\<lambda>cpus.
          let requested = (if cores_requested < 0 then 0 else cores_requested);
              cpus_list = py_sorted cpus;
              total_cpus = int (length cpus_list);
              cores = (if requested = 0 then default_cores total_cpus else requested)
          in if total_cpus < cores then Inr ([], [])
             else Inr (to_ranges (drop (nat cores) cpus_list), to_ranges (take (nat cores) cpus_list))))"

section \<open>What the split computes\<close>

lemma siblings_entry_within:
  "siblings_entry h cpus cpu = Inr (c, S) \<Longrightarrow> cpu \<in> cpus \<Longrightarrow> c \<in> cpus \<and> S \<subseteq> cpus \<and> S \<noteq> {}"
  by (auto simp: siblings_entry_def Let_def split: if_splits)

lemma siblings_map_within:
  "get_thread_siblings_map h cpus = Inr m \<Longrightarrow> finite cpus \<Longrightarrow> (c, S) \<in> set m \<Longrightarrow>
   c \<in> cpus \<and> S \<subseteq> cpus \<and> S \<noteq> {}"
  by (auto simp: get_thread_siblings_map_def dest!: mapE_source split: if_splits
      dest: siblings_entry_within)

lemma pin_part_text: "part_text p \<Longrightarrow> parse_part p = Inr S \<Longrightarrow> pin_part p = Inr S"
  by (auto simp: pin_part_def parse_part_def split: if_splits)

lemma pin_parts_canonical:
  "\<forall>p \<in> set ps. part_text p \<Longrightarrow> parse_parts ps acc = Inr S \<Longrightarrow> pin_parts ps acc = Inr S"
  by (induction ps arbitrary: acc)
    (auto simp: Let_def strip_part_text pin_part_text part_text_def split: if_splits)

text \<open>On canonical range text the two parsers agree.\<close>

lemma pin_parts_to_ranges:
  assumes "xs \<noteq> []" and "\<forall>c \<in> set xs. 0 \<le> c"
  shows "pin_parts (split_on (CHR '','') (to_ranges xs)) {} = Inr (set xs)"
  using to_ranges_parts [OF assms] by (auto intro: pin_parts_canonical)

lemma set_py_sorted_take: "finite S \<Longrightarrow> set (take n (py_sorted S)) \<subseteq> S"
  by (metis set_sorted_list_of_set set_take_subset)

lemma card_take_py_sorted: "finite S \<Longrightarrow> n \<le> card S \<Longrightarrow> card (set (take n (py_sorted S))) = n"
  by (simp add: distinct_card)

lemma take_drop_py_sorted: "finite S \<Longrightarrow> set (drop n (py_sorted S)) = S - set (take n (py_sorted S))"
  using set_take_disj_set_drop_if_distinct [of "py_sorted S" n n] append_take_drop_id [of n "py_sorted S"]
  by (metis Diff_cancel Diff_disjoint Un_Diff Un_Diff_Int distinct_sorted_list_of_set
      inf_commute order_refl set_append set_sorted_list_of_set sup_bot_left)

definition pinned_count :: "int \<Rightarrow> int \<Rightarrow> int" where
  "pinned_count n requested = (if requested \<le> 0 then default_cores n else requested)"

lemma calculate_on_set:
  assumes "cpu_ids S" and "S \<noteq> {}"
  shows "calculate_cpu_pinning (set_ranges S) n =
    (let k = pinned_count (py_len S) n in
     if py_len S < k then Inr ([], [])
     else Inr (to_ranges (drop (nat k) (py_sorted S)), to_ranges (take (nat k) (py_sorted S))))"
proof -
  have "py_sorted S \<noteq> []" "\<forall>c \<in> set (py_sorted S). 0 \<le> c" "finite S"
    using assms by (auto simp: cpu_ids_def)
  then show ?thesis
    by (simp add: calculate_cpu_pinning_def pin_parts_to_ranges pinned_count_def py_len_def Let_def)
qed

lemma default_cores_bounds: "0 \<le> n \<Longrightarrow> 0 \<le> default_cores n \<and> default_cores n \<le> n"
  by (simp add: default_cores_def large_system_threshold_def reserved_cores_large_system_def
      max_allocation_percentage_def) linarith

end
