(* ===== verification/Smt_Selection.thy ===== *)
theory Smt_Selection
  imports Cpu_Pinning "HOL-Library.Multiset"
begin

text \<open>
  The selectors of \<open>AllocationsDB\<close> in \<open>epa_orchestrator/allocations_db.py\<close>: grouping candidate
  CPUs by hyperthread siblings, taking pairs first and single CPUs after, the stable selection
  that keeps a service's own CPUs, and the guard that a selection has the requested size. The
  interface \<open>cpu_selector\<close> says what the ledger relies on; it is interpreted on both selectors.
\<close>

section \<open>Grouping by siblings\<close>

fun group_loop :: "(int, int set) dict \<Rightarrow> int list \<Rightarrow> int set \<Rightarrow> int list list \<Rightarrow> int list list" where
  "group_loop mapping [] ungrouped groups = groups"
| "group_loop mapping (cpu # cpus) ungrouped groups =
     (if cpu \<notin> ungrouped then group_loop mapping cpus ungrouped groups
      else
        let members = (dict_get mapping cpu {cpu} \<union> {cpu}) \<inter> ungrouped
        in group_loop mapping cpus (ungrouped - members) (groups @ [py_sorted members]))"

definition group_candidates_by_siblings :: "host \<Rightarrow> int set \<Rightarrow> int list list result" where
  "group_candidates_by_siblings h candidate_cpus =
     (if candidate_cpus = {} then Inr []
      else bindE (get_thread_siblings_map h candidate_cpus) (\<lambda>mapping.
             Inr (group_loop mapping (py_sorted candidate_cpus) candidate_cpus [])))"

section \<open>Taking CPUs from the groups\<close>

text \<open>
  The Python functions consume the groups in place; the model returns what was taken and the
  groups that are left.
\<close>

fun take_pairs_loop :: "int list list \<Rightarrow> int \<Rightarrow> int list \<Rightarrow> int list \<times> int list list" where
  "take_pairs_loop [] remaining taken = (taken, [])"
| "take_pairs_loop (members # groups) remaining taken =
     (if remaining < 2 then (taken, members # groups)
      else if 2 \<le> length members
      then let (taken', groups') = take_pairs_loop groups (remaining - 2) (taken @ take 2 members)
           in (taken', drop 2 members # groups')
      else let (taken', groups') = take_pairs_loop groups remaining taken
           in (taken', members # groups'))"

definition take_pairs_from_groups :: "int list list \<Rightarrow> int \<Rightarrow> int list \<times> int list list" where
  "take_pairs_from_groups groups budget =
     (if budget < 2 then ([], groups) else take_pairs_loop groups budget [])"

fun take_singles_loop :: "int list list \<Rightarrow> int \<Rightarrow> int list \<Rightarrow> int list \<times> int list list" where
  "take_singles_loop [] remaining taken = (taken, [])"
| "take_singles_loop (members # groups) remaining taken =
     (if remaining = 0 then (taken, members # groups)
      else case members of
          [] \<Rightarrow> (let (taken', groups') = take_singles_loop groups remaining taken
                 in (taken', [] # groups'))
        | m # ms \<Rightarrow> (let (taken', groups') = take_singles_loop groups (remaining - 1) (taken @ [m])
                    in (taken', ms # groups')))"

definition take_singles_from_groups :: "int list list \<Rightarrow> int \<Rightarrow> int list \<times> int list list" where
  "take_singles_from_groups groups budget =
     (if budget \<le> 0 then ([], groups) else take_singles_loop groups budget [])"

definition collect_leftovers :: "int list list \<Rightarrow> int list" where
  "collect_leftovers groups = concat groups"

text \<open>\<open>xs[:n]\<close>: a negative bound counts from the end.\<close>

definition py_prefix :: "int \<Rightarrow> 'a list \<Rightarrow> 'a list" where
  "py_prefix n xs = (if n < 0 then take (nat (int (length xs) + n)) xs else take (nat n) xs)"

definition select_from_groups_pairs_then_singles :: "int list list \<Rightarrow> int \<Rightarrow> int list" where
  "select_from_groups_pairs_then_singles groups cnt =
     (let (pair_taken, groups1) = take_pairs_from_groups groups cnt;
          remaining1 = cnt - int (length pair_taken);
          (single_taken, groups2) =
            (if 0 < remaining1 then take_singles_from_groups groups1 remaining1 else ([], groups1));
          remaining2 = remaining1 - int (length single_taken);
          leftovers = (if 0 < remaining2 then py_prefix remaining2 (collect_leftovers groups2) else [])
      in py_prefix cnt (pair_taken @ single_taken @ leftovers))"

definition select_numa_cpus_smt_aware :: "host \<Rightarrow> int set \<Rightarrow> int \<Rightarrow> int set result" where
  "select_numa_cpus_smt_aware h candidate_cpus num_of_cores =
     bindE (group_candidates_by_siblings h candidate_cpus) (\<lambda>groups.
       Inr (set (select_from_groups_pairs_then_singles groups num_of_cores)))"

section \<open>Stable selection and the size guard\<close>

text \<open>
  \<open>_select_stable\<close> with the selector of additional CPUs and the service's own CPUs as
  arguments.
\<close>

definition stable_with ::
  "(int set \<Rightarrow> int \<Rightarrow> int set result) \<Rightarrow> int set \<Rightarrow> int set \<Rightarrow> int \<Rightarrow> int set result" where
  "stable_with pick own_claims candidates cnt =
     (let own = own_claims \<inter> candidates;
          retained = set (py_prefix cnt (py_sorted own))
      in if py_len retained = cnt then Inr retained
         else bindE (pick (candidates - own) (cnt - py_len retained))
                (\<lambda>more. Inr (retained \<union> more)))"

definition validate_selection :: "int set \<Rightarrow> int set \<Rightarrow> int \<Rightarrow> unit result" where
  "validate_selection selected candidates cnt =
     raise_if (py_len selected \<noteq> cnt \<or> \<not> selected \<subseteq> candidates)
       (ValueError (''Failed to select exactly '' @ str_int cnt @ '' eligible CPUs''))
       (Inr ())"

lemma validate_selection_Inr:
  "validate_selection S C n = Inr u \<longleftrightarrow> py_len S = n \<and> S \<subseteq> C"
  by (auto simp: validate_selection_def)

section \<open>The interface of a selector\<close>

locale cpu_selector =
  fixes pick :: "int set \<Rightarrow> int \<Rightarrow> int set result"
  assumes pick_exact:
    "finite C \<Longrightarrow> 0 \<le> n \<Longrightarrow> n \<le> py_len C \<Longrightarrow> pick C n = Inr S \<Longrightarrow> S \<subseteq> C \<and> py_len S = n"
begin

lemma pick_validates:
  "finite C \<Longrightarrow> 0 \<le> n \<Longrightarrow> n \<le> py_len C \<Longrightarrow> pick C n = Inr S \<Longrightarrow> validate_selection S C n = Inr ()"
  using pick_exact by (simp add: validate_selection_Inr)

lemma stable_exact:
  assumes "finite C" "0 \<le> n" "n \<le> py_len C" "stable_with pick own C n = Inr S"
  shows "S \<subseteq> C \<and> py_len S = n \<and> set (py_prefix n (py_sorted (own \<inter> C))) \<subseteq> S"
proof -
  let ?own = "own \<inter> C"
  let ?ret = "set (py_prefix n (py_sorted ?own))"
  have fin: "finite ?own" using assms(1) by simp
  have ret: "?ret \<subseteq> ?own" using set_py_sorted_take [OF fin, of "nat n"] assms(2)
    by (simp add: py_prefix_def)
  have len: "py_len ?ret = min n (py_len ?own)"
    using assms(2) by (auto simp: py_prefix_def py_len_def distinct_card min_def)
  show ?thesis
  proof (cases "py_len ?ret = n")
    case True
    then show ?thesis using assms(4) ret by (auto simp: stable_with_def Let_def)
  next
    case False
    then have all: "py_len ?ret = py_len ?own" "py_len ?own < n" using len by linarith+
    then have eq: "?ret = ?own"
      using ret fin by (metis card_subset_eq of_nat_eq_iff py_len_def)
    obtain T where T: "pick (C - ?own) (n - py_len ?ret) = Inr T" "S = ?ret \<union> T"
      using assms(4) False by (auto simp: stable_with_def Let_def)
    have "py_len (C - ?own) = py_len C - py_len ?own"
      using assms(1) by (simp add: py_len_def card_Diff_subset card_mono of_nat_diff)
    then have TC: "T \<subseteq> C - ?own" "py_len T = n - py_len ?ret"
      using T(1) assms(1,3) all by (auto dest!: pick_exact [rotated 3])
    then have "finite T" using assms(1) by (meson finite_Diff finite_subset)
    then have "py_len (?own \<union> T) = py_len ?own + py_len T"
      using fin TC(1) by (intro py_len_Un_disjoint) auto
    then show ?thesis using T(2) TC eq by auto
  qed
qed

lemma stable_selector: "cpu_selector (stable_with pick own)"
  by unfold_locales (use stable_exact in blast)

text \<open>A grown claim keeps every own candidate.\<close>

lemma stable_keeps_own:
  assumes "finite C" "n \<le> py_len C" "stable_with pick own C n = Inr S" "py_len (own \<inter> C) \<le> n"
  shows "own \<inter> C \<subseteq> S"
proof -
  have "0 \<le> n" using assms(4) py_len_nonneg order_trans by blast
  moreover from this have "py_prefix n (py_sorted (own \<inter> C)) = py_sorted (own \<inter> C)"
    using assms(4) by (simp add: py_prefix_def py_len_def)
  ultimately show ?thesis using stable_exact [OF assms(1) _ assms(2,3)] assms(1) by simp
qed

end

section \<open>The groups partition the candidates\<close>

lemma group_loop_take:
  "c \<in> u \<Longrightarrow> group_loop m (c # cs) u gs =
     group_loop m cs (u - ((dict_get m c {c} \<union> {c}) \<inter> u))
       (gs @ [py_sorted ((dict_get m c {c} \<union> {c}) \<inter> u)])"
  by (simp only: group_loop.simps Let_def not_True_eq_False if_False simp_thms)

lemma group_loop_acc: "group_loop m cs u gs = gs @ group_loop m cs u []"
proof (induction cs arbitrary: u gs)
  case (Cons c cs)
  show ?case
  proof (cases "c \<in> u")
    case True
    let ?M = "(dict_get m c {c} \<union> {c}) \<inter> u"
    show ?thesis
      unfolding group_loop_take [OF True]
      using Cons [of "u - ?M" "gs @ [py_sorted ?M]"] Cons [of "u - ?M" "[] @ [py_sorted ?M]"]
      by (simp only: append_assoc append_Nil)
  next
    case False
    then show ?thesis using Cons [of u gs] by simp
  qed
qed simp

lemma group_loop_partition:
  "finite u \<Longrightarrow> u \<subseteq> set cs \<Longrightarrow>
   distinct (concat (group_loop m cs u [])) \<and> set (concat (group_loop m cs u [])) = u \<and>
   (\<forall>g \<in> set (group_loop m cs u []). g \<noteq> [] \<and> sorted g)"
proof (induction cs arbitrary: u)
  case (Cons c cs)
  let ?M = "(dict_get m c {c} \<union> {c}) \<inter> u"
  show ?case
  proof (cases "c \<in> u")
    case True
    let ?R = "group_loop m cs (u - ?M) []"
    have "distinct (concat ?R) \<and> set (concat ?R) = u - ?M \<and> (\<forall>g \<in> set ?R. g \<noteq> [] \<and> sorted g)"
      using Cons.prems True by (intro Cons.IH) auto
    moreover have "group_loop m (c # cs) u [] = py_sorted ?M # ?R"
      unfolding group_loop_take [OF True]
      using group_loop_acc [of m cs "u - ?M" "[] @ [py_sorted ?M]"] by (simp only: append_Nil append_Cons)
    moreover obtain M where M: "M = ?M" by simp
    moreover have "c \<in> M" "finite M" "M \<subseteq> u" using True Cons.prems(1) M by auto
    moreover from this have "set (py_sorted M) = M" "py_sorted M \<noteq> []" by auto
    ultimately show ?thesis
      unfolding M [symmetric] by auto
  next
    case False
    then have "u \<subseteq> set cs" using Cons.prems(2) by auto
    then show ?thesis using False Cons.IH Cons.prems(1) by simp
  qed
qed simp

lemma group_candidates_partition:
  "group_candidates_by_siblings h C = Inr gs \<Longrightarrow> finite C \<Longrightarrow>
   distinct (concat gs) \<and> set (concat gs) = C \<and> (\<forall>g \<in> set gs. g \<noteq> [] \<and> sorted g)"
  using group_loop_partition [of C "py_sorted C"]
  by (auto simp: group_candidates_by_siblings_def split: if_splits)

section \<open>Nothing is lost or taken twice\<close>

lemma take_pairs_loop_mset:
  "take_pairs_loop gs n acc = (t, gs') \<Longrightarrow> mset t + mset (concat gs') = mset acc + mset (concat gs)"
proof (induction gs arbitrary: n acc t gs')
  case (Cons m gs)
  have two: "mset m = mset (take 2 m) + mset (drop 2 m)" by (metis append_take_drop_id mset_append)
  consider "n < 2" | "2 \<le> n" "length m < 2" | "2 \<le> n" "2 \<le> length m" by linarith
  then show ?case
  proof cases
    case 1
    then show ?thesis using Cons.prems by auto
  next
    case 2
    obtain t' g' where r: "take_pairs_loop gs n acc = (t', g')" by fastforce
    then show ?thesis using 2 Cons.prems Cons.IH [OF r] by auto
  next
    case 3
    obtain t' g' where r: "take_pairs_loop gs (n - 2) (acc @ take 2 m) = (t', g')" by fastforce
    then show ?thesis using 3 Cons.prems Cons.IH [OF r] two by auto
  qed
qed simp

lemma take_singles_loop_mset:
  "take_singles_loop gs n acc = (t, gs') \<Longrightarrow> mset t + mset (concat gs') = mset acc + mset (concat gs)"
proof (induction gs arbitrary: n acc t gs')
  case (Cons m gs)
  consider "n = 0" | "n \<noteq> 0" "m = []" | x xs where "n \<noteq> 0" "m = x # xs" by (cases m) auto
  then show ?case
  proof cases
    case 1
    then show ?thesis using Cons.prems by auto
  next
    case 2
    obtain t' g' where r: "take_singles_loop gs n acc = (t', g')" by fastforce
    then show ?thesis using 2 Cons.prems Cons.IH [OF r] by auto
  next
    case 3
    obtain t' g' where r: "take_singles_loop gs (n - 1) (acc @ [x]) = (t', g')" by fastforce
    then show ?thesis using 3 Cons.prems Cons.IH [OF r] by auto
  qed
qed simp

lemma take_pairs_loop_acc:
  "take_pairs_loop gs n acc = (acc @ fst (take_pairs_loop gs n []), snd (take_pairs_loop gs n []))"
proof (induction gs arbitrary: n acc)
  case (Cons m gs)
  show ?case
    using Cons [of "n - 2" "acc @ take 2 m"] Cons [of "n - 2" "take 2 m"] Cons [of n acc]
    by (auto split: prod.splits)
qed simp

text \<open>How many pairs are taken: one per group that has two members, within the budget.\<close>

definition full_groups :: "int list list \<Rightarrow> nat" where
  "full_groups gs = length (List.filter (\<lambda>g. 2 \<le> length g) gs)"

lemma take_pairs_loop_length:
  "0 \<le> n \<Longrightarrow> length (fst (take_pairs_loop gs n [])) = 2 * min (nat n div 2) (full_groups gs)"
proof (induction gs arbitrary: n)
  case (Cons m gs)
  consider "n < 2" | "2 \<le> n" "length m < 2" | "2 \<le> n" "2 \<le> length m" by linarith
  then show ?case
  proof cases
    case 1
    then have "nat n div 2 = 0" by simp
    with 1 show ?thesis by simp
  next
    case 2
    then show ?thesis using Cons.IH [of n] Cons.prems by (simp add: full_groups_def split_beta)
  next
    case 3
    have "nat n div 2 = Suc (nat (n - 2) div 2)" using 3(1) by (simp add: nat_diff_distrib)
    then show ?thesis
      using 3 Cons.IH [of "n - 2"] take_pairs_loop_acc [of gs "n - 2" "take 2 m"]
      by (simp add: full_groups_def split_beta)
  qed
qed (simp add: full_groups_def)

lemma take_singles_loop_length:
  "0 \<le> n \<Longrightarrow> int (length (fst (take_singles_loop gs n acc))) \<le> int (length acc) + n"
proof (induction gs arbitrary: n acc)
  case (Cons m gs)
  consider "n = 0" | "n \<noteq> 0" "m = []" | x xs where "n \<noteq> 0" "m = x # xs" by (cases m) auto
  then show ?case
  proof cases
    case 3
    then show ?thesis using Cons.IH [of "n - 1" "acc @ [x]"] Cons.prems by (simp add: split_beta)
  qed (use Cons in \<open>auto simp: split_beta\<close>)
qed simp

lemma take_pairs_mset:
  "take_pairs_from_groups gs n = (t, gs') \<Longrightarrow> mset t + mset (concat gs') = mset (concat gs)"
  using take_pairs_loop_mset [of gs n "[]" t gs'] by (auto simp: take_pairs_from_groups_def split: if_splits)

lemma take_singles_mset:
  "take_singles_from_groups gs n = (t, gs') \<Longrightarrow> mset t + mset (concat gs') = mset (concat gs)"
  using take_singles_loop_mset [of gs n "[]" t gs'] by (auto simp: take_singles_from_groups_def split: if_splits)

lemma take_pairs_length:
  "0 \<le> n \<Longrightarrow> length (fst (take_pairs_from_groups gs n)) = 2 * min (nat n div 2) (full_groups gs)"
  by (cases "n < 2") (simp_all add: take_pairs_from_groups_def take_pairs_loop_length)

lemma take_singles_length:
  "0 \<le> n \<Longrightarrow> take_singles_from_groups gs n = (t, gs') \<Longrightarrow> int (length t) \<le> n"
  using take_singles_loop_length [of n gs "[]"]
  by (auto simp: take_singles_from_groups_def split: if_splits)

text \<open>
  The selected list: a sub-multiset of the groups' members, of the requested length when there
  are enough of them.
\<close>

lemma select_mset_length:
  assumes "0 \<le> n" "n \<le> int (length (concat gs))"
  shows "mset (select_from_groups_pairs_then_singles gs n) \<subseteq># mset (concat gs)"
    and "int (length (select_from_groups_pairs_then_singles gs n)) = n"
proof -
  obtain p g1 where p: "take_pairs_from_groups gs n = (p, g1)" by fastforce
  let ?r1 = "n - int (length p)"
  have lp: "int (length p) \<le> n"
    using take_pairs_length [OF assms(1), of gs] p assms(1) by (simp add: min_def) linarith
  obtain s g2 where s: "(if 0 < ?r1 then take_singles_from_groups g1 ?r1 else ([], g1)) = (s, g2)"
    by fastforce
  let ?r2 = "?r1 - int (length s)"
  have ls: "int (length s) \<le> ?r1" using s lp take_singles_length [of ?r1 g1 s g2] by (auto split: if_splits)
  let ?l = "if 0 < ?r2 then py_prefix ?r2 (collect_leftovers g2) else []"
  have sel: "select_from_groups_pairs_then_singles gs n = py_prefix n (p @ s @ ?l)"
    using p s by (simp add: select_from_groups_pairs_then_singles_def Let_def)
  have m1: "mset p + mset (concat g1) = mset (concat gs)" using take_pairs_mset [OF p] .
  have m2: "mset s + mset (concat g2) = mset (concat g1)"
    using s take_singles_mset [of g1 ?r1 s g2] by (auto split: if_splits)
  have ml: "mset ?l \<subseteq># mset (concat g2)"
    by (auto simp: py_prefix_def collect_leftovers_def) (metis append_take_drop_id mset_append mset_subset_eq_add_left)+
  have tot: "length (concat gs) = length p + length s + length (concat g2)"
    by (metis add.assoc m1 m2 size_mset size_union)
  have ll: "int (length ?l) = ?r2" using tot assms(2) ls
    by (auto simp: py_prefix_def collect_leftovers_def min_def)
  have len: "int (length (p @ s @ ?l)) = n" using ll by simp
  then have whole: "py_prefix n (p @ s @ ?l) = p @ s @ ?l" using assms(1) by (simp add: py_prefix_def)
  show "int (length (select_from_groups_pairs_then_singles gs n)) = n" using sel whole len by simp
  have "mset (p @ s @ ?l) \<subseteq># mset p + (mset s + mset (concat g2))"
    using ml by (simp add: add.assoc)
  then show "mset (select_from_groups_pairs_then_singles gs n) \<subseteq># mset (concat gs)"
    using sel whole m1 m2 by simp
qed

lemma distinct_submset: "mset xs \<subseteq># mset ys \<Longrightarrow> distinct ys \<Longrightarrow> distinct xs"
  unfolding distinct_count_atmost_1 subseteq_mset_def
  by (metis count_mset_0_iff le_antisym less_one linorder_not_le neq0_conv)

lemma smt_exact:
  assumes "finite C" "0 \<le> n" "n \<le> py_len C" "select_numa_cpus_smt_aware h C n = Inr S"
  shows "S \<subseteq> C \<and> py_len S = n"
proof -
  obtain gs where gs: "group_candidates_by_siblings h C = Inr gs"
    "S = set (select_from_groups_pairs_then_singles gs n)"
    using assms(4) by (auto simp: select_numa_cpus_smt_aware_def)
  let ?sel = "select_from_groups_pairs_then_singles gs n"
  have part: "distinct (concat gs)" "set (concat gs) = C"
    using group_candidates_partition [OF gs(1) assms(1)] by auto
  then have "n \<le> int (length (concat gs))" using assms(3) by (metis distinct_card py_len_def)
  then have sel: "mset ?sel \<subseteq># mset (concat gs)" "int (length ?sel) = n"
    using select_mset_length assms(2) by auto
  have "distinct ?sel" using distinct_submset sel(1) part(1) by blast
  then show ?thesis using sel part(2) gs(2)
    by (metis distinct_card mset_subset_eqD py_len_def set_mset_mset subsetI)
qed

text \<open>The groups whose first two members are both selected.\<close>

definition paired_groups :: "int set \<Rightarrow> int list list \<Rightarrow> nat" where
  "paired_groups S gs = length (List.filter (\<lambda>g. 2 \<le> length g \<and> set (take 2 g) \<subseteq> S) gs)"

lemma length_filter_mono:
  "(\<And>x. x \<in> set xs \<Longrightarrow> P x \<Longrightarrow> Q x) \<Longrightarrow> length (List.filter P xs) \<le> length (List.filter Q xs)"
  by (induction xs) (auto simp: le_SucI)

lemma paired_groups_mono: "S \<subseteq> T \<Longrightarrow> paired_groups S gs \<le> paired_groups T gs"
  unfolding paired_groups_def by (rule length_filter_mono) auto

lemma take_pairs_loop_paired:
  "0 \<le> n \<Longrightarrow> min (nat n div 2) (full_groups gs) \<le> paired_groups (set (fst (take_pairs_loop gs n []))) gs"
proof (induction gs arbitrary: n)
  case (Cons m gs)
  consider "n < 2" | "2 \<le> n" "length m < 2" | "2 \<le> n" "2 \<le> length m" by linarith
  then show ?case
  proof cases
    case 1
    then have "nat n div 2 = 0" by simp
    then show ?thesis by simp
  next
    case 2
    then show ?thesis using Cons.IH [of n] Cons.prems
      by (simp add: full_groups_def paired_groups_def split_beta)
  next
    case 3
    have k: "nat n div 2 = Suc (nat (n - 2) div 2)" using 3(1) by (simp add: nat_diff_distrib)
    let ?t = "fst (take_pairs_loop gs (n - 2) [])"
    have t: "fst (take_pairs_loop (m # gs) n []) = take 2 m @ ?t"
      using 3 take_pairs_loop_acc [of gs "n - 2" "take 2 m"] by (simp add: split_beta)
    have "paired_groups (set ?t) gs \<le> paired_groups (set (take 2 m @ ?t)) gs"
      by (rule paired_groups_mono) simp
    moreover have "paired_groups (set (take 2 m @ ?t)) (m # gs)
        = Suc (paired_groups (set (take 2 m @ ?t)) gs)"
      using 3(2) by (simp add: paired_groups_def)
    moreover have "full_groups (m # gs) = Suc (full_groups gs)"
      using 3(2) by (simp add: full_groups_def)
    moreover have "min (nat (n - 2) div 2) (full_groups gs) \<le> paired_groups (set ?t) gs"
      using Cons.IH [of "n - 2"] 3(1) by simp
    ultimately show ?thesis unfolding t k by linarith
  qed
qed (simp add: full_groups_def)

lemma smt_pairs:
  assumes "finite C" "0 \<le> n" "n \<le> py_len C" "select_numa_cpus_smt_aware h C n = Inr S"
  shows "\<exists>gs. group_candidates_by_siblings h C = Inr gs
    \<and> min (nat n div 2) (full_groups gs) \<le> paired_groups S gs"
proof -
  obtain gs where gs: "group_candidates_by_siblings h C = Inr gs"
    "S = set (select_from_groups_pairs_then_singles gs n)"
    using assms(4) by (auto simp: select_numa_cpus_smt_aware_def)
  obtain p g1 where p: "take_pairs_from_groups gs n = (p, g1)" by fastforce
  have len: "int (length p) \<le> n"
    using take_pairs_length [OF assms(2), of gs] p assms(2) by (simp add: min_def) linarith
  then have "p = take (nat n) p" by simp
  then have "set p \<subseteq> S"
    unfolding gs(2) select_from_groups_pairs_then_singles_def p
    using assms(2) len by (auto simp: Let_def py_prefix_def split_beta split: if_splits)
  moreover have "min (nat n div 2) (full_groups gs) \<le> paired_groups (set p) gs"
  proof (cases "n < 2")
    case True
    then have "nat n div 2 = 0" by simp
    then show ?thesis by simp
  next
    case False
    then show ?thesis
      using take_pairs_loop_paired [OF assms(2), of gs] p by (simp add: take_pairs_from_groups_def)
  qed
  ultimately show ?thesis using gs(1) paired_groups_mono order_trans by blast
qed

interpretation smt: cpu_selector "select_numa_cpus_smt_aware h" for h :: host
  by unfold_locales (use smt_exact in blast)

interpretation stable: cpu_selector "stable_with (select_numa_cpus_smt_aware h) own"
  for h :: host and own :: "int set"
  by (rule smt.stable_selector)

end
