(* ===== verification/Schemas.thy ===== *)
theory Schemas
  imports Prelude
begin

text \<open>
  \<open>epa_orchestrator/schemas.py\<close>: the enumerations and the request and response models of the
  socket protocol. A pydantic model is a record of its fields; the constraints its \<open>Field\<close>
  declarations and validators put on them are bool-valued functions. Turning JSON into a
  request is pydantic's work and a parameter of the daemon model.
\<close>

section \<open>Enumerations\<close>

definition api_version :: string where
  "api_version = ''1.0''"

datatype cpu_pool_name = ISOLATED | GENERAL

primrec pool_value :: "cpu_pool_name \<Rightarrow> string" where
  "pool_value ISOLATED = ''isolated''"
| "pool_value GENERAL = ''general''"

datatype preemption_policy = LEGACY | NON_PREEMPTIVE

primrec policy_value :: "preemption_policy \<Rightarrow> string" where
  "policy_value LEGACY = ''legacy''"
| "policy_value NON_PREEMPTIVE = ''non-preemptive''"

datatype action_type =
    ALLOCATE_CORES
  | ALLOCATE_CORES_PERCENT
  | LIST_ALLOCATIONS
  | ALLOCATE_NUMA_CORES
  | GET_MEMORY_INFO
  | ALLOCATE_HUGEPAGES

primrec action_value :: "action_type \<Rightarrow> string" where
  "action_value ALLOCATE_CORES = ''allocate_cores''"
| "action_value ALLOCATE_CORES_PERCENT = ''allocate_cores_percent''"
| "action_value LIST_ALLOCATIONS = ''list_allocations''"
| "action_value ALLOCATE_NUMA_CORES = ''allocate_numa_cores''"
| "action_value GET_MEMORY_INFO = ''get_memory_info''"
| "action_value ALLOCATE_HUGEPAGES = ''allocate_hugepages''"

text \<open>\<open>CpuPoolName(value)\<close> and \<open>PreemptionPolicy(value)\<close>; \<open>None\<close> is the enum's \<open>ValueError\<close>.\<close>

definition pool_of_value :: "string \<Rightarrow> cpu_pool_name option" where
  "pool_of_value s =
     (if s = pool_value ISOLATED then Some ISOLATED
      else if s = pool_value GENERAL then Some GENERAL else None)"

definition policy_of_value :: "string \<Rightarrow> preemption_policy option" where
  "policy_of_value s =
     (if s = policy_value LEGACY then Some LEGACY
      else if s = policy_value NON_PREEMPTIVE then Some NON_PREEMPTIVE else None)"

lemma pool_of_value_value [simp]: "pool_of_value (pool_value p) = Some p"
  by (cases p) (simp_all add: pool_of_value_def)

lemma policy_of_value_value [simp]: "policy_of_value (policy_value p) = Some p"
  by (cases p) (simp_all add: policy_of_value_def)

text \<open>Iterating over \<open>CpuPoolName\<close> follows the order of declaration.\<close>

instantiation cpu_pool_name :: enum
begin

definition enum_cpu_pool_name :: "cpu_pool_name list" where
  "enum_cpu_pool_name = [ISOLATED, GENERAL]"

definition enum_all_cpu_pool_name :: "(cpu_pool_name \<Rightarrow> bool) \<Rightarrow> bool" where
  "enum_all_cpu_pool_name P \<longleftrightarrow> P ISOLATED \<and> P GENERAL"

definition enum_ex_cpu_pool_name :: "(cpu_pool_name \<Rightarrow> bool) \<Rightarrow> bool" where
  "enum_ex_cpu_pool_name P \<longleftrightarrow> P ISOLATED \<or> P GENERAL"

instance
proof
  show "UNIV = set (enum_class.enum :: cpu_pool_name list)"
    by (auto simp: enum_cpu_pool_name_def intro: cpu_pool_name.exhaust)
  fix P :: "cpu_pool_name \<Rightarrow> bool"
  show "enum_class.enum_all P \<longleftrightarrow> Ball UNIV P" "enum_class.enum_ex P \<longleftrightarrow> Bex UNIV P"
    by (metis (full_types) UNIV_I cpu_pool_name.exhaust enum_all_cpu_pool_name_def)
      (metis (full_types) UNIV_I cpu_pool_name.exhaust enum_ex_cpu_pool_name_def)
qed (simp add: enum_cpu_pool_name_def)

end

text \<open>Policies are ordered by the protection they give.\<close>

instantiation preemption_policy :: linorder
begin

definition less_eq_preemption_policy :: "preemption_policy \<Rightarrow> preemption_policy \<Rightarrow> bool" where
  "p \<le> q \<longleftrightarrow> p = LEGACY \<or> q = NON_PREEMPTIVE"

definition less_preemption_policy :: "preemption_policy \<Rightarrow> preemption_policy \<Rightarrow> bool" where
  "p < q \<longleftrightarrow> p = LEGACY \<and> q = NON_PREEMPTIVE"

instance
  by standard (auto simp: less_eq_preemption_policy_def less_preemption_policy_def
      intro: preemption_policy.exhaust)

end

section \<open>Requests\<close>

record allocate_cores_request =
  acr_pool :: cpu_pool_name
  acr_preemption_policy :: "preemption_policy option"
  acr_service_name :: string
  acr_num_of_cores :: int

record allocate_cores_percent_request =
  apr_pool :: cpu_pool_name
  apr_preemption_policy :: "preemption_policy option"
  apr_service_name :: string
  apr_percent :: int

record list_allocations_request =
  lar_pool :: cpu_pool_name
  lar_service_name :: "string option"

record allocate_numa_cores_request =
  anr_pool :: cpu_pool_name
  anr_preemption_policy :: "preemption_policy option"
  anr_service_name :: string
  anr_numa_node :: int
  anr_num_of_cores :: int

record get_memory_info_request =
  gmr_service_name :: "string option"

record allocate_hugepages_request =
  ahr_service_name :: string
  ahr_hugepages_requested :: int
  ahr_node_id :: int
  ahr_size_kb :: int

definition valid_percent_request :: "allocate_cores_percent_request \<Rightarrow> bool" where
  "valid_percent_request r \<longleftrightarrow> - 1 \<le> apr_percent r \<and> apr_percent r \<le> 100"

definition valid_numa_request :: "allocate_numa_cores_request \<Rightarrow> bool" where
  "valid_numa_request r \<longleftrightarrow> 0 \<le> anr_numa_node r"

definition validate_hugepages_requested :: "int \<Rightarrow> int result" where
  "validate_hugepages_requested v =
     raise_if (v = 0) (ValueError ''hugepages_requested=0 is invalid for allocate_hugepages'') (Inr v)"

definition valid_hugepages_request :: "allocate_hugepages_request \<Rightarrow> bool" where
  "valid_hugepages_request r \<longleftrightarrow>
     0 \<le> ahr_node_id r \<and> 0 < ahr_size_kb r \<and>
     validate_hugepages_requested (ahr_hugepages_requested r) = Inr (ahr_hugepages_requested r)"

datatype epa_request =
    CoresRequest allocate_cores_request
  | PercentRequest allocate_cores_percent_request
  | NumaRequest allocate_numa_cores_request
  | ListRequest list_allocations_request
  | MemoryRequest get_memory_info_request
  | HugepagesRequest allocate_hugepages_request

primrec valid_request :: "epa_request \<Rightarrow> bool" where
  "valid_request (CoresRequest r) = True"
| "valid_request (PercentRequest r) = valid_percent_request r"
| "valid_request (NumaRequest r) = valid_numa_request r"
| "valid_request (ListRequest r) = True"
| "valid_request (MemoryRequest r) = True"
| "valid_request (HugepagesRequest r) = valid_hugepages_request r"

primrec request_action :: "epa_request \<Rightarrow> action_type" where
  "request_action (CoresRequest r) = ALLOCATE_CORES"
| "request_action (PercentRequest r) = ALLOCATE_CORES_PERCENT"
| "request_action (NumaRequest r) = ALLOCATE_NUMA_CORES"
| "request_action (ListRequest r) = LIST_ALLOCATIONS"
| "request_action (MemoryRequest r) = GET_MEMORY_INFO"
| "request_action (HugepagesRequest r) = ALLOCATE_HUGEPAGES"

section \<open>Responses\<close>

record allocate_cores_response =
  cores_pool :: cpu_pool_name
  cores_preemption_policy :: "preemption_policy option"
  cores_service_name :: string
  cores_num_of_cores :: int
  cores_cores_allocated :: int
  cores_allocated_cores :: string
  cores_shared_cpus :: string
  cores_total_available_cpus :: int
  cores_remaining_available_cpus :: int

record allocate_cores_percent_response =
  percent_pool :: cpu_pool_name
  percent_preemption_policy :: "preemption_policy option"
  percent_service_name :: string
  percent_cores_allocated_count :: int
  percent_allocated_cores :: string
  percent_total_available_cpus :: int
  percent_remaining_available_cpus :: int

record allocate_numa_cores_response =
  numa_pool :: cpu_pool_name
  numa_preemption_policy :: "preemption_policy option"
  numa_service_name :: string
  numa_numa_node :: int
  numa_num_of_cores :: int
  numa_cores_allocated :: string
  numa_total_available_cpus :: int
  numa_remaining_available_cpus :: int

record snap_allocation =
  sa_pool :: cpu_pool_name
  sa_preemption_policy :: preemption_policy
  sa_service_name :: string
  sa_allocated_cores :: string
  sa_cores_count :: int
  sa_is_explicit :: bool

datatype pool_source = SourceIsolated | SourceConfigured

record cpu_pool_info =
  cpi_source :: pool_source
  cpi_configured_cpus :: string
  cpi_eligible_cpus :: string
  cpi_unavailable_allocated_cpus :: string

definition supported_cpu_features :: "string list" where
  "supported_cpu_features = [''non-preemptive-allocations'', ''cpu-pools'']"

record list_allocations_response =
  list_supported_cpu_features :: "string list"
  list_pool :: cpu_pool_name
  list_total_allocations :: int
  list_total_allocated_cpus :: int
  list_total_available_cpus :: int
  list_remaining_available_cpus :: int
  list_allocations_entries :: "snap_allocation list"
  list_cpu_pool :: cpu_pool_info

record hugepage_allocation_entry =
  hp_node_id :: int
  hp_size_kb :: int
  hp_count :: int

record node_hugepage_allocation =
  nha_service_name :: string
  nha_size_kb :: int
  nha_count :: int

record usage_entry =
  ue_total :: int
  ue_free :: int
  ue_size :: int

record node_hugepages_info =
  nhi_capacity :: "usage_entry list"
  nhi_allocations :: "(string, (string, int) dict) dict"

record memory_info_response =
  mir_service_name :: string
  mir_numa_hugepages :: "(string, node_hugepages_info) dict"

record allocate_hugepages_response =
  hpr_service_name :: string
  hpr_hugepages_requested :: int
  hpr_allocation_successful :: bool
  hpr_message :: string
  hpr_node_id :: int
  hpr_size_kb :: int

datatype epa_response =
    CoresResponse allocate_cores_response
  | PercentResponse allocate_cores_percent_response
  | NumaResponse allocate_numa_cores_response
  | ListResponse list_allocations_response
  | MemoryResponse memory_info_response
  | HugepagesResponse allocate_hugepages_response
  | ErrorResponse string

end
