(* ===== verification/Allocations_DB.thy ===== *)
theory Allocations_DB
  imports Claim_Table Smt_Selection Schemas
begin

text \<open>
  \<open>epa_orchestrator/allocations_db.py\<close>, class \<open>AllocationsDB\<close>: the ledger's state and its
  operations on the private candidate of a transaction. On a candidate \<open>_load_from_store\<close> does
  nothing and a nested \<open>_mutating\<close> call runs its method directly, so an operation is a function
  from the candidate to an exception or a result with the updated candidate. Loading, committing
  and publishing are in \<open>Ledger_Txn\<close>.
\<close>

section \<open>State\<close>

record adb =
  preemption_policies :: "(string, preemption_policy) dict"
  allocation_pools :: "(string, cpu_pool_name) dict"
  allocations :: "(string, string) dict"
  allocated_cpus :: "int set"
  explicit_allocations :: "(string, string) dict"
  explicitly_allocated_cpus :: "int set"

definition empty_adb :: adb where
  "empty_adb = \<lparr>preemption_policies = [], allocation_pools = [], allocations = [],
     allocated_cpus = {}, explicit_allocations = [], explicitly_allocated_cpus = {}\<rparr>"

type_synonym online_check = "int set \<Rightarrow> unit result"

section \<open>Policies and pools\<close>

definition effective_policy ::
  "adb \<Rightarrow> string \<Rightarrow> preemption_policy option \<Rightarrow> preemption_policy result" where
  "effective_policy db service_name requested =
     (let stored = dict_get (preemption_policies db) service_name LEGACY;
          policy = (case requested of None \<Rightarrow> stored | Some p \<Rightarrow> p)
      in raise_if (stored = NON_PREEMPTIVE \<and> policy \<noteq> stored)
           (ValueError ''Fully release protected claims before selecting legacy policy'')
           (Inr policy))"

definition get_preemption_policy :: "adb \<Rightarrow> string \<Rightarrow> preemption_policy option" where
  "get_preemption_policy db service_name =
     (if \<not> dict_has (allocations db) service_name then None
      else Some (dict_get (preemption_policies db) service_name LEGACY))"

definition service_pool :: "adb \<Rightarrow> string \<Rightarrow> cpu_pool_name" where
  "service_pool db service_name = dict_get (allocation_pools db) service_name ISOLATED"

definition ensure_service_pool :: "adb \<Rightarrow> string \<Rightarrow> cpu_pool_name \<Rightarrow> unit result" where
  "ensure_service_pool db service_name pool =
     raise_if (dict_has (allocations db) service_name \<and> service_pool db service_name \<noteq> pool)
       (ValueError (''Service '' @ service_name @ '' owns CPUs in pool ''
          @ pool_value (service_pool db service_name)
          @ ''; release that allocation in its pool before switching pools''))
       (Inr ())"

section \<open>Reading claims\<close>

definition get_service_allocation_set :: "adb \<Rightarrow> string \<Rightarrow> int set result" where
  "get_service_allocation_set db service_name =
     parse_cpu_ranges (dict_get (allocations db) service_name [])"

definition get_service_explicit_set :: "adb \<Rightarrow> string \<Rightarrow> int set result" where
  "get_service_explicit_set db service_name =
     parse_cpu_ranges (dict_get (explicit_allocations db) service_name [])"

definition get_available_cpus :: "adb \<Rightarrow> string \<Rightarrow> int list result" where
  "get_available_cpus db total_cpus =
     bindE (parse_cpu_ranges total_cpus) (\<lambda>all_cpus. Inr (py_sorted (all_cpus - allocated_cpus db)))"

definition get_available_cpus_for_service :: "adb \<Rightarrow> string \<Rightarrow> string \<Rightarrow> int list result" where
  "get_available_cpus_for_service db service_name total_cpus =
     bindE (parse_cpu_ranges total_cpus) (\<lambda>all_cpus.
     bindE (get_service_allocation_set db service_name) (\<lambda>own.
     bindE (get_service_explicit_set db service_name) (\<lambda>own_explicit.
       let this_service_cpus = own \<union> own_explicit;
           other_allocated = allocated_cpus db - this_service_cpus
       in Inr (py_sorted (all_cpus - other_allocated)))))"

definition can_allocate_cpus :: "adb \<Rightarrow> int \<Rightarrow> string \<Rightarrow> bool result" where
  "can_allocate_cpus db requested_count total_cpus =
     bindE (get_available_cpus db total_cpus) (\<lambda>available_cpus.
       Inr (requested_count \<le> int (length available_cpus)))"

definition get_allocation :: "adb \<Rightarrow> string \<Rightarrow> string option" where
  "get_allocation db service_name = map_of (allocations db) service_name"

definition snap_allocation_of :: "adb \<Rightarrow> string \<times> string \<Rightarrow> snap_allocation result" where
  "snap_allocation_of db entry =
     (case entry of (service_name, cores) \<Rightarrow>
        bindE (parse_cpu_ranges cores) (\<lambda>S.
        bindE (effective_policy db service_name None) (\<lambda>policy.
          Inr \<lparr>sa_pool = service_pool db service_name, sa_preemption_policy = policy,
            sa_service_name = service_name, sa_allocated_cores = cores, sa_cores_count = py_len S,
            sa_is_explicit = dict_has (explicit_allocations db) service_name\<rparr>)))"

definition get_all_allocations :: "adb \<Rightarrow> cpu_pool_name option \<Rightarrow> snap_allocation list result" where
  "get_all_allocations db pool =
     mapE (snap_allocation_of db)
       (List.filter (\<lambda>(service_name, cores). pool = None \<or> Some (service_pool db service_name) = pool)
          (allocations db))"

definition get_claimed_cpus :: "adb \<Rightarrow> cpu_pool_name option \<Rightarrow> int set result" where
  "get_claimed_cpus db pool =
     bindE (mapE (\<lambda>(name, cores). parse_cpu_ranges cores)
              (List.filter (\<lambda>(name, cores). pool = None \<or> Some (service_pool db name) = pool)
                 (allocations db)))
       (\<lambda>sets. Inr (\<Union> (set sets)))"

definition get_snap_allocation_count :: "adb \<Rightarrow> string \<Rightarrow> int result" where
  "get_snap_allocation_count db service_name =
     (case map_of (allocations db) service_name of
        None \<Rightarrow> Inr 0
      | Some allocation \<Rightarrow>
          if allocation = [] then Inr 0
          else bindE (parse_cpu_ranges allocation) (\<lambda>S. Inr (py_len S)))"

record system_stats =
  stat_total_available_cpus :: int
  stat_total_allocated_cpus :: int
  stat_remaining_available_cpus :: int
  stat_total_allocations :: int

definition get_system_stats :: "adb \<Rightarrow> string \<Rightarrow> system_stats result" where
  "get_system_stats db total_cpus =
     bindE (parse_cpu_ranges total_cpus) (\<lambda>S.
       Inr \<lparr>stat_total_available_cpus = py_len S,
         stat_total_allocated_cpus = py_len (allocated_cpus db),
         stat_remaining_available_cpus = py_len (S - allocated_cpus db),
         stat_total_allocations = int (length (allocations db))\<rparr>)"

section \<open>Removing and recording claims\<close>

definition remove_service_allocation :: "string \<Rightarrow> adb \<Rightarrow> (int set \<times> adb) result" where
  "remove_service_allocation service_name db =
     bindE (case map_of (allocations db) service_name of
              None \<Rightarrow> Inr ({}, db)
            | Some old_cores \<Rightarrow>
                bindE (parse_cpu_ranges old_cores) (\<lambda>removed.
                  Inr (removed, db\<lparr>allocations := dict_pop service_name (allocations db),
                                   allocated_cpus := allocated_cpus db - removed\<rparr>)))
       (\<lambda>(removed, db1).
     bindE (case map_of (explicit_allocations db1) service_name of
              None \<Rightarrow> Inr db1
            | Some old_cores \<Rightarrow>
                bindE (parse_cpu_ranges old_cores) (\<lambda>old_explicit.
                  Inr (db1\<lparr>explicit_allocations := dict_pop service_name (explicit_allocations db1),
                           explicitly_allocated_cpus := explicitly_allocated_cpus db1 - old_explicit\<rparr>)))
       (\<lambda>db2.
     Inr (removed,
       db2\<lparr>preemption_policies := dict_pop service_name (preemption_policies db2),
           allocation_pools := dict_pop service_name (allocation_pools db2)\<rparr>)))"

definition apply_allocation :: "string \<Rightarrow> int set \<Rightarrow> bool \<Rightarrow> adb \<Rightarrow> adb" where
  "apply_allocation service_name cpu_set explicit db =
     (if cpu_set = {} then db
      else
        let cores_str = set_ranges cpu_set;
            db1 = db\<lparr>allocations := dict_set service_name cores_str (allocations db),
                     allocated_cpus := allocated_cpus db \<union> cpu_set\<rparr>
        in if explicit
           then db1\<lparr>explicit_allocations := dict_set service_name cores_str (explicit_allocations db1),
                    explicitly_allocated_cpus := explicitly_allocated_cpus db1 \<union> cpu_set\<rparr>
           else if dict_has (explicit_allocations db1) service_name
           then db1\<lparr>explicit_allocations := dict_pop service_name (explicit_allocations db1)\<rparr>
           else db1)"

definition validate_reclamation ::
  "adb \<Rightarrow> string \<Rightarrow> int set \<Rightarrow> preemption_policy \<Rightarrow> cpu_pool_name \<Rightarrow> unit result" where
  "validate_reclamation db owner cpus requester_policy requester_pool =
     (let refused = Inl (ValueError (''Cannot reclaim CPUs owned by '' @ owner)) in
      if service_pool db owner \<noteq> requester_pool then refused
      else if requester_policy = NON_PREEMPTIVE then refused
      else bindE (effective_policy db owner None) (\<lambda>owner_policy.
        if owner_policy = NON_PREEMPTIVE then refused
        else bindE (get_service_explicit_set db owner) (\<lambda>explicit.
          if cpus \<inter> explicit \<noteq> {} then refused else Inr ())))"

text \<open>The guard of \<open>_subtract_cpus_from_service\<close> for a foreign requester.\<close>

definition check_requester ::
  "adb \<Rightarrow> string \<Rightarrow> int set \<Rightarrow> string option \<Rightarrow> preemption_policy option \<Rightarrow> cpu_pool_name \<Rightarrow> unit result"
where
  "check_requester db service_name cpus_to_remove requester requester_policy requester_pool =
     (case requester of
        None \<Rightarrow> Inr ()
      | Some r \<Rightarrow>
          if r = service_name then Inr ()
          else bindE (ensure_service_pool db r requester_pool) (\<lambda>_.
               bindE (effective_policy db r requester_policy) (\<lambda>policy.
                 validate_reclamation db service_name cpus_to_remove policy requester_pool)))"

definition subtract_cpus_from_service ::
  "string \<Rightarrow> int set \<Rightarrow> string option \<Rightarrow> preemption_policy option \<Rightarrow> cpu_pool_name \<Rightarrow> adb \<Rightarrow> adb result"
where
  "subtract_cpus_from_service service_name cpus_to_remove requester requester_policy requester_pool db =
     (case map_of (allocations db) service_name of
        None \<Rightarrow> Inr db
      | Some cores \<Rightarrow>
     bindE (parse_cpu_ranges cores) (\<lambda>current_set.
       if current_set \<inter> cpus_to_remove = {} then Inr db
       else
     bindE (check_requester db service_name cpus_to_remove requester requester_policy requester_pool) (\<lambda>_.
       let remaining = current_set - cpus_to_remove;
           db1 = db\<lparr>allocated_cpus := allocated_cpus db - (current_set \<inter> cpus_to_remove)\<rparr>
       in
     bindE (case map_of (explicit_allocations db1) service_name of
              None \<Rightarrow> Inr db1
            | Some ex \<Rightarrow>
                bindE (parse_cpu_ranges ex) (\<lambda>explicit_set.
                  let explicit_remaining = explicit_set - cpus_to_remove
                  in Inr (db1\<lparr>explicitly_allocated_cpus :=
                                explicitly_allocated_cpus db1 - (explicit_set \<inter> cpus_to_remove),
                              explicit_allocations :=
                                (if explicit_remaining \<noteq> {}
                                 then dict_set service_name (set_ranges explicit_remaining)
                                        (explicit_allocations db1)
                                 else dict_pop service_name (explicit_allocations db1))\<rparr>)))
       (\<lambda>db2.
     Inr (if remaining \<noteq> {}
          then db2\<lparr>allocations := dict_set service_name (set_ranges remaining) (allocations db2)\<rparr>
          else db2\<lparr>allocations := dict_pop service_name (allocations db2),
                   preemption_policies := dict_pop service_name (preemption_policies db2),
                   allocation_pools := dict_pop service_name (allocation_pools db2)\<rparr>)))))"

section \<open>Ordinary allocations\<close>

definition allocate_cores ::
  "string \<Rightarrow> string \<Rightarrow> preemption_policy option \<Rightarrow> cpu_pool_name \<Rightarrow> adb \<Rightarrow> adb result" where
  "allocate_cores service_name cores preemption_policy pool db =
     bindE (ensure_service_pool db service_name pool) (\<lambda>_.
       if cores = [] then Inr db
       else
     bindE (effective_policy db service_name preemption_policy) (\<lambda>policy.
     bindE (parse_cpu_ranges cores) (\<lambda>new_cpu_set.
       if new_cpu_set = {} then Inr db
       else
     bindE (get_service_allocation_set db service_name) (\<lambda>own.
       let others = allocated_cpus db - own
       in raise_if (new_cpu_set \<inter> others \<noteq> {})
            (ValueError ''Requested CPUs are already allocated to other services'')
     (bindE (remove_service_allocation service_name db) (\<lambda>(removed, db1).
       let db2 = apply_allocation service_name new_cpu_set False db1
       in Inr (db2\<lparr>preemption_policies := dict_set service_name policy (preemption_policies db2),
                   allocation_pools := dict_set service_name pool (allocation_pools db2)\<rparr>)))))))"

definition check_offline_claims :: "adb \<Rightarrow> string \<Rightarrow> int set \<Rightarrow> unit result" where
  "check_offline_claims db service_name eligible =
     bindE (get_service_allocation_set db service_name) (\<lambda>own.
       raise_if (own - eligible \<noteq> {})
         (ValueError ''Existing claims are outside the eligible CPU pool; explicitly release before replacing'')
         (Inr ()))"

definition select_stable :: "host \<Rightarrow> adb \<Rightarrow> string \<Rightarrow> int set \<Rightarrow> int \<Rightarrow> int set result" where
  "select_stable h db service_name candidates cnt =
     bindE (get_service_allocation_set db service_name) (\<lambda>own.
       stable_with (select_numa_cpus_smt_aware h) own candidates cnt)"

definition insufficient_cpus :: "int \<Rightarrow> int \<Rightarrow> string" where
  "insufficient_cpus requested available =
     ''Insufficient CPUs available. Requested: '' @ str_int requested
       @ '', Available: '' @ str_int available"

definition allocate_count ::
  "host \<Rightarrow> online_check \<Rightarrow> string \<Rightarrow> int \<Rightarrow> string \<Rightarrow> preemption_policy option \<Rightarrow> cpu_pool_name \<Rightarrow>
   adb \<Rightarrow> ((string \<times> string) \<times> adb) result" where
  "allocate_count h check_online service_name cnt eligible_cpus preemption_policy pool db =
     bindE (ensure_service_pool db service_name pool) (\<lambda>_.
     bindE (effective_policy db service_name preemption_policy) (\<lambda>policy.
     bindE (get_available_cpus_for_service db service_name eligible_cpus) (\<lambda>available.
       let candidates = set available in
     bindE (parse_cpu_ranges eligible_cpus) (\<lambda>eligible.
     bindE (check_offline_claims db service_name eligible) (\<lambda>_.
       raise_if (py_len candidates < cnt)
         (ValueError (insufficient_cpus cnt (py_len candidates)))
     (bindE (calculate_cpu_pinning (set_ranges candidates) cnt) (\<lambda>(shared, dedicated).
       raise_if (dedicated = [])
         (ValueError (''Failed to allocate '' @ str_int cnt @ '' cores''))
     (bindE (parse_cpu_ranges dedicated) (\<lambda>selected.
       let target_count = (if 0 < cnt then cnt else py_len selected) in
     bindE (if policy = NON_PREEMPTIVE
            then bindE (select_stable h db service_name candidates target_count) (\<lambda>stable.
                   Inr (stable, set_ranges stable, set_ranges (candidates - stable)))
            else Inr (selected, dedicated, shared))
       (\<lambda>(selected, dedicated, shared).
     bindE (validate_selection selected candidates target_count) (\<lambda>_.
     bindE (check_online selected) (\<lambda>_.
     bindE (allocate_cores service_name dedicated (Some policy) pool db) (\<lambda>db'.
       Inr ((shared, dedicated), db'))))))))))))))"

section \<open>NUMA allocations\<close>

definition owner_unavailable ::
  "adb \<Rightarrow> string \<Rightarrow> preemption_policy \<Rightarrow> cpu_pool_name \<Rightarrow> string \<times> string \<Rightarrow> int set \<Rightarrow> int set result" where
  "owner_unavailable db service_name policy pool entry unavailable =
     (let owner = fst entry in
      if owner = service_name then Inr unavailable
      else bindE (effective_policy db owner None) (\<lambda>owner_policy.
        if service_pool db owner \<noteq> pool \<or> policy = NON_PREEMPTIVE \<or> owner_policy = NON_PREEMPTIVE
        then bindE (get_service_allocation_set db owner) (\<lambda>S. Inr (unavailable \<union> S))
        else bindE (get_service_explicit_set db owner) (\<lambda>S. Inr (unavailable \<union> S))))"

definition get_allocatable_numa_cpus ::
  "host \<Rightarrow> adb \<Rightarrow> string \<Rightarrow> int \<Rightarrow> int set \<Rightarrow> preemption_policy option \<Rightarrow> cpu_pool_name \<Rightarrow>
   (int set \<times> int set) result" where
  "get_allocatable_numa_cpus h db service_name numa_node eligible_cpus preemption_policy pool =
     bindE (effective_policy db service_name preemption_policy) (\<lambda>policy.
     bindE (get_cpus_in_numa_node h numa_node (set_ranges eligible_cpus)) (\<lambda>numa_cpus.
     bindE (foldE (owner_unavailable db service_name policy pool) (allocations db) {}) (\<lambda>unavailable.
       Inr (numa_cpus - unavailable, numa_cpus \<inter> unavailable))))"

text \<open>The overlap of each foreign owner's claim with the selected CPUs, in the owners' order.\<close>

definition foreign_overlaps :: "adb \<Rightarrow> string \<Rightarrow> int set \<Rightarrow> (string \<times> int set) list result" where
  "foreign_overlaps db service_name new_cores =
     mapE (\<lambda>owner. bindE (get_service_allocation_set db owner) (\<lambda>S. Inr (owner, S \<inter> new_cores)))
       (List.filter (\<lambda>owner. owner \<noteq> service_name) (dict_keys (allocations db)))"

definition apply_numa_explicit_allocation ::
  "host \<Rightarrow> online_check \<Rightarrow> string \<Rightarrow> int \<Rightarrow> int set \<Rightarrow> preemption_policy option \<Rightarrow> cpu_pool_name \<Rightarrow>
   int set \<Rightarrow> adb \<Rightarrow> adb result" where
  "apply_numa_explicit_allocation h check_online service_name numa_node new_cores_in_node
     preemption_policy pool eligible_cpus db =
     bindE (ensure_service_pool db service_name pool) (\<lambda>_.
     bindE (effective_policy db service_name preemption_policy) (\<lambda>policy.
     bindE (get_cpus_in_numa_node h numa_node (set_ranges eligible_cpus)) (\<lambda>eligible.
       raise_if (\<not> new_cores_in_node \<subseteq> eligible)
         (ValueError ''Selected CPUs are outside the eligible NUMA node'')
     (bindE (check_offline_claims db service_name eligible_cpus) (\<lambda>_.
     bindE (foreign_overlaps db service_name new_cores_in_node) (\<lambda>overlaps.
     bindE (foldE (\<lambda>(owner, overlap) _.
              if overlap \<noteq> {} then validate_reclamation db owner overlap policy pool else Inr ())
              overlaps ()) (\<lambda>_.
     bindE (get_service_allocation_set db service_name) (\<lambda>current.
     bindE (get_cpus_in_numa_node h numa_node (set_ranges current)) (\<lambda>in_node.
     bindE (get_service_explicit_set db service_name) (\<lambda>own_explicit.
       let remaining_explicit = own_explicit - in_node in
     bindE (check_online new_cores_in_node) (\<lambda>_.
     bindE (subtract_cpus_from_service service_name in_node None None ISOLATED db) (\<lambda>db1.
     bindE (foldE (\<lambda>(owner, overlap).
              subtract_cpus_from_service owner overlap (Some service_name) (Some policy) pool)
              overlaps db1) (\<lambda>db2.
       let updated = (current - in_node) \<union> new_cores_in_node;
           explicit = remaining_explicit \<union> new_cores_in_node
       in Inr (if updated = {} then db2
          else
            let db3 = db2\<lparr>allocations := dict_set service_name (set_ranges updated) (allocations db2),
                          allocated_cpus := allocated_cpus db2 \<union> updated\<rparr>;
                db4 = (if explicit \<noteq> {}
                       then db3\<lparr>explicit_allocations :=
                                  dict_set service_name (set_ranges explicit) (explicit_allocations db3),
                                explicitly_allocated_cpus := explicitly_allocated_cpus db3 \<union> explicit\<rparr>
                       else db3)
            in db4\<lparr>preemption_policies := dict_set service_name policy (preemption_policies db4),
                   allocation_pools := dict_set service_name pool (allocation_pools db4)\<rparr>))))))))))))))"

definition allocate_numa_cores ::
  "host \<Rightarrow> online_check \<Rightarrow> string \<Rightarrow> int \<Rightarrow> int \<Rightarrow> preemption_policy option \<Rightarrow> cpu_pool_name \<Rightarrow>
   int set \<Rightarrow> adb \<Rightarrow> ((string \<times> string) \<times> adb) result" where
  "allocate_numa_cores h check_online service_name numa_node num_of_cores preemption_policy pool
     eligible_cpus db =
     bindE (ensure_service_pool db service_name pool) (\<lambda>_.
       if num_of_cores = 0 then Inr (([], []), db)
       else if num_of_cores = - 1 then
         bindE (get_cpus_in_numa_node h numa_node (dict_get (allocations db) service_name [])) (\<lambda>in_node.
         bindE (subtract_cpus_from_service service_name in_node None None ISOLATED db) (\<lambda>db'.
           Inr (([], []), db')))
       else if num_of_cores < - 1 then Inl (ValueError ''Invalid NUMA core count'')
       else
     bindE (effective_policy db service_name preemption_policy) (\<lambda>policy.
     bindE (check_offline_claims db service_name eligible_cpus) (\<lambda>_.
     bindE (get_allocatable_numa_cpus h db service_name numa_node eligible_cpus (Some policy) pool)
       (\<lambda>(candidates, rejected).
       if py_len candidates < num_of_cores then Inr (([], set_ranges rejected), db)
       else
     bindE (if policy = NON_PREEMPTIVE
            then select_stable h db service_name candidates num_of_cores
            else select_numa_cpus_smt_aware h candidates num_of_cores) (\<lambda>selected.
     bindE (validate_selection selected candidates num_of_cores) (\<lambda>_.
     bindE (apply_numa_explicit_allocation h check_online service_name numa_node selected
              (Some policy) pool eligible_cpus db) (\<lambda>db'.
       Inr ((set_ranges selected, []), db'))))))))"

section \<open>Releasing\<close>

definition remove_allocation :: "string \<Rightarrow> cpu_pool_name \<Rightarrow> adb \<Rightarrow> (bool \<times> adb) result" where
  "remove_allocation service_name pool db =
     bindE (ensure_service_pool db service_name pool) (\<lambda>_.
       if dict_has (allocations db) service_name \<or> dict_has (explicit_allocations db) service_name
       then bindE (remove_service_allocation service_name db) (\<lambda>(removed, db'). Inr (True, db'))
       else Inr (False, db))"

definition clear_all_allocations :: "adb \<Rightarrow> adb" where
  "clear_all_allocations db =
     db\<lparr>allocations := [], allocated_cpus := {}, explicit_allocations := [],
        explicitly_allocated_cpus := {}, preemption_policies := [], allocation_pools := []\<rparr>"

end
