(* ===== verification/Ledger_Spec.thy ===== *)
theory Ledger_Spec
  imports Allocations_DB
begin

text \<open>
  What the ledger promises: an abstract ledger maps a service to its claim (the CPUs it owns,
  those it holds through an explicit NUMA request, its policy and its pool). The operations on
  it are plain set updates; \<open>Ledger_Refine\<close> shows that \<open>AllocationsDB\<close> implements them on
  its dictionaries of range strings.
\<close>

section \<open>Claims and ledgers\<close>

record claim =
  cl_owned :: "int set"
  cl_explicit :: "int set"
  cl_policy :: preemption_policy
  cl_pool :: cpu_pool_name

type_synonym ledger = "string \<rightharpoonup> claim"

definition owned_in :: "ledger \<Rightarrow> string \<Rightarrow> int set" where
  "owned_in L s = (case L s of None \<Rightarrow> {} | Some c \<Rightarrow> cl_owned c)"

definition explicit_in :: "ledger \<Rightarrow> string \<Rightarrow> int set" where
  "explicit_in L s = (case L s of None \<Rightarrow> {} | Some c \<Rightarrow> cl_explicit c)"

definition policy_in :: "ledger \<Rightarrow> string \<Rightarrow> preemption_policy" where
  "policy_in L s = (case L s of None \<Rightarrow> LEGACY | Some c \<Rightarrow> cl_policy c)"

definition pool_in :: "ledger \<Rightarrow> string \<Rightarrow> cpu_pool_name" where
  "pool_in L s = (case L s of None \<Rightarrow> ISOLATED | Some c \<Rightarrow> cl_pool c)"

text \<open>
  A sound ledger: an owner has CPUs, explicit CPUs are owned, and no CPU has two owners.
\<close>

definition claim_ok :: "claim \<Rightarrow> bool" where
  "claim_ok c \<longleftrightarrow> cpu_ids (cl_owned c) \<and> cl_owned c \<noteq> {} \<and> cl_explicit c \<subseteq> cl_owned c"

definition ledger_ok :: "ledger \<Rightarrow> bool" where
  "ledger_ok L \<longleftrightarrow>
     (\<forall>s c. L s = Some c \<longrightarrow> claim_ok c) \<and>
     (\<forall>s t. s \<noteq> t \<longrightarrow> owned_in L s \<inter> owned_in L t = {})"

section \<open>Operations\<close>

definition release_claim :: "string \<Rightarrow> ledger \<Rightarrow> ledger" where
  "release_claim s L = L(s := None)"

text \<open>Give up the CPUs of \<open>R\<close>; an owner left with none disappears with its policy and pool.\<close>

definition shrink_claim :: "int set \<Rightarrow> claim \<Rightarrow> claim option" where
  "shrink_claim R c =
     (if cl_owned c - R = {} then None
      else Some (c\<lparr>cl_owned := cl_owned c - R, cl_explicit := cl_explicit c - R\<rparr>))"

definition subtract_claim :: "string \<Rightarrow> int set \<Rightarrow> ledger \<Rightarrow> ledger" where
  "subtract_claim s R L = L(s := Option.bind (L s) (shrink_claim R))"

definition record_claim ::
  "string \<Rightarrow> int set \<Rightarrow> int set \<Rightarrow> preemption_policy \<Rightarrow> cpu_pool_name \<Rightarrow> ledger \<Rightarrow> ledger" where
  "record_claim s S E policy pool L =
     L(s \<mapsto> \<lparr>cl_owned = S, cl_explicit = E, cl_policy = policy, cl_pool = pool\<rparr>)"

text \<open>
  A NUMA grant: the requester gives up its claims in the node, every foreign owner gives up the
  new CPUs, and the requester owns what it kept together with the new CPUs.
\<close>

definition numa_grant ::
  "string \<Rightarrow> int set \<Rightarrow> int set \<Rightarrow> preemption_policy \<Rightarrow> cpu_pool_name \<Rightarrow> ledger \<Rightarrow> ledger" where
  "numa_grant s in_node new policy pool L =
     (\<lambda>t. if t = s
          then Some \<lparr>cl_owned = (owned_in L s - in_node) \<union> new,
                     cl_explicit = (explicit_in L s - in_node) \<union> new,
                     cl_policy = policy, cl_pool = pool\<rparr>
          else Option.bind (L t) (shrink_claim new))"

section \<open>The operations keep a ledger sound\<close>

lemma owned_in_upd [simp]:
  "owned_in (L(s := x)) t =
     (if t = s then (case x of None \<Rightarrow> {} | Some c \<Rightarrow> cl_owned c) else owned_in L t)"
  by (simp add: owned_in_def)

lemma owned_in_None [simp]: "L s = None \<Longrightarrow> owned_in L s = {}"
  and owned_in_Some [simp]: "L s = Some c \<Longrightarrow> owned_in L s = cl_owned c"
  by (simp_all add: owned_in_def)

lemma owned_in_shrink [simp]:
  "(case Option.bind x (shrink_claim R) of None \<Rightarrow> {} | Some c \<Rightarrow> cl_owned c) =
   (case x of None \<Rightarrow> {} | Some c \<Rightarrow> cl_owned c) - R"
  by (cases x) (auto simp: shrink_claim_def)

lemma owned_in_subtract [simp]:
  "owned_in (subtract_claim s R L) t = (if t = s then owned_in L s - R else owned_in L t)"
  by (simp add: subtract_claim_def) (simp add: owned_in_def)

lemma owned_in_grant [simp]:
  "owned_in (numa_grant s in_node new policy pool L) t =
     (if t = s then (owned_in L s - in_node) \<union> new else owned_in L t - new)"
  by (simp add: numa_grant_def owned_in_def)

lemma shrink_claim_ok: "shrink_claim R c = Some d \<Longrightarrow> claim_ok c \<Longrightarrow> claim_ok d"
  by (auto simp: shrink_claim_def claim_ok_def split: if_splits)

lemma ledger_ok_claim: "ledger_ok L \<Longrightarrow> L s = Some c \<Longrightarrow> claim_ok c"
  by (simp add: ledger_ok_def)

lemma ledger_ok_disjoint: "ledger_ok L \<Longrightarrow> s \<noteq> t \<Longrightarrow> owned_in L s \<inter> owned_in L t = {}"
  by (simp add: ledger_ok_def)

lemma ledger_ok_release: "ledger_ok L \<Longrightarrow> ledger_ok (release_claim s L)"
  by (auto simp: ledger_ok_def release_claim_def)

lemma ledger_ok_subtract:
  assumes "ledger_ok L"
  shows "ledger_ok (subtract_claim s R L)"
  unfolding ledger_ok_def
proof (intro conjI allI impI)
  fix t c assume "subtract_claim s R L t = Some c"
  then show "claim_ok c" using ledger_ok_claim [OF assms]
    by (auto simp: subtract_claim_def bind_eq_Some_conv split: if_splits dest: shrink_claim_ok)
next
  fix t u :: string assume "t \<noteq> u"
  then show "owned_in (subtract_claim s R L) t \<inter> owned_in (subtract_claim s R L) u = {}"
    using ledger_ok_disjoint [OF assms, of t u] by auto
qed

lemma ledger_ok_record:
  assumes "ledger_ok L" "cpu_ids S" "S \<noteq> {}" "E \<subseteq> S" "\<forall>t. t \<noteq> s \<longrightarrow> S \<inter> owned_in L t = {}"
  shows "ledger_ok (record_claim s S E policy pool L)"
  using assms unfolding ledger_ok_def record_claim_def by (auto simp: claim_ok_def Int_commute)

lemma ledger_ok_grant:
  assumes "ledger_ok L" "cpu_ids new" "new \<noteq> {}"
  shows "ledger_ok (numa_grant s in_node new policy pool L)"
  unfolding ledger_ok_def
proof (intro conjI allI impI)
  fix t c assume c: "numa_grant s in_node new policy pool L t = Some c"
  have own: "cpu_ids (owned_in L s)" "explicit_in L s \<subseteq> owned_in L s"
    using ledger_ok_claim [OF assms(1), of s]
    by (auto simp: owned_in_def explicit_in_def claim_ok_def split: option.splits)
  show "claim_ok c"
  proof (cases "t = s")
    case True
    then show ?thesis using c own assms(2,3) by (auto simp: numa_grant_def claim_ok_def)
  next
    case False
    then show ?thesis using c ledger_ok_claim [OF assms(1)]
      by (auto simp: numa_grant_def bind_eq_Some_conv dest: shrink_claim_ok)
  qed
next
  fix t u :: string assume "t \<noteq> u"
  then show "owned_in (numa_grant s in_node new policy pool L) t
      \<inter> owned_in (numa_grant s in_node new policy pool L) u = {}"
    using ledger_ok_disjoint [OF assms(1), of t u] by auto
qed

text \<open>Shrinking one owner after another is shrinking all of them.\<close>

lemma shrink_claim_disjoint:
  assumes "ledger_ok L" "owned_in L t \<inter> R = {}"
  shows "Option.bind (L t) (shrink_claim R) = L t"
proof (cases "L t")
  case (Some c)
  have "cl_owned c - R = cl_owned c" "cl_explicit c - R = cl_explicit c" "cl_owned c \<noteq> {}"
    using assms Some ledger_ok_claim [OF assms(1) Some] by (auto simp: claim_ok_def)
  then show ?thesis using Some by (simp add: shrink_claim_def)
qed simp

lemma shrink_claim_restrict:
  "cl_explicit c \<subseteq> cl_owned c \<Longrightarrow> shrink_claim (cl_owned c \<inter> R) c = shrink_claim R c"
proof -
  assume "cl_explicit c \<subseteq> cl_owned c"
  then have "cl_owned c - cl_owned c \<inter> R = cl_owned c - R"
    "cl_explicit c - cl_owned c \<inter> R = cl_explicit c - R" by auto
  then show ?thesis by (simp add: shrink_claim_def)
qed

end
