(* ===== verification/Ledger_Refine.thy ===== *)
theory Ledger_Refine
  imports Ledger_Spec
begin

text \<open>
  \<open>AllocationsDB\<close> implements the abstract ledger: the abstraction function, the representation
  invariant (unique keys, readable claims, no metadata without an owner, derived CPU sets that
  agree with the claims) and one simulation lemma per operation, from which the invariant of
  the whole state follows for every operation and every branch.
\<close>

section \<open>Abstraction and invariant\<close>

abbreviation owned_by :: "adb \<Rightarrow> string \<Rightarrow> int set" where
  "owned_by db \<equiv> claim_of parse_cpu_ranges (allocations db)"

abbreviation explicit_by :: "adb \<Rightarrow> string \<Rightarrow> int set" where
  "explicit_by db \<equiv> claim_of parse_cpu_ranges (explicit_allocations db)"

definition abs_ledger :: "adb \<Rightarrow> ledger" where
  "abs_ledger db s =
     (if dict_has (allocations db) s
      then Some \<lparr>cl_owned = owned_by db s, cl_explicit = explicit_by db s,
                 cl_policy = dict_get (preemption_policies db) s LEGACY,
                 cl_pool = service_pool db s\<rparr>
      else None)"

definition repr_ok :: "adb \<Rightarrow> bool" where
  "repr_ok db \<longleftrightarrow>
     table_ok parse_cpu_ranges (allocations db) (allocated_cpus db) \<and>
     table_ok parse_cpu_ranges (explicit_allocations db) (explicitly_allocated_cpus db) \<and>
     dict_ok (preemption_policies db) \<and> dict_ok (allocation_pools db) \<and>
     keys_within (explicit_allocations db) (allocations db) \<and>
     keys_within (preemption_policies db) (allocations db) \<and>
     keys_within (allocation_pools db) (allocations db)"

text \<open>Soundness of the claims, checked on the recorded owners.\<close>

definition claims_ok :: "adb \<Rightarrow> bool" where
  "claims_ok db \<longleftrightarrow>
     (\<forall>s \<in> set (dict_keys (allocations db)).
        owned_by db s \<noteq> {} \<and> explicit_by db s \<subseteq> owned_by db s \<and>
        (\<forall>t \<in> set (dict_keys (allocations db)). s \<noteq> t \<longrightarrow> owned_by db s \<inter> owned_by db t = {}))"

definition wf_ledger :: "adb \<Rightarrow> bool" where
  "wf_ledger db \<longleftrightarrow> repr_ok db \<and> claims_ok db"

lemma repr_okD:
  assumes "repr_ok db"
  shows "table_ok parse_cpu_ranges (allocations db) (allocated_cpus db)"
    "table_ok parse_cpu_ranges (explicit_allocations db) (explicitly_allocated_cpus db)"
    "dict_ok (preemption_policies db)" "dict_ok (allocation_pools db)"
    "keys_within (explicit_allocations db) (allocations db)"
    "keys_within (preemption_policies db) (allocations db)"
    "keys_within (allocation_pools db) (allocations db)"
  using assms by (simp_all add: repr_ok_def)

lemma repr_readable:
  assumes "repr_ok db"
  shows "readable parse_cpu_ranges (allocations db)" "readable parse_cpu_ranges (explicit_allocations db)"
  using repr_okD(1,2) [OF assms] by (simp_all add: table_ok_def)

lemma unowned_absent:
  assumes "repr_ok db" "\<not> dict_has (allocations db) s"
  shows "owned_by db s = {}" "explicit_by db s = {}"
    "dict_get (preemption_policies db) s v = v" "dict_get (allocation_pools db) s w = w"
    "\<not> dict_has (explicit_allocations db) s"
  using assms(2) repr_okD(5-7) [OF assms(1)]
  by (auto intro!: claim_of_absent dict_get_absent dest: keys_withinD)

lemma owned_in_abs [simp]: "owned_in (abs_ledger db) s = owned_by db s"
  by (simp add: owned_in_def abs_ledger_def claim_of_absent)

lemma abs_components:
  assumes "repr_ok db"
  shows "explicit_in (abs_ledger db) s = explicit_by db s"
    and "policy_in (abs_ledger db) s = dict_get (preemption_policies db) s LEGACY"
    and "pool_in (abs_ledger db) s = service_pool db s"
  using unowned_absent [OF assms, of s]
  by (cases "dict_has (allocations db) s";
      simp add: explicit_in_def policy_in_def pool_in_def abs_ledger_def service_pool_def)+

lemma ledger_ok_iff:
  assumes "repr_ok db"
  shows "ledger_ok (abs_ledger db) \<longleftrightarrow> claims_ok db"
proof
  assume ok: "ledger_ok (abs_ledger db)"
  show "claims_ok db"
    unfolding claims_ok_def
  proof (intro ballI conjI impI)
    fix s assume "s \<in> set (dict_keys (allocations db))"
    then have "abs_ledger db s \<noteq> None" by (metis abs_ledger_def dict_has_iff_keys option.discI)
    then obtain c where c: "abs_ledger db s = Some c" by blast
    then show "owned_by db s \<noteq> {}" "explicit_by db s \<subseteq> owned_by db s"
      using ledger_ok_claim [OF ok c] by (auto simp: claim_ok_def abs_ledger_def split: if_splits)
    fix t assume "s \<noteq> t"
    then show "owned_by db s \<inter> owned_by db t = {}" using ledger_ok_disjoint [OF ok] by simp
  qed
next
  assume ok: "claims_ok db"
  show "ledger_ok (abs_ledger db)"
    unfolding ledger_ok_def
  proof (intro allI impI conjI)
    fix s c assume c: "abs_ledger db s = Some c"
    then have "s \<in> set (dict_keys (allocations db))" by (metis abs_ledger_def dict_has_iff_keys option.discI)
    then have "owned_by db s \<noteq> {} \<and> explicit_by db s \<subseteq> owned_by db s"
      using ok unfolding claims_ok_def by blast
    then show "claim_ok c" using c
      by (auto simp: claim_ok_def abs_ledger_def ranges.claim_of_ids split: if_splits)
  next
    fix s t :: string assume "s \<noteq> t"
    then show "owned_in (abs_ledger db) s \<inter> owned_in (abs_ledger db) t = {}"
      using ok claim_of_absent [of "allocations db"]
      unfolding claims_ok_def owned_in_abs by (metis dict_has_iff_keys inf_bot_left inf_bot_right)
  qed
qed

lemma wf_ledgerD: "wf_ledger db \<Longrightarrow> repr_ok db" "wf_ledger db \<Longrightarrow> ledger_ok (abs_ledger db)"
  by (simp_all add: wf_ledger_def ledger_ok_iff)

lemma wf_ledgerI: "repr_ok db \<Longrightarrow> ledger_ok (abs_ledger db) \<Longrightarrow> wf_ledger db"
  by (simp add: wf_ledger_def ledger_ok_iff)

lemma wf_disjoint: "wf_ledger db \<Longrightarrow> s \<noteq> t \<Longrightarrow> owned_by db s \<inter> owned_by db t = {}"
  using ledger_ok_disjoint [OF wf_ledgerD(2)] by simp

lemma wf_explicit: "wf_ledger db \<Longrightarrow> explicit_by db s \<subseteq> owned_by db s"
proof (cases "dict_has (allocations db) s")
  case True
  then show "wf_ledger db \<Longrightarrow> ?thesis" unfolding wf_ledger_def claims_ok_def dict_has_iff_keys by blast
next
  case False
  assume "wf_ledger db"
  then show ?thesis using unowned_absent(2) [OF wf_ledgerD(1) False] by simp
qed

lemma wf_owned_ne: "wf_ledger db \<Longrightarrow> dict_has (allocations db) s \<Longrightarrow> owned_by db s \<noteq> {}"
  unfolding wf_ledger_def claims_ok_def dict_has_iff_keys by blast

lemma wf_tables:
  assumes "wf_ledger db"
  shows "table_disjoint parse_cpu_ranges (allocations db)"
    and "table_disjoint parse_cpu_ranges (explicit_allocations db)"
  unfolding table_disjoint_def
  using wf_disjoint [OF assms] wf_explicit [OF assms] by blast+

lemma get_service_sets [simp]:
  assumes "wf_ledger db"
  shows "get_service_allocation_set db s = Inr (owned_by db s)"
    and "get_service_explicit_set db s = Inr (explicit_by db s)"
  using repr_readable [OF wf_ledgerD(1) [OF assms]]
  by (simp_all add: get_service_allocation_set_def get_service_explicit_set_def ranges.dec_dict_get)

lemma wf_lookup:
  assumes "wf_ledger db"
  shows "map_of (allocations db) s = Some r \<Longrightarrow> parse_cpu_ranges r = Inr (owned_by db s)"
    and "map_of (explicit_allocations db) s = Some r \<Longrightarrow> parse_cpu_ranges r = Inr (explicit_by db s)"
  using repr_readable [OF wf_ledgerD(1) [OF assms]] ranges.dec_lookup by blast+

lemma wf_empty: "wf_ledger empty_adb"
  by (simp add: wf_ledger_def repr_ok_def table_ok_def claims_ok_def empty_adb_def readable_def
      claims_union_def)

section \<open>Release\<close>

lemma remove_service_allocation_abs:
  assumes wf: "wf_ledger db"
  obtains db' where "remove_service_allocation s db = Inr (owned_by db s, db')"
    and "wf_ledger db'" and "abs_ledger db' = release_claim s (abs_ledger db)"
    and "\<not> dict_has (allocations db') s" and "\<not> dict_has (explicit_allocations db') s"
proof -
  note r = repr_okD [OF wf_ledgerD(1) [OF wf]]
  define db' where "db' = db\<lparr>allocations := dict_pop s (allocations db),
     allocated_cpus := allocated_cpus db - owned_by db s,
     explicit_allocations := dict_pop s (explicit_allocations db),
     explicitly_allocated_cpus := explicitly_allocated_cpus db - explicit_by db s,
     preemption_policies := dict_pop s (preemption_policies db),
     allocation_pools := dict_pop s (allocation_pools db)\<rparr>"
  have absent: "map_of d s = None \<Longrightarrow> dict_pop s d = d" for d :: "(string, 'v) dict"
    by (simp add: delete_id map_of_eq_None_iff)
  have "remove_service_allocation s db = Inr (owned_by db s, db')"
    by (cases "map_of (allocations db) s"; cases "map_of (explicit_allocations db) s")
      (simp_all add: remove_service_allocation_def db'_def wf_lookup [OF wf] absent claim_of_def)
  moreover have "repr_ok db'"
    unfolding repr_ok_def db'_def
    using r wf_tables [OF wf] by (simp add: table_ok_pop keys_within_upd)
  moreover have "abs_ledger db' = release_claim s (abs_ledger db)"
    by (rule ext) (simp add: abs_ledger_def db'_def release_claim_def service_pool_def)
  moreover have "\<not> dict_has (allocations db') s" "\<not> dict_has (explicit_allocations db') s"
    by (simp_all add: db'_def)
  ultimately show thesis
    using that wf_ledgerI ledger_ok_release wf_ledgerD(2) [OF wf] by metis
qed

section \<open>Ordinary allocation\<close>

lemma validate_guards [simp]:
  "ensure_service_pool db s pool = Inr u \<longleftrightarrow> dict_has (allocations db) s \<longrightarrow> service_pool db s = pool"
  by (auto simp: ensure_service_pool_def)

lemma effective_policy_Inr:
  "effective_policy db s requested = Inr p \<longleftrightarrow>
   p = (case requested of None \<Rightarrow> dict_get (preemption_policies db) s LEGACY | Some q \<Rightarrow> q) \<and>
   (dict_get (preemption_policies db) s LEGACY = NON_PREEMPTIVE \<longrightarrow> p = NON_PREEMPTIVE)"
  by (auto simp: effective_policy_def Let_def)

lemma effective_policy_None [simp]:
  "effective_policy db s None = Inr (dict_get (preemption_policies db) s LEGACY)"
  by (simp add: effective_policy_Inr)

lemma effective_policy_le: "effective_policy db s requested = Inr p \<Longrightarrow>
   dict_get (preemption_policies db) s LEGACY \<le> p"
  by (cases "dict_get (preemption_policies db) s LEGACY")
    (auto simp: effective_policy_Inr less_eq_preemption_policy_def)

lemma others_disjoint:
  assumes "wf_ledger db"
  shows "S \<inter> (allocated_cpus db - owned_by db s) = {} \<longleftrightarrow>
    (\<forall>t. t \<noteq> s \<longrightarrow> S \<inter> owned_by db t = {})"
proof -
  have all: "allocated_cpus db = (\<Union>t. owned_by db t)"
    using table_ok_union [OF repr_okD(1) [OF wf_ledgerD(1) [OF assms]]] .
  show ?thesis
  proof
    assume h: "S \<inter> (allocated_cpus db - owned_by db s) = {}"
    show "\<forall>t. t \<noteq> s \<longrightarrow> S \<inter> owned_by db t = {}"
    proof (intro allI impI)
      fix t assume "t \<noteq> s"
      then show "S \<inter> owned_by db t = {}"
        using h wf_disjoint [OF assms, of t s] unfolding all by blast
    qed
  next
    assume h: "\<forall>t. t \<noteq> s \<longrightarrow> S \<inter> owned_by db t = {}"
    have "c \<notin> S" if c: "c \<in> allocated_cpus db - owned_by db s" for c
    proof -
      obtain t where "c \<in> owned_by db t" using c unfolding all by blast
      then show ?thesis using h c by (cases "t = s") auto
    qed
    then show "S \<inter> (allocated_cpus db - owned_by db s) = {}" by blast
  qed
qed

text \<open>
  Recording a claim for a service that has none: the common end of \<open>allocate_cores\<close> and of a
  NUMA grant.
\<close>

lemma record_fresh:
  assumes wf: "wf_ledger db" and fresh: "\<not> dict_has (allocations db) s"
    and S: "cpu_ids S" "S \<noteq> {}" "\<forall>t. t \<noteq> s \<longrightarrow> S \<inter> owned_by db t = {}"
    and db': "db' = db\<lparr>allocations := dict_set s (set_ranges S) (allocations db),
                allocated_cpus := allocated_cpus db \<union> S,
                preemption_policies := dict_set s policy (preemption_policies db),
                allocation_pools := dict_set s pool (allocation_pools db)\<rparr>"
  shows "wf_ledger db'" and "abs_ledger db' = record_claim s S {} policy pool (abs_ledger db)"
proof -
  note r = repr_okD [OF wf_ledgerD(1) [OF wf]]
  note absent = unowned_absent [OF wf_ledgerD(1) [OF wf] fresh]
  have "repr_ok db'"
    unfolding repr_ok_def db'
    using r wf_tables [OF wf] S(1) absent
    by (simp add: ranges.table_ok_set keys_within_upd)
  moreover show "abs_ledger db' = record_claim s S {} policy pool (abs_ledger db)"
    using absent S(1) by (auto simp: abs_ledger_def db' record_claim_def service_pool_def ranges.claim_of_set)
  ultimately show "wf_ledger db'"
    using wf_ledgerI ledger_ok_record [OF wf_ledgerD(2) [OF wf] S(1,2)] S(3) by auto
qed

lemma allocate_cores_abs:
  assumes wf: "wf_ledger db" and ok: "allocate_cores s cores requested pool db = Inr db'"
    and S: "parse_cpu_ranges cores = Inr S" "S \<noteq> {}"
  obtains policy where "effective_policy db s requested = Inr policy"
    and "\<forall>t. t \<noteq> s \<longrightarrow> S \<inter> owned_by db t = {}"
    and "wf_ledger db'" and "abs_ledger db' = record_claim s S {} policy pool (abs_ledger db)"
proof -
  have ne: "cores \<noteq> []" using S by auto
  obtain db1 where rm: "remove_service_allocation s db = Inr (owned_by db s, db1)" "wf_ledger db1"
      "abs_ledger db1 = release_claim s (abs_ledger db)" "\<not> dict_has (allocations db1) s"
      "\<not> dict_has (explicit_allocations db1) s"
    using remove_service_allocation_abs [OF wf, of s] by blast
  obtain policy where p: "effective_policy db s requested = Inr policy"
    and disj: "S \<inter> (allocated_cpus db - owned_by db s) = {}"
    and db': "db' = (let db2 = apply_allocation s S False db1
         in db2\<lparr>preemption_policies := dict_set s policy (preemption_policies db2),
                allocation_pools := dict_set s pool (allocation_pools db2)\<rparr>)"
    using ok ne S rm(1) wf by (auto simp: allocate_cores_def Let_def)
  have disj: "\<forall>t. t \<noteq> s \<longrightarrow> S \<inter> owned_by db t = {}" using disj others_disjoint [OF wf] by simp
  have "owned_by db1 t = (if t = s then {} else owned_by db t)" for t
    using rm(3) by (metis owned_in_abs owned_in_upd option.simps(4) release_claim_def)
  then have "\<forall>t. t \<noteq> s \<longrightarrow> S \<inter> owned_by db1 t = {}" using disj by simp
  moreover have "db' = db1\<lparr>allocations := dict_set s (set_ranges S) (allocations db1),
                allocated_cpus := allocated_cpus db1 \<union> S,
                preemption_policies := dict_set s policy (preemption_policies db1),
                allocation_pools := dict_set s pool (allocation_pools db1)\<rparr>"
    using rm(5) S(2) by (simp add: db' apply_allocation_def Let_def)
  ultimately have "wf_ledger db'" "abs_ledger db' = record_claim s S {} policy pool (abs_ledger db1)"
    by (rule record_fresh [OF rm(2,4) parse_cpu_ranges_ids [OF S(1)] S(2)])+
  then show thesis using that [OF p disj] rm(3) by (simp add: record_claim_def release_claim_def)
qed

section \<open>Subtraction\<close>

lemma subtract_abs:
  assumes wf: "wf_ledger db"
    and ok: "subtract_cpus_from_service s R rq rp rpool db = Inr db'"
  shows "wf_ledger db'" and "abs_ledger db' = subtract_claim s R (abs_ledger db)"
proof -
  note r = repr_okD [OF wf_ledgerD(1) [OF wf]]
  have "repr_ok db' \<and> abs_ledger db' = subtract_claim s R (abs_ledger db)"
  proof (cases "map_of (allocations db) s")
    case None
    then have "abs_ledger db s = None" "db' = db" using ok
      by (simp_all add: abs_ledger_def dict_has_def subtract_cpus_from_service_def)
    then show ?thesis using wf_ledgerD(1) [OF wf] by (simp add: subtract_claim_def fun_upd_idem)
  next
    case (Some cores)
    then have has: "dict_has (allocations db) s" by (simp add: dict_has_def)
    have parse: "parse_cpu_ranges cores = Inr (owned_by db s)" using wf_lookup(1) [OF wf Some] .
    show ?thesis
    proof (cases "owned_by db s \<inter> R = {}")
      case True
      then have "db' = db" using ok Some parse by (simp add: subtract_cpus_from_service_def)
      then show ?thesis using wf_ledgerD [OF wf] True
        by (simp add: subtract_claim_def shrink_claim_disjoint fun_upd_idem)
    next
      case False
      define E where "E = explicit_by db s - R"
      define exs where "exs = (if dict_has (explicit_allocations db) s
        then if E \<noteq> {} then dict_set s (set_ranges E) (explicit_allocations db)
             else dict_pop s (explicit_allocations db)
        else explicit_allocations db)"
      have sub: "db' = db\<lparr>allocated_cpus := allocated_cpus db - (owned_by db s \<inter> R),
          explicitly_allocated_cpus := explicitly_allocated_cpus db - (explicit_by db s \<inter> R),
          explicit_allocations := exs,
          allocations := (if owned_by db s - R \<noteq> {}
            then dict_set s (set_ranges (owned_by db s - R)) (allocations db)
            else dict_pop s (allocations db)),
          preemption_policies := (if owned_by db s - R \<noteq> {} then preemption_policies db
            else dict_pop s (preemption_policies db)),
          allocation_pools := (if owned_by db s - R \<noteq> {} then allocation_pools db
            else dict_pop s (allocation_pools db))\<rparr>"
        using ok Some parse False
        by (cases "map_of (explicit_allocations db) s")
          (auto simp: subtract_cpus_from_service_def Let_def wf_lookup [OF wf] exs_def E_def
            dict_has_def claim_of_def split: if_splits)
      have exs_eq: "exs = (if explicit_by db s - R \<noteq> {}
          then dict_set s (set_ranges (explicit_by db s - R)) (explicit_allocations db)
          else dict_pop s (explicit_allocations db))"
        using claim_of_absent [of "explicit_allocations db" s] dict_pop_absent [of "explicit_allocations db" s]
        by (auto simp: exs_def E_def)
      note own = ranges.table_shrink [OF r(1) wf_tables(1) [OF wf] refl refl, of s R]
      note expl = ranges.table_shrink [OF r(2) wf_tables(2) [OF wf] refl exs_eq]
      have "explicit_by db s - R \<subseteq> owned_by db s - R" using wf_explicit [OF wf, of s] by blast
      then have "repr_ok db'"
        using r own(1) expl(1) has unfolding repr_ok_def sub exs_eq
        by (cases "owned_by db s - R = {}"; cases "explicit_by db s - R = {}")
          (simp_all add: keys_within_upd del: Diff_eq_empty_iff)
      moreover have "abs_ledger db' = subtract_claim s R (abs_ledger db)"
      proof
        fix t
        show "abs_ledger db' t = subtract_claim s R (abs_ledger db) t"
          using has own(2) [of t] expl(2) [of t]
          by (cases "owned_by db s - R = {}"; cases "t = s")
            (simp_all add: abs_ledger_def sub subtract_claim_def shrink_claim_def service_pool_def
              del: Diff_eq_empty_iff)
      qed
      ultimately show ?thesis ..
    qed
  qed
  then show "wf_ledger db'" "abs_ledger db' = subtract_claim s R (abs_ledger db)"
    using wf_ledgerI ledger_ok_subtract wf_ledgerD(2) [OF wf] by auto
qed

section \<open>NUMA grants\<close>

definition numa_node_set :: "host \<Rightarrow> int \<Rightarrow> int set" where
  "numa_node_set h n = (case get_numa_node_cpus h of Inl e \<Rightarrow> {} | Inr d \<Rightarrow> dict_get d n {})"

lemma get_cpus_in_numa_node_Inr:
  assumes "get_cpus_in_numa_node h n r = Inr X" "parse_cpu_ranges r = Inr E"
  shows "X = numa_node_set h n \<inter> E"
  using assms by (auto simp: get_cpus_in_numa_node_def numa_node_set_def)

definition reclaimable ::
  "adb \<Rightarrow> string \<Rightarrow> int set \<Rightarrow> preemption_policy \<Rightarrow> cpu_pool_name \<Rightarrow> bool" where
  "reclaimable db owner R policy pool \<longleftrightarrow>
     service_pool db owner = pool \<and> policy \<noteq> NON_PREEMPTIVE \<and>
     dict_get (preemption_policies db) owner LEGACY \<noteq> NON_PREEMPTIVE \<and>
     R \<inter> explicit_by db owner = {}"

lemma validate_reclamation_iff:
  "wf_ledger db \<Longrightarrow>
   validate_reclamation db owner R policy pool = Inr u \<longleftrightarrow> reclaimable db owner R policy pool"
  by (auto simp: validate_reclamation_def reclaimable_def Let_def)

lemma fold_subtract:
  assumes "foldE (\<lambda>(owner, overlap). subtract_cpus_from_service owner overlap rq rp pool) ovs db1 = Inr db2"
    and "wf_ledger db1" and "distinct (List.map fst ovs)"
  shows "wf_ledger db2 \<and>
    (\<forall>t. abs_ledger db2 t =
       (case map_of ovs t of None \<Rightarrow> abs_ledger db1 t
        | Some R \<Rightarrow> Option.bind (abs_ledger db1 t) (shrink_claim R)))"
  using assms
proof (induction ovs arbitrary: db1)
  case Nil
  then show ?case by simp
next
  case (Cons ov ovs)
  obtain s R where ov: "ov = (s, R)" by (cases ov)
  obtain db' where db': "subtract_cpus_from_service s R rq rp pool db1 = Inr db'"
    "foldE (\<lambda>(owner, overlap). subtract_cpus_from_service owner overlap rq rp pool) ovs db' = Inr db2"
    using Cons.prems(1) ov by auto
  note sub = subtract_abs [OF Cons.prems(2) db'(1)]
  have rest: "wf_ledger db2 \<and> (\<forall>t. abs_ledger db2 t = (case map_of ovs t of None \<Rightarrow> abs_ledger db' t
        | Some R \<Rightarrow> Option.bind (abs_ledger db' t) (shrink_claim R)))"
    using Cons.IH [OF db'(2) sub(1)] Cons.prems(3) by simp
  moreover have "map_of ovs s = None" using Cons.prems(3) ov by (simp add: map_of_eq_None_iff)
  moreover have "abs_ledger db' t = (if t = s then Option.bind (abs_ledger db1 s) (shrink_claim R) else abs_ledger db1 t)" for t
    by (simp add: sub(2) subtract_claim_def)
  ultimately show ?case using ov by (auto split: option.splits)
qed

lemma foreign_overlaps_wf:
  assumes "wf_ledger db" "foreign_overlaps db s new = Inr ovs"
  shows "ovs = List.map (\<lambda>owner. (owner, owned_by db owner \<inter> new))
      (List.filter (\<lambda>owner. owner \<noteq> s) (dict_keys (allocations db)))"
    and "distinct (List.map fst ovs)"
    and "map_of ovs t = (if t \<noteq> s \<and> dict_has (allocations db) t then Some (owned_by db t \<inter> new) else None)"
proof -
  have dk: "dict_ok (allocations db)" using repr_okD(1) [OF wf_ledgerD(1) [OF assms(1)]] by (simp add: table_ok_def)
  let ?ks = "List.filter (\<lambda>owner. owner \<noteq> s) (dict_keys (allocations db))"
  have "foreign_overlaps db s new = Inr (List.map (\<lambda>owner. (owner, owned_by db owner \<inter> new)) ?ks)"
    unfolding foreign_overlaps_def by (rule mapE_Inr) (simp add: assms(1))
  then show eq: "ovs = List.map (\<lambda>owner. (owner, owned_by db owner \<inter> new)) ?ks" using assms(2) by simp
  have "List.map fst ovs = ?ks" by (simp add: eq comp_def)
  then show "distinct (List.map fst ovs)" using dk by simp
  have "map_of (List.map (\<lambda>owner. (owner, owned_by db owner \<inter> new)) ks) t =
      (if t \<in> set ks then Some (owned_by db t \<inter> new) else None)" for ks
    by (induction ks) auto
  then have "map_of ovs t = (if t \<in> set ?ks then Some (owned_by db t \<inter> new) else None)" by (simp only: eq)
  then show "map_of ovs t = (if t \<noteq> s \<and> dict_has (allocations db) t then Some (owned_by db t \<inter> new) else None)"
    unfolding dict_has_iff_keys set_filter by simp
qed

text \<open>Recording an explicit claim that contains what the service still holds.\<close>

lemma record_explicit:
  assumes wf: "wf_ledger db" and grow: "owned_by db s \<subseteq> S" "explicit_by db s \<subseteq> E"
    and S: "cpu_ids S" "E \<subseteq> S" "E \<noteq> {}" "\<forall>t. t \<noteq> s \<longrightarrow> S \<inter> owned_by db t = {}"
    and db': "db' = db\<lparr>allocations := dict_set s (set_ranges S) (allocations db),
                allocated_cpus := allocated_cpus db \<union> S,
                explicit_allocations := dict_set s (set_ranges E) (explicit_allocations db),
                explicitly_allocated_cpus := explicitly_allocated_cpus db \<union> E,
                preemption_policies := dict_set s policy (preemption_policies db),
                allocation_pools := dict_set s pool (allocation_pools db)\<rparr>"
  shows "wf_ledger db'" and "abs_ledger db' = record_claim s S E policy pool (abs_ledger db)"
proof -
  note r = repr_okD [OF wf_ledgerD(1) [OF wf]]
  have E: "cpu_ids E" using S(1,2) cpu_ids_subset by blast
  have "allocated_cpus db \<union> S = (allocated_cpus db - owned_by db s) \<union> S"
    "explicitly_allocated_cpus db \<union> E = (explicitly_allocated_cpus db - explicit_by db s) \<union> E"
    using grow by blast+
  then have "repr_ok db'"
    unfolding repr_ok_def db'
    using r wf_tables [OF wf] S(1) E by (simp add: ranges.table_ok_set keys_within_upd)
  moreover show abs: "abs_ledger db' = record_claim s S E policy pool (abs_ledger db)"
    using S(1) E by (auto simp: abs_ledger_def db' record_claim_def service_pool_def ranges.claim_of_set)
  moreover have "S \<noteq> {}" using S(2,3) by blast
  then have "ledger_ok (abs_ledger db')"
    unfolding abs using wf_ledgerD(2) [OF wf] S by (intro ledger_ok_record) auto
  ultimately show "wf_ledger db'" using wf_ledgerI by blast
qed

lemma apply_numa_abs:
  assumes wf: "wf_ledger db" and el: "cpu_ids eligible" and ne: "new \<noteq> {}"
    and ok: "apply_numa_explicit_allocation h check s node new requested pool eligible db = Inr db'"
  obtains policy where "effective_policy db s requested = Inr policy"
    and "ensure_service_pool db s pool = Inr ()"
    and "new \<subseteq> numa_node_set h node \<inter> eligible" and "owned_by db s \<subseteq> eligible"
    and "check new = Inr ()"
    and "\<And>t. t \<noteq> s \<Longrightarrow> owned_by db t \<inter> new \<noteq> {} \<Longrightarrow> reclaimable db t (owned_by db t \<inter> new) policy pool"
    and "wf_ledger db'"
    and "abs_ledger db' = numa_grant s (numa_node_set h node \<inter> owned_by db s) new policy pool (abs_ledger db)"
proof -
  obtain policy elig ovs in_node db1 db2 where
    pol: "effective_policy db s requested = Inr policy"
    and pool: "ensure_service_pool db s pool = Inr ()"
    and elig: "get_cpus_in_numa_node h node (set_ranges eligible) = Inr elig" "new \<subseteq> elig"
    and off: "check_offline_claims db s eligible = Inr ()"
    and ovs: "foreign_overlaps db s new = Inr ovs"
    and val: "foldE (\<lambda>(owner, overlap) _. if overlap \<noteq> {} then validate_reclamation db owner overlap policy pool
                else Inr ()) ovs () = Inr ()"
    and nod: "get_cpus_in_numa_node h node (set_ranges (owned_by db s)) = Inr in_node"
    and chk: "check new = Inr ()"
    and sub: "subtract_cpus_from_service s in_node None None ISOLATED db = Inr db1"
    and fold: "foldE (\<lambda>(owner, overlap). subtract_cpus_from_service owner overlap (Some s) (Some policy) pool)
                ovs db1 = Inr db2"
    and db': "db' = (let updated = (owned_by db s - in_node) \<union> new;
                         explicit = (explicit_by db s - in_node) \<union> new
       in if updated = {} then db2
          else
            let db3 = db2\<lparr>allocations := dict_set s (set_ranges updated) (allocations db2),
                          allocated_cpus := allocated_cpus db2 \<union> updated\<rparr>;
                db4 = (if explicit \<noteq> {}
                       then db3\<lparr>explicit_allocations :=
                                  dict_set s (set_ranges explicit) (explicit_allocations db3),
                                explicitly_allocated_cpus := explicitly_allocated_cpus db3 \<union> explicit\<rparr>
                       else db3)
            in db4\<lparr>preemption_policies := dict_set s policy (preemption_policies db4),
                   allocation_pools := dict_set s pool (allocation_pools db4)\<rparr>)"
    using ok unfolding apply_numa_explicit_allocation_def Let_def
    by (auto simp: get_service_sets [OF wf])
  have elig': "elig = numa_node_set h node \<inter> eligible"
    using get_cpus_in_numa_node_Inr [OF elig(1) ranges.dec_enc [OF el]] .
  have nod': "in_node = numa_node_set h node \<inter> owned_by db s"
    using get_cpus_in_numa_node_Inr [OF nod ranges.dec_enc [OF ranges.claim_of_ids]] .
  have off': "owned_by db s \<subseteq> eligible" using off wf by (auto simp: check_offline_claims_def)
  have new: "cpu_ids new" using elig(2) elig' el cpu_ids_subset by blast
  note ov = foreign_overlaps_wf [OF wf ovs]
  have recl: "reclaimable db t (owned_by db t \<inter> new) policy pool"
    if "t \<noteq> s" "owned_by db t \<inter> new \<noteq> {}" for t
  proof -
    have "dict_has (allocations db) t" using that(2) claim_of_absent by blast
    then have mem: "(t, owned_by db t \<inter> new) \<in> set ovs" using ov(3) [of t] that(1) by (simp add: map_of_SomeD)
    have checks: "foldE (\<lambda>x _. (\<lambda>(owner, overlap). if overlap \<noteq> {}
         then validate_reclamation db owner overlap policy pool else Inr ()) x) ovs () = Inr ()"
      using val by (simp add: case_prod_unfold)
    from foldE_checks [OF checks mem] have "validate_reclamation db t (owned_by db t \<inter> new) policy pool = Inr ()"
      using that(2) by simp
    then show ?thesis by (simp add: validate_reclamation_iff [OF wf])
  qed
  note s1 = subtract_abs [OF wf sub]
  note s2 = fold_subtract [OF fold s1(1) ov(2)]
  have at_s: "abs_ledger db2 s = Option.bind (abs_ledger db s) (shrink_claim in_node)"
    using s2 ov(3) [of s] s1(2) by (simp add: subtract_claim_def)
  have at_t: "abs_ledger db2 t = Option.bind (abs_ledger db t) (shrink_claim new)" if "t \<noteq> s" for t
  proof -
    have 1: "abs_ledger db1 t = abs_ledger db t" using s1(2) that by (simp add: subtract_claim_def)
    show ?thesis
    proof (cases "dict_has (allocations db) t")
      case True
      then obtain c where c: "abs_ledger db t = Some c" "cl_owned c = owned_by db t" by (simp add: abs_ledger_def)
      have "cl_explicit c \<subseteq> cl_owned c"
        using ledger_ok_claim [OF wf_ledgerD(2) [OF wf] c(1)] by (simp add: claim_ok_def)
      from shrink_claim_restrict [OF this, of new] show ?thesis
        using s2 ov(3) [of t] 1 True that c by simp
    qed (use s2 ov(3) [of t] 1 that in \<open>simp add: abs_ledger_def\<close>)
  qed
  have o2: "owned_by db2 t = (if t = s then owned_by db s - in_node else owned_by db t - new)" for t
  proof -
    have "owned_in (abs_ledger db2) t = (if t = s then owned_in (abs_ledger db) s - in_node
        else owned_in (abs_ledger db) t - new)"
      using at_s at_t [of t] by (simp add: owned_in_def)
    then show ?thesis by simp
  qed
  have "explicit_in (abs_ledger db2) s \<subseteq> explicit_in (abs_ledger db) s - in_node"
    using at_s by (cases "abs_ledger db s") (auto simp: explicit_in_def shrink_claim_def)
  then have e2: "explicit_by db2 s \<subseteq> explicit_by db s - in_node"
    using s2 wf by (simp add: abs_components wf_ledgerD(1))
  let ?S = "(owned_by db s - in_node) \<union> new" and ?E = "(explicit_by db s - in_node) \<union> new"
  have db'': "db' = db2\<lparr>allocations := dict_set s (set_ranges ?S) (allocations db2),
                allocated_cpus := allocated_cpus db2 \<union> ?S,
                explicit_allocations := dict_set s (set_ranges ?E) (explicit_allocations db2),
                explicitly_allocated_cpus := explicitly_allocated_cpus db2 \<union> ?E,
                preemption_policies := dict_set s policy (preemption_policies db2),
                allocation_pools := dict_set s pool (allocation_pools db2)\<rparr>"
    using ne by (simp add: db' Let_def)
  have disj: "\<forall>t. t \<noteq> s \<longrightarrow> ?S \<inter> owned_by db2 t = {}"
  proof (intro allI impI)
    fix t assume "t \<noteq> s"
    then show "?S \<inter> owned_by db2 t = {}" using wf_disjoint [OF wf, of s t] by (auto simp: o2)
  qed
  have grow: "owned_by db2 s \<subseteq> ?S" "explicit_by db2 s \<subseteq> ?E" using o2 [of s] e2 by auto
  have S: "cpu_ids ?S" "?E \<subseteq> ?S" "?E \<noteq> {}" using new ranges.claim_of_ids ne wf_explicit [OF wf, of s] by auto
  have wf2: "wf_ledger db2" using s2 by simp
  note rec = record_explicit [OF wf2 grow S disj db'']
  have "record_claim s ?S ?E policy pool (abs_ledger db2) = numa_grant s in_node new policy pool (abs_ledger db)"
    using at_t abs_components(1) [OF wf_ledgerD(1) [OF wf], of s]
    by (auto simp: record_claim_def numa_grant_def)
  then show thesis using that [OF pol pool _ off' chk recl] rec elig(2) elig' nod' by simp
qed

end
