(* ===== verification/Ledger_Ops.thy ===== *)
theory Ledger_Ops
  imports Ledger_Refine
begin

text \<open>
  The public operations of \<open>AllocationsDB\<close> against the abstract ledger: what a release, a
  count allocation and a NUMA allocation do to every service, what they return, and when they
  leave the candidate unchanged.
\<close>

section \<open>Release\<close>

lemma remove_allocation_Inr:
  assumes wf: "wf_ledger db" and ok: "remove_allocation s pool db = Inr (b, db')"
  shows "b = dict_has (allocations db) s" and "wf_ledger db'"
    and "abs_ledger db' = release_claim s (abs_ledger db)"
proof -
  have "dict_has (explicit_allocations db) s \<Longrightarrow> dict_has (allocations db) s"
    using repr_okD(5) [OF wf_ledgerD(1) [OF wf]] by (rule keys_withinD)
  then have b: "b = dict_has (allocations db) s"
    and c: "\<not> b \<Longrightarrow> db' = db" "b \<Longrightarrow> \<exists>x. remove_service_allocation s db = Inr (x, db')"
    using ok by (auto simp: remove_allocation_def split: if_splits)
  show "b = dict_has (allocations db) s" using b .
  have "wf_ledger db' \<and> abs_ledger db' = release_claim s (abs_ledger db)"
  proof (cases b)
    case True
    then show ?thesis using c(2) remove_service_allocation_abs [OF wf, of s] by (metis prod.inject sum.inject(2))
  next
    case False
    then have "abs_ledger db s = None" using b by (simp add: abs_ledger_def)
    then show ?thesis using False c(1) wf by (simp add: release_claim_def fun_upd_idem)
  qed
  then show "wf_ledger db'" "abs_ledger db' = release_claim s (abs_ledger db)" by auto
qed

lemma remove_allocation_total:
  assumes wf: "wf_ledger db" and pool: "ensure_service_pool db s pool = Inr ()"
  shows "\<exists>b db'. remove_allocation s pool db = Inr (b, db')"
proof -
  obtain db' where "remove_service_allocation s db = Inr (owned_by db s, db')"
    using remove_service_allocation_abs [OF wf, of s] .
  then show ?thesis using pool by (simp add: remove_allocation_def del: validate_guards) blast
qed

lemma clear_all_abs:
  "wf_ledger (clear_all_allocations db)" "abs_ledger (clear_all_allocations db) = Map.empty"
proof -
  have "clear_all_allocations db = empty_adb" by (cases db) (simp add: clear_all_allocations_def empty_adb_def)
  then show "wf_ledger (clear_all_allocations db)" using wf_empty by simp
  show "abs_ledger (clear_all_allocations db) = Map.empty"
    by (rule ext) (simp add: abs_ledger_def clear_all_allocations_def)
qed

section \<open>Free CPUs\<close>

definition foreign_claims :: "adb \<Rightarrow> string \<Rightarrow> int set" where
  "foreign_claims db s = \<Union> (owned_by db ` (set (dict_keys (allocations db)) - {s}))"

lemma foreign_claims_iff:
  "c \<in> foreign_claims db s \<longleftrightarrow> (\<exists>t. t \<noteq> s \<and> c \<in> owned_by db t)"
proof -
  have "c \<in> owned_by db t \<Longrightarrow> t \<in> set (dict_keys (allocations db))" for t
    using claim_of_absent [of "allocations db" t] unfolding dict_has_iff_keys by blast
  then show ?thesis by (auto simp: foreign_claims_def simp del: list.set_map)
qed

lemma allocated_split:
  assumes "wf_ledger db"
  shows "allocated_cpus db - owned_by db s = foreign_claims db s"
proof (rule set_eqI)
  fix c
  have all: "allocated_cpus db = (\<Union>t. owned_by db t)"
    using table_ok_union [OF repr_okD(1) [OF wf_ledgerD(1) [OF assms]]] .
  show "c \<in> allocated_cpus db - owned_by db s \<longleftrightarrow> c \<in> foreign_claims db s"
  proof
    assume "c \<in> allocated_cpus db - owned_by db s"
    then obtain t where "c \<in> owned_by db t" "c \<notin> owned_by db s" unfolding all by blast
    then show "c \<in> foreign_claims db s" unfolding foreign_claims_iff by metis
  next
    assume "c \<in> foreign_claims db s"
    then obtain t where t: "t \<noteq> s" "c \<in> owned_by db t" unfolding foreign_claims_iff by blast
    then show "c \<in> allocated_cpus db - owned_by db s"
      unfolding all using wf_disjoint [OF assms t(1)] by blast
  qed
qed

lemma available_for_service:
  assumes wf: "wf_ledger db" and E: "parse_cpu_ranges eligible = Inr E"
  shows "get_available_cpus_for_service db s eligible = Inr (py_sorted (E - foreign_claims db s))"
proof -
  have "allocated_cpus db - (owned_by db s \<union> explicit_by db s) = foreign_claims db s"
    using wf_explicit [OF wf, of s] allocated_split [OF wf, of s] by (simp add: Un_absorb2)
  then show ?thesis by (simp add: get_available_cpus_for_service_def E wf Let_def)
qed

section \<open>Count allocation\<close>

text \<open>
  A successful \<open>allocate_count\<close>: exactly the target number of CPUs, all eligible, free of
  foreign claims and accepted by the final online check; the rest of the free eligible CPUs is
  returned as shared; only the requester's claim changes.
\<close>

definition count_target :: "int set \<Rightarrow> int \<Rightarrow> int" where
  "count_target free cnt = (if 0 < cnt then cnt else default_cores (py_len free))"

lemma pinned_exact:
  assumes C: "cpu_ids C" "C \<noteq> {}"
    and ok: "calculate_cpu_pinning (set_ranges C) cnt = Inr (shared, dedicated)" "dedicated \<noteq> []"
  shows "\<exists>S. dedicated = set_ranges S \<and> shared = set_ranges (C - S) \<and> S \<subseteq> C \<and>
    py_len S = count_target C cnt \<and> S \<noteq> {}"
proof -
  let ?k = "count_target C cnt"
  have k: "pinned_count (py_len C) cnt = ?k" by (simp add: pinned_count_def count_target_def)
  have fin: "finite C" using C(1) by blast
  have k0: "0 \<le> ?k" using default_cores_bounds [of "py_len C"] by (simp add: count_target_def)
  let ?S = "set (take (nat ?k) (py_sorted C))"
  have le: "?k \<le> py_len C" and
    eq: "shared = to_ranges (drop (nat ?k) (py_sorted C))" "dedicated = to_ranges (take (nat ?k) (py_sorted C))"
    using ok unfolding calculate_on_set [OF C] Let_def k by (auto split: if_splits)
  have srt: "py_sorted (set xs) = xs" if "sorted xs" "distinct xs" for xs :: "int list"
    using that by (rule sorted_list_of_set.idem_if_sorted_distinct)
  have "dedicated = set_ranges ?S" using eq(2) by (simp add: srt sorted_wrt_take)
  moreover have "shared = set_ranges (C - ?S)"
    using eq(1) by (simp add: srt sorted_wrt_drop flip: take_drop_py_sorted [OF fin])
  moreover have "py_len ?S = ?k" using card_take_py_sorted [OF fin] k0 le by (simp add: py_len_def)
  moreover have "?S \<noteq> {}" using ok(2) eq(2) by auto
  ultimately show ?thesis using set_py_sorted_take [OF fin] by blast
qed

text \<open>The selection of the code, as a function of the free CPUs and the requester's own.\<close>

definition count_selection ::
  "host \<Rightarrow> preemption_policy \<Rightarrow> int set \<Rightarrow> int set \<Rightarrow> int \<Rightarrow> ((string \<times> string) \<times> int set \<times> int) result" where
  "count_selection h policy own C cnt =
     raise_if (py_len C < cnt) (ValueError (insufficient_cpus cnt (py_len C)))
     (bindE (calculate_cpu_pinning (set_ranges C) cnt) (\<lambda>(shared, dedicated).
        raise_if (dedicated = []) (ValueError (''Failed to allocate '' @ str_int cnt @ '' cores''))
     (bindE (parse_cpu_ranges dedicated) (\<lambda>selected.
        let target = (if 0 < cnt then cnt else py_len selected) in
        if policy = NON_PREEMPTIVE
        then bindE (stable_with (select_numa_cpus_smt_aware h) own C target) (\<lambda>stable.
               Inr ((set_ranges (C - stable), set_ranges stable), stable, target))
        else Inr ((shared, dedicated), selected, target)))))"

lemma allocate_count_selects:
  assumes wf: "wf_ledger db" and E: "parse_cpu_ranges eligible = Inr E"
  shows "allocate_count h check s cnt eligible requested pool db =
    bindE (ensure_service_pool db s pool) (\<lambda>_.
    bindE (effective_policy db s requested) (\<lambda>policy.
    bindE (check_offline_claims db s E) (\<lambda>_.
    bindE (count_selection h policy (owned_by db s) (E - foreign_claims db s) cnt) (\<lambda>(texts, selected, target).
    bindE (validate_selection selected (E - foreign_claims db s) target) (\<lambda>_.
    bindE (check selected) (\<lambda>_.
    bindE (allocate_cores s (snd texts) (Some policy) pool db) (\<lambda>db'.
      Inr (texts, db'))))))))"
proof -
  have fin: "finite (E - foreign_claims db s)" using parse_cpu_ranges_ids [OF E] by blast
  show ?thesis
    unfolding allocate_count_def count_selection_def available_for_service [OF wf E] E Let_def
    by (simp add: fin wf select_stable_def bindE_assoc bindE_raise_if bindE_if bindE_pair case_prod_unfold
        del: validate_guards cong: if_cong)
qed

text \<open>A selection that passes the final check: exactly the target number, and the texts that name it.\<close>

lemma count_selection_exact:
  assumes C: "cpu_ids C"
    and sel: "count_selection h policy own C cnt = Inr (texts, S, target)"
    and val: "validate_selection S C target = Inr ()"
  shows "texts = (set_ranges (C - S), set_ranges S)" "S \<subseteq> C" "cpu_ids S" "S \<noteq> {}"
    and "target = count_target C cnt" "py_len S = target" "parse_cpu_ranges (snd texts) = Inr S"
    and "policy = NON_PREEMPTIVE \<Longrightarrow> own \<subseteq> C \<Longrightarrow> py_len own \<le> py_len S \<Longrightarrow> own \<subseteq> S"
proof -
  have fin: "finite C" using C by blast
  obtain shared0 dedicated0 selected0 where
    calc: "calculate_cpu_pinning (set_ranges C) cnt = Inr (shared0, dedicated0)" "dedicated0 \<noteq> []"
    and sel0: "parse_cpu_ranges dedicated0 = Inr selected0"
    and target: "target = (if 0 < cnt then cnt else py_len selected0)"
    and pick: "(if policy = NON_PREEMPTIVE
      then bindE (stable_with (select_numa_cpus_smt_aware h) own C target) (\<lambda>stable.
             Inr ((set_ranges (C - stable), set_ranges stable), stable, target))
      else Inr ((shared0, dedicated0), selected0, target)) = Inr (texts, S, target)"
    using sel unfolding count_selection_def Let_def by (auto split: if_splits)
  have Cne: "C \<noteq> {}"
  proof
    assume "C = {}"
    then have "set_ranges C = []" by simp
    then show False using calc by (simp add: calculate_cpu_pinning_def del: to_ranges_eq_Nil)
  qed
  obtain S0 where S0: "dedicated0 = set_ranges S0" "shared0 = set_ranges (C - S0)" "S0 \<subseteq> C"
      "py_len S0 = count_target C cnt" "S0 \<noteq> {}"
    using pinned_exact [OF C Cne calc] by blast
  have ids0: "cpu_ids S0" by (rule cpu_ids_subset [OF C S0(3)])
  then have s0: "selected0 = S0" using sel0 S0(1) by (simp add: ranges.dec_enc)
  show t: "target = count_target C cnt" using S0(4) s0 target by (simp add: count_target_def)
  show sub: "S \<subseteq> C" and len: "py_len S = target" using val by (auto simp: validate_selection_Inr)
  show ids: "cpu_ids S" by (rule cpu_ids_subset [OF C sub])
  show texts: "texts = (set_ranges (C - S), set_ranges S)" using pick S0(1,2) s0 by (auto split: if_splits)
  then show "parse_cpu_ranges (snd texts) = Inr S" using ids by (simp add: ranges.dec_enc)
  have "0 < py_len S0" using S0(5) ids0 py_len_zero_iff py_len_nonneg by (metis cpu_ids_finite order_le_less)
  then show "S \<noteq> {}" using S0(4) t len by auto
  show "own \<subseteq> S" if np: "policy = NON_PREEMPTIVE" and free: "own \<subseteq> C" and le: "py_len own \<le> py_len S"
  proof -
    have "stable_with (select_numa_cpus_smt_aware h) own C target = Inr S" using pick np by auto
    moreover have "target \<le> py_len C" using len py_len_mono [OF fin sub] by simp
    ultimately show ?thesis
      using smt.stable_keeps_own [OF fin] le len free by (metis inf.absorb_iff1)
  qed
qed

lemma allocate_count_abs:
  assumes wf: "wf_ledger db" and E: "parse_cpu_ranges eligible = Inr E"
    and ok: "allocate_count h check s cnt eligible requested pool db = Inr ((shared, dedicated), db')"
  obtains S policy where "effective_policy db s requested = Inr policy"
    and "ensure_service_pool db s pool = Inr ()"
    and "owned_by db s \<subseteq> E" and "check S = Inr ()"
    and "dedicated = set_ranges S" and "shared = set_ranges (E - foreign_claims db s - S)"
    and "cpu_ids S" and "S \<noteq> {}" and "S \<subseteq> E - foreign_claims db s"
    and "py_len S = count_target (E - foreign_claims db s) cnt"
    and "policy = NON_PREEMPTIVE \<Longrightarrow> py_len (owned_by db s) \<le> py_len S \<Longrightarrow> owned_by db s \<subseteq> S"
    and "wf_ledger db'" and "abs_ledger db' = record_claim s S {} policy pool (abs_ledger db)"
proof -
  let ?C = "E - foreign_claims db s"
  have C: "cpu_ids ?C" using parse_cpu_ranges_ids [OF E] by blast
  obtain policy S target where pol: "effective_policy db s requested = Inr policy"
    and pool: "ensure_service_pool db s pool = Inr ()" and off: "check_offline_claims db s E = Inr ()"
    and sel: "count_selection h policy (owned_by db s) ?C cnt = Inr ((shared, dedicated), S, target)"
    and val: "validate_selection S ?C target = Inr ()" and chk: "check S = Inr ()"
    and alloc: "allocate_cores s dedicated (Some policy) pool db = Inr db'"
    using ok unfolding allocate_count_selects [OF wf E] by (auto simp del: validate_guards)
  note exact = count_selection_exact [OF C sel val]
  have own: "owned_by db s \<subseteq> E" using off wf by (auto simp: check_offline_claims_def)
  then have free: "owned_by db s \<subseteq> ?C" unfolding allocated_split [OF wf, symmetric] by blast
  obtain p where p: "effective_policy db s (Some policy) = Inr p" "wf_ledger db'"
      "abs_ledger db' = record_claim s S {} p pool (abs_ledger db)"
    using allocate_cores_abs [OF wf alloc _ exact(4)] exact(7) by (metis snd_conv)
  then have "p = policy" by (simp add: effective_policy_Inr)
  then show thesis
    using that [OF pol pool own chk _ _ exact(3,4,2) _ _ p(2)] exact(1,5,6,8) free p(3) by auto
qed

section \<open>NUMA allocation\<close>

text \<open>What a foreign owner keeps from a requester with this policy in this pool.\<close>

definition unavailable_to :: "adb \<Rightarrow> preemption_policy \<Rightarrow> cpu_pool_name \<Rightarrow> string \<Rightarrow> int set" where
  "unavailable_to db policy pool t =
     (if service_pool db t \<noteq> pool \<or> policy = NON_PREEMPTIVE \<or>
         dict_get (preemption_policies db) t LEGACY = NON_PREEMPTIVE
      then owned_by db t else explicit_by db t)"

definition numa_candidates ::
  "host \<Rightarrow> adb \<Rightarrow> string \<Rightarrow> int \<Rightarrow> int set \<Rightarrow> preemption_policy \<Rightarrow> cpu_pool_name \<Rightarrow> int set" where
  "numa_candidates h db s node eligible policy pool =
     numa_node_set h node \<inter> eligible -
       \<Union> (unavailable_to db policy pool ` (set (dict_keys (allocations db)) - {s}))"

lemma owner_unavailable_fold:
  assumes "wf_ledger db"
  shows "foldE (owner_unavailable db s policy pool) xs U =
    Inr (U \<union> \<Union> (unavailable_to db policy pool ` (set (dict_keys xs) - {s})))"
proof (induction xs arbitrary: U)
  case (Cons x xs)
  have "owner_unavailable db s policy pool x U =
      Inr (if fst x = s then U else U \<union> unavailable_to db policy pool (fst x))"
    using assms by (simp add: owner_unavailable_def unavailable_to_def Let_def)
  moreover have "set (dict_keys (x # xs)) - {s} =
      (if fst x = s then set (dict_keys xs) - {s} else insert (fst x) (set (dict_keys xs) - {s}))"
    by auto
  ultimately show ?case using Cons by (simp add: Un_assoc del: list.set_map list.map)
qed simp

lemma allocatable_wf:
  assumes "wf_ledger db" "cpu_ids eligible" "effective_policy db s requested = Inr policy"
    and "get_allocatable_numa_cpus h db s node eligible requested pool = Inr (candidates, rejected)"
  shows "candidates = numa_candidates h db s node eligible policy pool"
proof -
  obtain N where "get_cpus_in_numa_node h node (set_ranges eligible) = Inr N"
    "candidates = N - \<Union> (unavailable_to db policy pool ` (set (dict_keys (allocations db)) - {s}))"
    using assms(3,4) by (auto simp: get_allocatable_numa_cpus_def owner_unavailable_fold [OF assms(1)]
        simp del: list.set_map)
  then show ?thesis
    using get_cpus_in_numa_node_Inr ranges.dec_enc [OF assms(2)] by (simp add: numa_candidates_def)
qed

text \<open>The selection of the code.\<close>

definition numa_selection :: "host \<Rightarrow> preemption_policy \<Rightarrow> int set \<Rightarrow> int set \<Rightarrow> int \<Rightarrow> int set result" where
  "numa_selection h policy own C n =
     (if policy = NON_PREEMPTIVE then stable_with (select_numa_cpus_smt_aware h) own C n
      else select_numa_cpus_smt_aware h C n)"

text \<open>The steps of a grant.\<close>

lemma allocate_numa_steps:
  assumes wf: "wf_ledger db" and el: "cpu_ids eligible" and n: "0 < n"
    and run: "allocate_numa_cores h check s node n requested pool eligible db = Inr ((cores, rejected), db')"
  obtains (granted) policy S nodes where "effective_policy db s requested = Inr policy"
    and "ensure_service_pool db s pool = Inr ()" and "get_numa_node_cpus h = Inr nodes"
    and "numa_selection h policy (owned_by db s) (numa_candidates h db s node eligible policy pool) n = Inr S"
    and "validate_selection S (numa_candidates h db s node eligible policy pool) n = Inr ()"
    and "apply_numa_explicit_allocation h check s node S (Some policy) pool eligible db = Inr db'"
    and "cores = set_ranges S" "rejected = []"
  | (short) policy where "effective_policy db s requested = Inr policy" and "cores = []" and "db' = db"
    and "py_len (numa_candidates h db s node eligible policy pool) < n"
proof -
  obtain policy candidates rej where
    pol: "effective_policy db s requested = Inr policy"
    and pool: "ensure_service_pool db s pool = Inr ()"
    and cand: "get_allocatable_numa_cpus h db s node eligible (Some policy) pool = Inr (candidates, rej)"
    and rest: "(if py_len candidates < n then Inr (([], set_ranges rej), db)
       else bindE (if policy = NON_PREEMPTIVE then select_stable h db s candidates n
                   else select_numa_cpus_smt_aware h candidates n) (\<lambda>selected.
         bindE (validate_selection selected candidates n) (\<lambda>_.
         bindE (apply_numa_explicit_allocation h check s node selected (Some policy) pool eligible db) (\<lambda>db'.
           Inr ((set_ranges selected, []), db'))))) = Inr ((cores, rejected), db')"
    using run n unfolding allocate_numa_cores_def by (auto split del: if_split)
  have np: "effective_policy db s (Some policy) = Inr policy" using pol by (auto simp: effective_policy_Inr)
  have C: "candidates = numa_candidates h db s node eligible policy pool"
    using allocatable_wf [OF wf el np cand] .
  obtain nodes where nodes: "get_numa_node_cpus h = Inr nodes"
    using cand by (auto simp: get_allocatable_numa_cpus_def get_cpus_in_numa_node_def)
  have sel: "(if policy = NON_PREEMPTIVE then select_stable h db s candidates n
      else select_numa_cpus_smt_aware h candidates n) = numa_selection h policy (owned_by db s) candidates n"
    by (simp add: numa_selection_def select_stable_def wf)
  show thesis
    using rest [unfolded sel, unfolded C] granted [OF pol pool nodes] short [OF pol]
    by (auto split: if_splits simp del: validate_guards)
qed

text \<open>
  A NUMA allocation that returns CPUs: exactly the requested number, from the node's eligible
  CPUs, accepted by the final online check; foreign owners lose at most CPUs they may lose.
\<close>

lemma allocate_numa_abs:
  assumes wf: "wf_ledger db" and el: "cpu_ids eligible" and n: "0 < n"
    and ok: "allocate_numa_cores h check s node n requested pool eligible db = Inr ((cores, rejected), db')"
  obtains (granted) S policy where "effective_policy db s requested = Inr policy"
    and "ensure_service_pool db s pool = Inr ()" and "owned_by db s \<subseteq> eligible"
    and "check S = Inr ()" and "cores = set_ranges S" and "cpu_ids S" and "py_len S = n"
    and "S \<subseteq> numa_candidates h db s node eligible policy pool"
    and "\<And>t. t \<noteq> s \<Longrightarrow> owned_by db t \<inter> S \<noteq> {} \<Longrightarrow> reclaimable db t (owned_by db t \<inter> S) policy pool"
    and "wf_ledger db'"
    and "abs_ledger db' = numa_grant s (numa_node_set h node \<inter> owned_by db s) S policy pool (abs_ledger db)"
  | (short) policy where "effective_policy db s requested = Inr policy" and "cores = []" and "db' = db"
    and "py_len (numa_candidates h db s node eligible policy pool) < n"
proof (rule allocate_numa_steps [OF wf el n ok])
  fix policy S nodes
  assume pol: "effective_policy db s requested = Inr policy" and pool: "ensure_service_pool db s pool = Inr ()"
    and val: "validate_selection S (numa_candidates h db s node eligible policy pool) n = Inr ()"
    and ap: "apply_numa_explicit_allocation h check s node S (Some policy) pool eligible db = Inr db'"
    and cores: "cores = set_ranges S"
  have S: "py_len S = n" "S \<subseteq> numa_candidates h db s node eligible policy pool"
    using val by (auto simp: validate_selection_Inr)
  then have "S \<subseteq> eligible" by (auto simp: numa_candidates_def)
  then have ids: "cpu_ids S" by (rule cpu_ids_subset [OF el])
  have np: "effective_policy db s (Some policy) = Inr policy" using pol by (auto simp: effective_policy_Inr)
  have "S \<noteq> {}" using S(1) n by auto
  then show thesis
    using apply_numa_abs [OF wf el _ ap] granted [OF pol pool _ _ cores ids S] np by (metis sum.inject(2))
qed (rule short)

lemma numa_release_abs:
  assumes wf: "wf_ledger db"
    and ok: "allocate_numa_cores h check s node (- 1) requested pool eligible db = Inr (r, db')"
  shows "r = ([], [])" and "wf_ledger db'"
    and "abs_ledger db' = subtract_claim s (numa_node_set h node \<inter> owned_by db s) (abs_ledger db)"
proof -
  obtain X where X: "get_cpus_in_numa_node h node (dict_get (allocations db) s []) = Inr X"
    "subtract_cpus_from_service s X None None ISOLATED db = Inr db'" and r: "r = ([], [])"
    using ok unfolding allocate_numa_cores_def by auto
  have "parse_cpu_ranges (dict_get (allocations db) s []) = Inr (owned_by db s)"
    using repr_readable(1) [OF wf_ledgerD(1) [OF wf]] ranges.dec_dict_get by blast
  from get_cpus_in_numa_node_Inr [OF X(1) this]
  show "abs_ledger db' = subtract_claim s (numa_node_set h node \<inter> owned_by db s) (abs_ledger db)"
    using subtract_abs(2) [OF wf X(2)] by simp
  show "r = ([], [])" using r .
  show "wf_ledger db'" using subtract_abs(1) [OF wf X(2)] .
qed

lemma allocate_numa_zero:
  "allocate_numa_cores h check s node 0 requested pool eligible db = Inr (r, db') \<Longrightarrow>
   r = ([], []) \<and> db' = db"
  by (auto simp: allocate_numa_cores_def)

lemma allocate_numa_negative:
  "n < - 1 \<Longrightarrow> \<exists>e. allocate_numa_cores h check s node n requested pool eligible db = Inl e"
  by (auto simp: allocate_numa_cores_def bindE_eq_Inl ensure_service_pool_def raise_if_def)

section \<open>Claimed CPUs\<close>

lemma claim_text:
  assumes "wf_ledger db" "(name, cores) \<in> set (allocations db)"
  shows "parse_cpu_ranges cores = Inr (owned_by db name)"
  using wf_lookup(1) [OF assms(1)] assms(2) repr_okD(1) [OF wf_ledgerD(1) [OF assms(1)]]
  by (metis map_of_is_SomeI table_ok_def)

lemma claimed_cpus_wf:
  assumes "wf_ledger db"
  shows "get_claimed_cpus db None = Inr (allocated_cpus db)"
    "get_claimed_cpus db (Some pool) = Inr (\<Union> (owned_by db ` {s. service_pool db s = pool}))"
proof -
  have claimed: "get_claimed_cpus db p = Inr (\<Union> (owned_by db ` {s. dict_has (allocations db) s \<and>
      (p = None \<or> Some (service_pool db s) = p)}))" for p
  proof -
    let ?es = "List.filter (\<lambda>(name, cores). p = None \<or> Some (service_pool db name) = p) (allocations db)"
    have "mapE (\<lambda>(name, cores). parse_cpu_ranges cores) ?es = Inr (List.map (\<lambda>(name, cores). owned_by db name) ?es)"
      by (rule mapE_Inr) (use claim_text [OF assms] in auto)
    moreover have "set (List.map (\<lambda>(name, cores). owned_by db name) ?es) =
        owned_by db ` {s. dict_has (allocations db) s \<and> (p = None \<or> Some (service_pool db s) = p)}"
      by (force simp: dict_has_iff_keys)
    ultimately show ?thesis by (simp add: get_claimed_cpus_def)
  qed
  have absent: "owned_by db s = {}" if "\<not> dict_has (allocations db) s" for s
    by (rule unowned_absent(1) [OF wf_ledgerD(1) [OF assms] that])
  have all: "allocated_cpus db = (\<Union>s. owned_by db s)"
    by (rule table_ok_union [OF repr_okD(1) [OF wf_ledgerD(1) [OF assms]]])
  show "get_claimed_cpus db None = Inr (allocated_cpus db)"
    "get_claimed_cpus db (Some pool) = Inr (\<Union> (owned_by db ` {s. service_pool db s = pool}))"
    unfolding claimed all using absent by (auto; blast)+
qed

end
