(* ===== verification/Json_Values.thy ===== *)
theory Json_Values
  imports Py_Text "HOL-Library.Multiset" "HOL-Library.List_Lexorder" "HOL-Library.Char_ord"
begin

text \<open>
  JSON values as Python's \<open>json\<close> module hands them to the code: \<open>str(v)\<close> of a value, and what
  a value looks like after \<open>json.dump(..., sort_keys=True)\<close> and \<open>json.load\<close>. A number that is not
  an integer is kept as its text.
\<close>

datatype json =
    JNull
  | JBool bool
  | JInt int
  | JReal string
  | JStr string
  | JArr "json list"
  | JObj "(string \<times> json) list"

text \<open>\<open>repr(v)\<close> and \<open>str(v)\<close>.\<close>

fun json_repr :: "json \<Rightarrow> string"
  and json_reprs :: "json list \<Rightarrow> string list"
  and json_item_reprs :: "(string \<times> json) list \<Rightarrow> string list" where
  "json_repr JNull = ''None''"
| "json_repr (JBool b) = (if b then ''True'' else ''False'')"
| "json_repr (JInt n) = str_int n"
| "json_repr (JReal t) = t"
| "json_repr (JStr s) = py_repr s"
| "json_repr (JArr vs) = ''['' @ join '', '' (json_reprs vs) @ '']''"
| "json_repr (JObj items) = ''{'' @ join '', '' (json_item_reprs items) @ ''}''"
| "json_reprs [] = []"
| "json_reprs (v # vs) = json_repr v # json_reprs vs"
| "json_item_reprs [] = []"
| "json_item_reprs ((k, v) # items) = (py_repr k @ '': '' @ json_repr v) # json_item_reprs items"

definition json_str :: "json \<Rightarrow> string" where
  "json_str v = (case v of JStr s \<Rightarrow> s | _ \<Rightarrow> json_repr v)"

lemma json_str_JStr [simp]: "json_str (JStr s) = s"
  by (simp add: json_str_def)

text \<open>Dumping with sorted keys and loading back.\<close>

fun json_sort :: "json \<Rightarrow> json"
  and json_sort_values :: "json list \<Rightarrow> json list"
  and json_sort_items :: "(string \<times> json) list \<Rightarrow> (string \<times> json) list" where
  "json_sort JNull = JNull"
| "json_sort (JBool b) = JBool b"
| "json_sort (JInt n) = JInt n"
| "json_sort (JReal t) = JReal t"
| "json_sort (JStr s) = JStr s"
| "json_sort (JArr vs) = JArr (json_sort_values vs)"
| "json_sort (JObj items) = JObj (sort_key fst (json_sort_items items))"
| "json_sort_values [] = []"
| "json_sort_values (v # vs) = json_sort v # json_sort_values vs"
| "json_sort_items [] = []"
| "json_sort_items ((k, v) # items) = (k, json_sort v) # json_sort_items items"

definition dump_load :: "(string, json) dict \<Rightarrow> (string, json) dict" where
  "dump_load d = sort_key fst (json_sort_items d)"

lemma json_sort_JObj: "json_sort (JObj d) = JObj (dump_load d)"
  by (simp add: dump_load_def)

lemma json_sort_items_map: "json_sort_items d = List.map (\<lambda>(k, v). (k, json_sort v)) d"
  by (induction d) auto

lemma json_sort_items_keys [simp]: "List.map fst (json_sort_items d) = List.map fst d"
  by (induction d) auto

lemma dict_ok_sort_key [simp]: "dict_ok (sort_key fst d) \<longleftrightarrow> dict_ok d"
  by (metis mset_map mset_sort mset_eq_imp_distinct_iff)

lemma map_of_sort_key: "dict_ok d \<Longrightarrow> map_of (sort_key fst d) = map_of d"
  using map_of_inject_set [of "sort_key fst d" d] by simp

lemma map_of_json_sort_items: "map_of (json_sort_items d) k = map_option json_sort (map_of d k)"
  by (induction d) auto

lemma map_of_dump_load: "dict_ok d \<Longrightarrow> map_of (dump_load d) k = map_option json_sort (map_of d k)"
  by (simp add: dump_load_def map_of_sort_key map_of_json_sort_items)

lemma dict_ok_dump_load: "dict_ok (dump_load d) \<longleftrightarrow> dict_ok d"
  by (simp add: dump_load_def)

lemma set_dump_load: "set (dump_load d) = set (json_sort_items d)"
  by (simp add: dump_load_def)

text \<open>Mapping the values commutes with sorting; a dictionary of strings only changes its order.\<close>

lemma sort_map_items:
  assumes "\<And>x. fst (h x) = fst x"
  shows "sort_key fst (List.map h d) = List.map h (sort_key fst d)"
proof -
  have "insort_key fst (h x) (List.map h e) = List.map h (insort_key fst x e)" for x e
    by (induction e) (simp_all add: assms)
  then show ?thesis by (induction d) simp_all
qed

lemma json_sort_items_strings:
  "json_sort_items (List.map (\<lambda>(k, v). (k, JStr (f v))) d) = List.map (\<lambda>(k, v). (k, JStr (f v))) d"
  by (induction d) auto

text \<open>In a loaded document no object has a key twice.\<close>

fun json_ok :: "json \<Rightarrow> bool" where
  "json_ok (JArr vs) \<longleftrightarrow> (\<forall>v \<in> set vs. json_ok v)"
| "json_ok (JObj items) \<longleftrightarrow> dict_ok items \<and> (\<forall>kv \<in> set items. json_ok (snd kv))"
| "json_ok v \<longleftrightarrow> True"

definition doc_ok :: "(string, json) dict \<Rightarrow> bool" where
  "doc_ok d \<longleftrightarrow> json_ok (JObj d)"

lemma doc_ok_Nil [simp]: "doc_ok []"
  by (simp add: doc_ok_def)

lemma doc_ok_dict: "doc_ok d \<Longrightarrow> dict_ok d"
  by (simp add: doc_ok_def)

lemma doc_ok_member: "doc_ok d \<Longrightarrow> map_of d k = Some v \<Longrightarrow> json_ok v"
  by (auto simp: doc_ok_def dest!: map_of_SomeD)

lemma doc_ok_set: "doc_ok d \<Longrightarrow> json_ok v \<Longrightarrow> doc_ok (dict_set k v d)"
  using set_dict_set [of k v d] unfolding doc_ok_def json_ok.simps
  by (intro conjI ballI dict_ok_set) auto

lemma json_ok_sort:
  "json_ok v \<Longrightarrow> json_ok (json_sort v)"
  "(\<forall>v \<in> set vs. json_ok v) \<Longrightarrow> (\<forall>v \<in> set (json_sort_values vs). json_ok v)"
  "(\<forall>kv \<in> set d. json_ok (snd kv)) \<Longrightarrow> (\<forall>kv \<in> set (json_sort_items d). json_ok (snd kv))"
  by (induction v and vs and d rule: json_sort_json_sort_values_json_sort_items.induct) auto

lemma doc_ok_dump_load: "doc_ok d \<Longrightarrow> doc_ok (dump_load d)"
  using json_ok_sort(1) [of "JObj d"] by (simp add: doc_ok_def dump_load_def)

text \<open>Dumping and loading a loaded document changes nothing more.\<close>

lemma sort_key_sorted [simp]: "sort_key fst (sort_key fst d) = sort_key fst (d :: (string \<times> 'v) list)"
  by (intro sort_key_id_if_sorted) simp

lemma json_sort_idem:
  "json_sort (json_sort v) = json_sort v"
  "json_sort_values (json_sort_values vs) = json_sort_values vs"
  "json_sort_items (json_sort_items d) = json_sort_items d"
proof (induction v and vs and d rule: json_sort_json_sort_values_json_sort_items.induct)
  case (7 items)
  have commute: "json_sort_items (sort_key fst e) = sort_key fst (json_sort_items e)" for e
    unfolding json_sort_items_map by (rule sort_map_items [symmetric]) auto
  show ?case using 7 by (simp add: commute)
qed simp_all

lemma dump_load_idem: "dump_load (dump_load d) = dump_load d"
  using json_sort_idem(1) [of "JObj d"] by (simp add: json_sort_JObj del: json_sort.simps(7))

end
