(* ===== verification/Store_Io.thy ===== *)
theory Store_Io
  imports Prelude Json_Values
begin

text \<open>
  The world the state store runs in: the state file and the lock file as the running system sees
  them, what a loss of power may leave of their contents and of their directory entries, the
  temporary file of a write, the in-process latch, and a list of fates that decides for each
  system call whether it takes effect, fails, or the process dies before it.
  Computations over it, their sequencing, \<open>try\<close> and \<open>finally\<close>, and the rules that give the
  condition under which a computation meets its postconditions whatever the fates are.
\<close>

section \<open>The state of the store\<close>

datatype disk_file = Missing | Garbage | Json json

datatype fate = Done | Fails | Dies

text \<open>
  A file is a directory entry and the contents it names, and each becomes durable on its own. Of the
  state file: what the running system reads, what a loss of power may leave of these contents
  (\<open>maybe_data\<close>), and what it may leave when the directory still has an earlier entry
  (\<open>maybe_entries\<close>). Of the lock file: its bytes, what may be left of them, and whether its entry is
  durable. Of the temporary file of a write: whether it exists, its contents and what may be left of
  them. \<open>Missing\<close> is no file, and \<open>Garbage\<close> every content that is not JSON: an empty file, a text
  written in part.
\<close>

record store =
  state_path :: string
  state_file :: disk_file
  maybe_data :: "disk_file list"
  maybe_entries :: "disk_file list"
  lock_bytes :: string
  maybe_lock_data :: "string list"
  lock_linked :: bool
  latch :: bool
  lock_held :: bool
  temp_present :: bool
  temp_file :: disk_file
  maybe_temp :: "disk_file list"
  fates :: "fate list"

text \<open>What a loss of power may leave of the state file, and of the lock file: without a durable entry
  there is no lock file, and the next process creates an empty one.\<close>

definition maybe_files :: "store \<Rightarrow> disk_file list" where
  "maybe_files s = maybe_data s @ maybe_entries s"

definition maybe_locks :: "store \<Rightarrow> string list" where
  "maybe_locks s = maybe_lock_data s @ (if lock_linked s then [] else [[]])"

lemma maybe_files_steps [simp]:
  "maybe_files (s\<lparr>fates := fs\<rparr>) = maybe_files s" "maybe_files (s\<lparr>lock_held := b\<rparr>) = maybe_files s"
  "maybe_files (s\<lparr>latch := b\<rparr>) = maybe_files s" "maybe_files (s\<lparr>temp_present := b\<rparr>) = maybe_files s"
  "maybe_files (s\<lparr>temp_file := f\<rparr>) = maybe_files s" "maybe_files (s\<lparr>maybe_temp := ts\<rparr>) = maybe_files s"
  "maybe_files (s\<lparr>lock_bytes := l\<rparr>) = maybe_files s" "maybe_files (s\<lparr>maybe_lock_data := ls\<rparr>) = maybe_files s"
  "maybe_files (s\<lparr>lock_linked := b\<rparr>) = maybe_files s" "maybe_files (s\<lparr>state_file := f\<rparr>) = maybe_files s"
  by (simp_all add: maybe_files_def)

lemma maybe_locks_steps [simp]:
  "maybe_locks (s\<lparr>fates := fs\<rparr>) = maybe_locks s" "maybe_locks (s\<lparr>lock_held := b\<rparr>) = maybe_locks s"
  "maybe_locks (s\<lparr>latch := b\<rparr>) = maybe_locks s" "maybe_locks (s\<lparr>temp_present := b\<rparr>) = maybe_locks s"
  "maybe_locks (s\<lparr>temp_file := f\<rparr>) = maybe_locks s" "maybe_locks (s\<lparr>maybe_temp := ts\<rparr>) = maybe_locks s"
  "maybe_locks (s\<lparr>lock_bytes := l\<rparr>) = maybe_locks s" "maybe_locks (s\<lparr>state_file := f\<rparr>) = maybe_locks s"
  "maybe_locks (s\<lparr>maybe_data := fs'\<rparr>) = maybe_locks s"
  "maybe_locks (s\<lparr>maybe_entries := fs'\<rparr>) = maybe_locks s"
  by (simp_all add: maybe_locks_def)

datatype 'a outcome = Ret 'a | Raise py_error | Crash

type_synonym 'a io = "store \<Rightarrow> 'a outcome \<times> store"

section \<open>Computations\<close>

definition return_io :: "'a \<Rightarrow> 'a io" where
  "return_io x = (\<lambda>s. (Ret x, s))"

definition raise_io :: "py_error \<Rightarrow> 'a io" where
  "raise_io e = (\<lambda>s. (Raise e, s))"

definition bind_io :: "'a io \<Rightarrow> ('a \<Rightarrow> 'b io) \<Rightarrow> 'b io" where
  "bind_io m f = (\<lambda>s. case m s of
     (Ret x, s') \<Rightarrow> f x s' | (Raise e, s') \<Rightarrow> (Raise e, s') | (Crash, s') \<Rightarrow> (Crash, s'))"

definition then_io :: "'a io \<Rightarrow> 'b io \<Rightarrow> 'b io" where
  "then_io m k = bind_io m (\<lambda>_. k)"

text \<open>\<open>try: m except Exception as e: h(e)\<close>. The death of the process is not an exception.\<close>

definition try_io :: "'a io \<Rightarrow> (py_error \<Rightarrow> 'a io) \<Rightarrow> 'a io" where
  "try_io m h = (\<lambda>s. case m s of
     (Ret x, s') \<Rightarrow> (Ret x, s') | (Raise e, s') \<Rightarrow> h e s' | (Crash, s') \<Rightarrow> (Crash, s'))"

text \<open>\<open>try: m finally: c\<close>; an exception of \<open>c\<close> replaces that of \<open>m\<close>.\<close>

definition finally_io :: "'a io \<Rightarrow> unit io \<Rightarrow> 'a io" where
  "finally_io m c = (\<lambda>s. case m s of
     (Ret x, s') \<Rightarrow> then_io c (return_io x) s'
   | (Raise e, s') \<Rightarrow> then_io c (raise_io e) s'
   | (Crash, s') \<Rightarrow> (Crash, s'))"

definition modify_io :: "(store \<Rightarrow> store) \<Rightarrow> unit io" where
  "modify_io f = (\<lambda>s. (Ret (), f s))"

definition with_store :: "(store \<Rightarrow> 'a io) \<Rightarrow> 'a io" where
  "with_store f = (\<lambda>s. f s s)"

definition lift_io :: "'a result \<Rightarrow> 'a io" where
  "lift_io r = (case r of Inl e \<Rightarrow> raise_io e | Inr x \<Rightarrow> return_io x)"

text \<open>A system call with the given effect. An empty list of fates means that nothing fails.\<close>

definition syscall :: "(store \<Rightarrow> store) \<Rightarrow> unit io" where
  "syscall f = (\<lambda>s. case fates s of
     [] \<Rightarrow> (Ret (), f s)
   | fate # rest \<Rightarrow>
       let s' = s\<lparr>fates := rest\<rparr> in
       case fate of
         Done \<Rightarrow> (Ret (), f s')
       | Fails \<Rightarrow> (Raise (OSError ''system call failed''), s')
       | Dies \<Rightarrow> (Crash, s'))"

text \<open>\<open>with open(...)\<close>, or \<open>try ... finally: os.close(fd)\<close>: the descriptor is closed however the body
  ends, and closing can fail too.\<close>

definition closing :: "'a io \<Rightarrow> 'a io" where
  "closing body = finally_io body (syscall (\<lambda>s. s))"

section \<open>Weakest preconditions\<close>

definition wp ::
  "'a io \<Rightarrow> ('a \<Rightarrow> store \<Rightarrow> bool) \<Rightarrow> (py_error \<Rightarrow> store \<Rightarrow> bool) \<Rightarrow> (store \<Rightarrow> bool) \<Rightarrow> store \<Rightarrow> bool"
where
  "wp m Q E C s \<longleftrightarrow> (case m s of
     (Ret x, s') \<Rightarrow> Q x s' | (Raise e, s') \<Rightarrow> E e s' | (Crash, s') \<Rightarrow> C s')"

lemma wp_return [store_simps]: "wp (return_io x) Q E C = Q x"
  by (simp add: fun_eq_iff wp_def return_io_def)

lemma wp_raise [store_simps]: "wp (raise_io e) Q E C = E e"
  by (simp add: fun_eq_iff wp_def raise_io_def)

lemma wp_bind [store_simps]: "wp (bind_io m f) Q E C s \<longleftrightarrow> wp m (\<lambda>x. wp (f x) Q E C) E C s"
  by (auto simp: wp_def bind_io_def split: prod.splits outcome.splits)

lemma wp_then [store_simps]: "wp (then_io m k) Q E C s \<longleftrightarrow> wp m (\<lambda>_. wp k Q E C) E C s"
  by (simp add: then_io_def wp_bind)

lemma wp_try [store_simps]: "wp (try_io m h) Q E C s \<longleftrightarrow> wp m Q (\<lambda>e. wp (h e) Q E C) C s"
  by (auto simp: wp_def try_io_def split: prod.splits outcome.splits)

lemma wp_finally [store_simps]:
  "wp (finally_io m c) Q E C s \<longleftrightarrow>
   wp m (\<lambda>x. wp c (\<lambda>_. Q x) E C) (\<lambda>e. wp c (\<lambda>_. E e) E C) C s"
  by (auto simp: wp_def finally_io_def then_io_def bind_io_def return_io_def raise_io_def
        split: prod.splits outcome.splits)

lemma wp_modify [store_simps]: "wp (modify_io f) Q E C s \<longleftrightarrow> Q () (f s)"
  by (simp add: wp_def modify_io_def)

lemma wp_with_store [store_simps]: "wp (with_store f) Q E C s \<longleftrightarrow> wp (f s) Q E C s"
  by (simp add: wp_def with_store_def)

lemma wp_lift [store_simps]:
  "wp (lift_io r) Q E C s \<longleftrightarrow> (case r of Inl e \<Rightarrow> E e s | Inr x \<Rightarrow> Q x s)"
  by (auto simp: wp_def lift_io_def raise_io_def return_io_def split: sum.splits)

lemma wp_if [store_simps]:
  "wp (if b then m else k) Q E C s \<longleftrightarrow> (if b then wp m Q E C s else wp k Q E C s)"
  by simp

lemma wp_mono:
  assumes "wp m Q E C s"
    and "\<And>x t. Q x t \<Longrightarrow> Q' x t" "\<And>e t. E e t \<Longrightarrow> E' e t" "\<And>t. C t \<Longrightarrow> C' t"
  shows "wp m Q' E' C' s"
  using assms by (auto simp: wp_def split: prod.splits outcome.splits)

lemma wp_conj:
  "wp m Q E C s \<Longrightarrow> wp m Q' E' C' s \<Longrightarrow>
   wp m (\<lambda>x t. Q x t \<and> Q' x t) (\<lambda>e t. E e t \<and> E' e t) (\<lambda>t. C t \<and> C' t) s"
  by (auto simp: wp_def split: prod.splits outcome.splits)

text \<open>Reading a run off its weakest precondition.\<close>

lemma wp_RetD: "wp m Q E C s \<Longrightarrow> m s = (Ret x, t) \<Longrightarrow> Q x t"
  and wp_RaiseD: "wp m Q E C s \<Longrightarrow> m s = (Raise e, t) \<Longrightarrow> E e t"
  and wp_CrashD: "wp m Q E C s \<Longrightarrow> m s = (Crash, t) \<Longrightarrow> C t"
  by (simp_all add: wp_def)

text \<open>A system call has its effect or leaves the store as it was.\<close>

lemma wp_syscall:
  assumes "\<And>fs. Q () (f (s\<lparr>fates := fs\<rparr>))"
    and "\<And>fs. E (OSError ''system call failed'') (s\<lparr>fates := fs\<rparr>)"
    and "\<And>fs. C (s\<lparr>fates := fs\<rparr>)"
  shows "wp (syscall f) Q E C s"
proof (cases "fates s")
  case Nil
  then have same: "s\<lparr>fates := []\<rparr> = s" by (cases s) simp
  show ?thesis using assms(1) [of "[]", unfolded same] Nil by (simp add: wp_def syscall_def)
next
  case (Cons fate rest)
  then show ?thesis using assms [of rest] by (cases fate) (simp_all add: wp_def syscall_def Let_def)
qed

text \<open>A body whose postconditions do not depend on the fates left meets them also with its file closed.\<close>

lemma wp_closing:
  assumes "wp body Q E C s"
    and "\<And>x t fs. Q x t \<Longrightarrow> Q x (t\<lparr>fates := fs\<rparr>)" "\<And>e t fs. E e t \<Longrightarrow> E e (t\<lparr>fates := fs\<rparr>)"
    and "\<And>x t fs. Q x t \<Longrightarrow> E (OSError ''system call failed'') (t\<lparr>fates := fs\<rparr>)"
    and "\<And>e t fs. E e t \<Longrightarrow> E (OSError ''system call failed'') (t\<lparr>fates := fs\<rparr>)"
    and "\<And>x t fs. Q x t \<Longrightarrow> C (t\<lparr>fates := fs\<rparr>)" "\<And>e t fs. E e t \<Longrightarrow> C (t\<lparr>fates := fs\<rparr>)"
  shows "wp (closing body) Q E C s"
  unfolding closing_def wp_finally using assms by (intro wp_mono [OF assms(1)] wp_syscall) auto

text \<open>Without faults a system call has its effect.\<close>

definition fair :: "store \<Rightarrow> bool" where
  "fair s \<longleftrightarrow> (\<forall>f \<in> set (fates s). f = Done)"

lemma wp_syscall_fair:
  assumes "fair s" and "\<And>fs. (\<forall>f \<in> set fs. f = Done) \<Longrightarrow> Q () (f (s\<lparr>fates := fs\<rparr>))"
  shows "wp (syscall f) Q E C s"
proof (cases "fates s")
  case Nil
  then have same: "s\<lparr>fates := []\<rparr> = s" by (cases s) simp
  show ?thesis using assms(2) [of "[]", unfolded same] Nil by (simp add: wp_def syscall_def)
next
  case (Cons fate rest)
  then have "fate = Done" "\<forall>f \<in> set rest. f = Done" using assms(1) by (auto simp: fair_def)
  then show ?thesis using assms(2) [of rest] Cons by (simp add: wp_def syscall_def Let_def)
qed

end
