(* ===== verification/State_Store.thy ===== *)
theory State_Store
  imports Store_Io
begin

text \<open>
  \<open>epa_orchestrator/state_store.py\<close>, class \<open>StateStore\<close>: every operation as the sequence of
  system calls it makes, over the world of \<open>Store_Io\<close>.
\<close>

section \<open>Paths\<close>

text \<open>\<open>os.path.join(a, b)\<close>: an absolute second part replaces the first.\<close>

definition path_join :: "string \<Rightarrow> string \<Rightarrow> string" where
  "path_join a b =
     (if b \<noteq> [] \<and> hd b = CHR ''/'' then b
      else if a = [] \<or> last a = CHR ''/'' then a @ b
      else a @ ''/'' @ b)"

text \<open>The environment, and what \<open>os.path.expanduser("~")\<close> gives.\<close>

definition default_base_dir :: "(string \<Rightarrow> string option) \<Rightarrow> string \<Rightarrow> string" where
  "default_base_dir environ home =
     (case environ ''SNAP_DATA'' of
        Some snap_data \<Rightarrow>
          if snap_data \<noteq> [] then snap_data
          else foldl path_join home [''.local'', ''share'', ''epa-orchestrator'']
      | None \<Rightarrow> foldl path_join home [''.local'', ''share'', ''epa-orchestrator''])"

definition state_file_path :: "(string \<Rightarrow> string option) \<Rightarrow> string \<Rightarrow> string" where
  "state_file_path environ home =
     path_join (path_join (default_base_dir environ home) ''data'') ''state.json''"

definition ensure_dir :: "unit io" where
  "ensure_dir = syscall (\<lambda>s. s)"

section \<open>Locking\<close>

definition release_lock :: "unit io" where
  "release_lock = modify_io (\<lambda>s. s\<lparr>lock_held := False\<rparr>)"

definition locked :: "'a io \<Rightarrow> 'a io" where
  "locked body = finally_io
     (then_io (syscall (\<lambda>s. s))
     (then_io (syscall (\<lambda>s. s\<lparr>lock_held := True\<rparr>))
      body))
     release_lock"

section \<open>The state file\<close>

text \<open>The error of \<open>_read_unlocked\<close>, which covers every exception of opening and parsing.\<close>

definition corrupt_state :: "store \<Rightarrow> py_error" where
  "corrupt_state s = StateCorruptionError (''State file is corrupt or invalid JSON: '' @ state_path s)"

definition parse_state :: "disk_file \<Rightarrow> (string, json) dict result" where
  "parse_state f = (case f of
     Json (JObj obj) \<Rightarrow> Inr obj
   | Json v \<Rightarrow> Inl (ValueError ''State root must be an object'')
   | Garbage \<Rightarrow> Inl (ValueError ''Expecting value'')
   | Missing \<Rightarrow> Inl (OSError ''No such file or directory''))"

definition read_unlocked :: "(string, json) dict io" where
  "read_unlocked = with_store (\<lambda>s.
     if state_file s = Missing then return_io []
     else try_io
       (then_io (syscall (\<lambda>s. s)) (lift_io (parse_state (state_file s))))
       (\<lambda>e. raise_io (corrupt_state s)))"

text \<open>
  \<open>_sync_directory\<close> makes the directory entries durable, of the state file and of the lock file, which
  is open whenever the directory is synced. It says nothing of the contents of the files.
\<close>

definition sync_directory :: "unit io" where
  "sync_directory =
     then_io (syscall (\<lambda>s. s))
     (closing (syscall (\<lambda>s. s\<lparr>maybe_entries := [], lock_linked := True\<rparr>)))"

section \<open>The uncertainty latch\<close>

definition uncertain_mark :: string where
  "uncertain_mark = ''uncertain'' @ [CHR 0x0A]"

text \<open>Writing at the start of a file keeps what lies behind the written bytes.\<close>

definition overwrite :: "string \<Rightarrow> string \<Rightarrow> string" where
  "overwrite new old = new @ drop (length new) old"

definition write_lock :: "(string \<Rightarrow> string) \<Rightarrow> store \<Rightarrow> store" where
  "write_lock f s = s\<lparr>lock_bytes := f (lock_bytes s),
     maybe_lock_data := f (lock_bytes s) # maybe_lock_data s\<rparr>"

definition uncertain_commit :: py_error where
  "uncertain_commit = StateUncertainError ''State commit uncertain; explicit recovery required''"

definition check_health :: "unit io" where
  "check_health = with_store (\<lambda>s.
     if latch s then raise_io uncertain_commit
     else then_io (syscall (\<lambda>s. s))
            (if lock_bytes s \<noteq> [] then raise_io uncertain_commit else return_io ()))"

text \<open>
  The buffered write of the mark: when flushing fails, closing the file tries once more before
  the exception leaves the \<open>with\<close> block.
\<close>

definition write_mark :: "unit io" where
  "write_mark = try_io
     (syscall (write_lock (overwrite uncertain_mark)))
     (\<lambda>e. then_io (syscall (write_lock (overwrite uncertain_mark))) (raise_io e))"

definition sync_lock :: "unit io" where
  "sync_lock = syscall (\<lambda>s. s\<lparr>maybe_lock_data := [lock_bytes s]\<rparr>)"

definition set_uncertain :: "bool \<Rightarrow> unit io" where
  "set_uncertain uncertain =
     then_io (modify_io (\<lambda>s. s\<lparr>latch := True\<rparr>))
     (then_io
       (try_io
         (then_io (syscall (\<lambda>s. s))
         (then_io
           (closing
             (then_io (if uncertain then write_mark else syscall (write_lock (\<lambda>_. [])))
              sync_lock))
          sync_directory))
         (\<lambda>e. then_io (syscall (\<lambda>s. s))
              (then_io (closing (syscall (write_lock (overwrite uncertain_mark))))
               (raise_io e))))
       (if uncertain then return_io () else modify_io (\<lambda>s. s\<lparr>latch := False\<rparr>)))"

section \<open>Atomic replacement\<close>

text \<open>
  The temporary file is created empty; the document is written and flushed; the \<open>fsync\<close> makes its
  contents durable, until then a loss of power may leave any part of them. Closing after a failed
  flush writes once more, to a file that is then removed.
\<close>

definition write_temp :: "(string, json) dict \<Rightarrow> unit io" where
  "write_temp data =
     then_io (syscall (\<lambda>s. s\<lparr>temp_present := True, temp_file := Garbage, maybe_temp := [Garbage]\<rparr>))
     (closing
       (then_io (syscall (\<lambda>s. s\<lparr>temp_file := Json (JObj (dump_load data)),
                                 maybe_temp := Json (JObj (dump_load data)) # maybe_temp s\<rparr>))
        (syscall (\<lambda>s. s\<lparr>maybe_temp := [temp_file s]\<rparr>))))"

text \<open>
  The rename gives the state file the contents of the temporary file, as durable as they are. Until
  the directory is synced a loss of power may also leave the entry of the file that was replaced.
\<close>

definition replace_file :: "unit io" where
  "replace_file = syscall (\<lambda>s.
     s\<lparr>state_file := temp_file s, maybe_data := maybe_temp s,
       maybe_entries := maybe_data s @ maybe_entries s, temp_present := False\<rparr>)"

definition remove_temp :: "unit io" where
  "remove_temp = with_store (\<lambda>s.
     if temp_present s
     then try_io (syscall (\<lambda>s. s\<lparr>temp_present := False\<rparr>)) (\<lambda>e. return_io ())
     else return_io ())"

text \<open>
  \<open>_atomic_write_unlocked\<close>. The three parts are the code before \<open>marked\<close>, between \<open>marked\<close> and
  \<open>replaced\<close>, and after \<open>replaced\<close>: the handler does something else in each. A file a former write
  could not remove is not this write's: \<open>temp_path\<close> starts as \<open>None\<close>.
\<close>

definition atomic_write :: "(string, json) dict \<Rightarrow> unit io" where
  "atomic_write data =
     then_io check_health
     (then_io (modify_io (\<lambda>s. s\<lparr>temp_present := False\<rparr>))
     (finally_io
       (then_io (then_io (write_temp data) (set_uncertain True))
       (then_io (try_io replace_file (\<lambda>e. then_io (set_uncertain False) (raise_io e)))
        (try_io (then_io sync_directory (set_uncertain False))
          (\<lambda>e. raise_io (StateUncertainError
                 ''State commit uncertain; recover storage before mutating'')))))
       remove_temp))"

section \<open>The public operations\<close>

text \<open>\<open>os.fsync\<close> of the state file, opened for reading, makes its contents durable; not its entry.\<close>

definition sync_file :: "unit io" where
  "sync_file = with_store (\<lambda>s.
     if state_file s = Missing then return_io ()
     else then_io (syscall (\<lambda>s. s)) (closing (syscall (\<lambda>s. s\<lparr>maybe_data := [state_file s]\<rparr>))))"

definition recover :: "unit io" where
  "recover = locked
     (then_io read_unlocked
     (then_io sync_file
     (then_io sync_directory
      (set_uncertain False))))"

definition invalid_section :: "string \<Rightarrow> py_error" where
  "invalid_section section_name = StateCorruptionError (''Invalid state section: '' @ section_name)"

definition section_content :: "string \<Rightarrow> (string, json) dict \<Rightarrow> (string, json) dict result" where
  "section_content section_name state =
     (case dict_get state section_name (JObj []) of
        JObj content \<Rightarrow> Inr content | _ \<Rightarrow> Inl (invalid_section section_name))"

text \<open>The stamp every write puts on the document.\<close>

definition stamp :: "string \<Rightarrow> (string, json) dict \<Rightarrow> (string, json) dict" where
  "stamp now state = dict_set ''updated_at'' (JStr now) (dict_setdefault ''version'' (JInt 1) state)"

definition transaction_section ::
  "string \<Rightarrow> ((string, json) dict \<Rightarrow> ((string, json) dict \<times> 'a) result) \<Rightarrow> string \<Rightarrow> 'a io" where
  "transaction_section section_name update now = locked
     (then_io check_health
     (bind_io read_unlocked (\<lambda>state.
      bind_io (lift_io (section_content section_name state)) (\<lambda>content.
      bind_io (lift_io (update content)) (\<lambda>(replacement, outcome).
      then_io (atomic_write (stamp now (dict_set section_name (JObj replacement) state)))
        (return_io outcome))))))"

definition read_all :: "(string, json) dict io" where
  "read_all = locked read_unlocked"

definition write_all :: "(string, json) dict \<Rightarrow> string \<Rightarrow> unit io" where
  "write_all data now = locked (atomic_write (stamp now data))"

definition read_section :: "string \<Rightarrow> (string, json) dict io" where
  "read_section section_name = locked
     (bind_io read_unlocked (\<lambda>state. lift_io (section_content section_name state)))"

definition update_section :: "string \<Rightarrow> (string, json) dict \<Rightarrow> string \<Rightarrow> unit io" where
  "update_section section_name content now =
     transaction_section section_name (\<lambda>current. Inr (content, ())) now"

end
