(* ===== verification/Store_Safety.thy ===== *)
theory Store_Safety
  imports State_Store
begin

text \<open>
  What the state store guarantees whatever system calls fail and wherever the process dies: the
  invariant of the files, the effect of a write, of a failed write and of an interrupted one,
  and the contract of a section as an interface for the databases that keep their state in it.
\<close>

section \<open>The invariant\<close>

definition file_ok :: "disk_file \<Rightarrow> bool" where
  "file_ok f \<longleftrightarrow> (case f of Json j \<Rightarrow> json_ok j | _ \<Rightarrow> True)"

text \<open>
  Whenever a loss of power could leave the lock file empty, it can leave only the state file the
  running system sees: a state whose durability is unknown always has its mark.
\<close>

definition store_ok :: "store \<Rightarrow> bool" where
  "store_ok s \<longleftrightarrow>
     state_file s \<in> set (maybe_data s) \<and>
     (state_file s = Missing \<longrightarrow> set (maybe_data s) = {Missing}) \<and>
     lock_bytes s \<in> set (maybe_lock_data s) \<and>
     ([] \<in> set (maybe_locks s) \<longrightarrow> set (maybe_files s) = {state_file s}) \<and>
     (\<forall>f \<in> set (maybe_files s). file_ok f)"

text \<open>The contents of the state file are durable; and its entry as well.\<close>

definition synced :: "store \<Rightarrow> bool" where
  "synced s \<longleftrightarrow> set (maybe_data s) = {state_file s}"

definition durable :: "store \<Rightarrow> bool" where
  "durable s \<longleftrightarrow> set (maybe_files s) = {state_file s}"

lemma overwrite_mark [simp]:
  "overwrite uncertain_mark old \<noteq> []" "[] \<noteq> overwrite uncertain_mark old"
  by (simp_all add: overwrite_def uncertain_mark_def)

lemma store_ok_steps [simp]:
  "store_ok (s\<lparr>fates := fs\<rparr>) = store_ok s" "store_ok (s\<lparr>lock_held := b\<rparr>) = store_ok s"
  "store_ok (s\<lparr>latch := b\<rparr>) = store_ok s" "store_ok (s\<lparr>temp_present := b\<rparr>) = store_ok s"
  "store_ok (s\<lparr>temp_file := f\<rparr>) = store_ok s" "store_ok (s\<lparr>maybe_temp := ts\<rparr>) = store_ok s"
  by (simp_all add: store_ok_def)

lemma durable_steps [simp]:
  "durable (s\<lparr>fates := fs\<rparr>) = durable s" "durable (s\<lparr>lock_held := b\<rparr>) = durable s"
  "durable (s\<lparr>latch := b\<rparr>) = durable s" "durable (s\<lparr>temp_present := b\<rparr>) = durable s"
  "durable (s\<lparr>temp_file := f\<rparr>) = durable s" "durable (s\<lparr>maybe_temp := ts\<rparr>) = durable s"
  by (simp_all add: durable_def)

lemma store_ok_visible: "store_ok s \<Longrightarrow> state_file s \<in> set (maybe_files s)"
  by (simp add: store_ok_def maybe_files_def)

lemma store_ok_file: "store_ok s \<Longrightarrow> file_ok (state_file s)"
  using store_ok_visible [of s] by (auto simp: store_ok_def)

lemma durable_synced: "store_ok s \<Longrightarrow> durable s \<Longrightarrow> synced s"
  by (auto simp: store_ok_def durable_def synced_def maybe_files_def)

text \<open>A lock file that reads empty: nothing of the state file is uncertain.\<close>

lemma open_durable: "store_ok s \<Longrightarrow> lock_bytes s = [] \<Longrightarrow> durable s"
  by (auto simp: store_ok_def durable_def maybe_locks_def)

text \<open>
  A sync of the directory: with synced contents the state file is durable after it. If it does not
  return, the entries may have become durable or not.
\<close>

definition synced_entries :: "store \<Rightarrow> store \<Rightarrow> bool" where
  "synced_entries s t \<longleftrightarrow> store_ok t \<and> state_file t = state_file s \<and> maybe_data t = maybe_data s
     \<and> set (maybe_files t) \<subseteq> set (maybe_files s) \<and> latch t = latch s \<and> lock_bytes t = lock_bytes s
     \<and> set (maybe_locks t) \<subseteq> set (maybe_locks s)"

lemma synced_entries_steps:
  assumes "synced_entries s t"
  shows "synced_entries s (t\<lparr>fates := fs\<rparr>)"
    and "synced_entries s (t\<lparr>maybe_entries := [], lock_linked := True\<rparr>)"
  using assms by (auto simp: synced_entries_def store_ok_def maybe_files_def maybe_locks_def)

lemma wp_sync_directory:
  assumes "store_ok s"
  shows "wp sync_directory
    (\<lambda>_ t. synced_entries s t \<and> maybe_entries t = [] \<and> lock_linked t)
    (\<lambda>e t. synced_entries s t) (synced_entries s) s"
proof -
  have start: "synced_entries s s" using assms by (simp add: synced_entries_def)
  have "wp (closing (syscall (\<lambda>s. s\<lparr>maybe_entries := [], lock_linked := True\<rparr>)))
      (\<lambda>_ t. synced_entries s t \<and> maybe_entries t = [] \<and> lock_linked t)
      (\<lambda>e t. synced_entries s t) (synced_entries s) (s\<lparr>fates := fs\<rparr>)" for fs
    by (intro wp_closing wp_syscall conjI synced_entries_steps start) (simp_all add: synced_entries_steps)
  then show ?thesis
    unfolding sync_directory_def wp_then by (intro wp_syscall synced_entries_steps start)
qed

text \<open>
  What setting or clearing the mark keeps: the invariant, the state file and its contents, the
  temporary file, and that nothing but the earlier contents can be left.
\<close>

definition marking :: "store \<Rightarrow> store \<Rightarrow> bool" where
  "marking s t \<longleftrightarrow> store_ok t \<and> state_file t = state_file s \<and> maybe_data t = maybe_data s
     \<and> set (maybe_files t) \<subseteq> set (maybe_files s) \<and> temp_file t = temp_file s
     \<and> maybe_temp t = maybe_temp s \<and> latch t"

lemma marking_steps:
  assumes "marking s t"
  shows "marking s (t\<lparr>fates := fs\<rparr>)"
    and "marking s (write_lock (overwrite uncertain_mark) t)"
    and "durable s \<Longrightarrow> marking s (write_lock (\<lambda>_. []) t)"
    and "marking s (t\<lparr>maybe_lock_data := [lock_bytes t]\<rparr>)"
    and "marking s (t\<lparr>maybe_entries := [], lock_linked := True\<rparr>)"
  using assms
  by (auto simp: marking_def store_ok_def durable_def write_lock_def maybe_files_def maybe_locks_def)

lemma wp_set_mark:
  assumes "marking s t" and "uncertain \<or> durable s"
  shows "wp (if uncertain then write_mark else syscall (write_lock (\<lambda>_. [])))
    (\<lambda>_ u. marking s u \<and>
       lock_bytes u = (if uncertain then overwrite uncertain_mark (lock_bytes t) else []))
    (\<lambda>e u. marking s u) (marking s) t"
proof (cases uncertain)
  case True
  have "wp write_mark
    (\<lambda>_ u. marking s u \<and> lock_bytes u = overwrite uncertain_mark (lock_bytes t))
    (\<lambda>e u. marking s u) (marking s) t"
    unfolding write_mark_def store_simps
    by (intro wp_syscall conjI marking_steps assms) (simp add: write_lock_def)
  with True show ?thesis by simp
next
  case False
  then have "durable s" using assms by simp
  then have "wp (syscall (write_lock (\<lambda>_. []))) (\<lambda>_ u. marking s u \<and> lock_bytes u = [])
      (\<lambda>e u. marking s u) (marking s) t"
    by (intro wp_syscall conjI marking_steps assms) (simp_all add: write_lock_def)
  with False show ?thesis by simp
qed

text \<open>The mark is written, flushed to the disk and its file closed; the file is on the disk after a
  sync of the directory.\<close>

lemma wp_write_synced_mark:
  assumes "marking s t" and "uncertain \<or> durable s"
  shows "wp (closing (then_io (if uncertain then write_mark else syscall (write_lock (\<lambda>_. []))) sync_lock))
    (\<lambda>_ u. marking s u \<and> maybe_lock_data u = [lock_bytes u] \<and>
       lock_bytes u = (if uncertain then overwrite uncertain_mark (lock_bytes t) else []))
    (\<lambda>e u. marking s u) (marking s) t"
proof (rule wp_closing)
  let ?Q = "\<lambda>_ u. marking s u \<and> maybe_lock_data u = [lock_bytes u] \<and>
       lock_bytes u = (if uncertain then overwrite uncertain_mark (lock_bytes t) else [])"
  show "wp (then_io (if uncertain then write_mark else syscall (write_lock (\<lambda>_. []))) sync_lock)
      ?Q (\<lambda>e u. marking s u) (marking s) t"
    unfolding wp_then sync_lock_def
    by (rule wp_mono [OF wp_set_mark [OF assms]])
      (auto intro!: wp_syscall marking_steps)
qed (auto intro: marking_steps)

lemma wp_sync_mark:
  assumes "marking s t" and "maybe_lock_data t = [lock_bytes t]"
  shows "wp sync_directory
    (\<lambda>_ u. marking s u \<and> maybe_entries u = [] \<and> lock_bytes u = lock_bytes t \<and> maybe_locks u = [lock_bytes u])
    (\<lambda>e u. marking s u) (marking s) t"
proof -
  have body: "wp (closing (syscall (\<lambda>s. s\<lparr>maybe_entries := [], lock_linked := True\<rparr>)))
      (\<lambda>_ u. marking s u \<and> maybe_entries u = [] \<and> lock_bytes u = lock_bytes t \<and> maybe_locks u = [lock_bytes u])
      (\<lambda>e u. marking s u) (marking s) (t\<lparr>fates := fs\<rparr>)" for fs
    by (intro wp_closing wp_syscall conjI marking_steps assms)
      (simp_all add: marking_steps maybe_locks_def assms)
  then show ?thesis
    unfolding sync_directory_def wp_then by (intro wp_syscall marking_steps assms)
qed

lemma wp_set_uncertain:
  assumes "store_ok s" "synced s" and "uncertain \<or> durable s"
  shows "wp (set_uncertain uncertain)
    (\<lambda>_ t. store_ok t \<and> state_file t = state_file s \<and> durable t \<and> latch t = uncertain
        \<and> lock_bytes t = (if uncertain then overwrite uncertain_mark (lock_bytes s) else [])
        \<and> maybe_locks t = [lock_bytes t] \<and> temp_file t = temp_file s \<and> maybe_temp t = maybe_temp s)
    (\<lambda>e t. marking s t) (marking s) s"
proof -
  let ?b = "if uncertain then overwrite uncertain_mark (lock_bytes s) else []"
  let ?done = "\<lambda>_ u. marking s u \<and> maybe_entries u = [] \<and> lock_bytes u = ?b \<and> maybe_locks u = [lock_bytes u]"
  let ?mark = "closing (then_io (if uncertain then write_mark else syscall (write_lock (\<lambda>_. []))) sync_lock)"
  have start: "marking s (s\<lparr>latch := True, fates := fs\<rparr>)" for fs
    using assms(1) by (simp add: marking_def)
  have mark: "wp (then_io ?mark sync_directory) ?done (\<lambda>e u. marking s u) (marking s)
      (s\<lparr>latch := True, fates := fs\<rparr>)" for fs
    unfolding wp_then
    by (rule wp_mono [OF wp_write_synced_mark [OF start assms(3)]])
      (auto intro: wp_mono [OF wp_sync_mark])
  have remark: "wp (closing (syscall (write_lock (overwrite uncertain_mark))))
      (\<lambda>_ u. marking s u) (\<lambda>e u. marking s u) (marking s) t" if "marking s t" for t
    by (intro wp_closing wp_syscall marking_steps that)
  have handler: "wp (then_io (syscall (\<lambda>s. s))
        (then_io (closing (syscall (write_lock (overwrite uncertain_mark)))) (raise_io e)))
      ?done (\<lambda>e u. marking s u) (marking s) t" if "marking s t" for t e
    unfolding wp_then wp_raise
    by (intro wp_syscall wp_mono [OF remark] marking_steps that)
  have "wp (try_io (then_io (syscall (\<lambda>s. s)) (then_io ?mark sync_directory))
         (\<lambda>e. then_io (syscall (\<lambda>s. s))
              (then_io (closing (syscall (write_lock (overwrite uncertain_mark)))) (raise_io e))))
     ?done (\<lambda>e u. marking s u) (marking s) (s\<lparr>latch := True\<rparr>)"
    unfolding wp_try wp_then [of "syscall (\<lambda>s. s)" "then_io ?mark _"]
    by (intro wp_syscall wp_mono [OF mark] handler) (auto intro: start handler)
  then show ?thesis
    unfolding set_uncertain_def wp_then [of "modify_io _"] wp_then [of "try_io _ _"] wp_modify
    by (rule wp_mono)
      (use assms(2) in \<open>auto simp: store_simps marking_def durable_def synced_def maybe_files_def\<close>)
qed

section \<open>Replacing the file\<close>

text \<open>The file is as it was; or it is the new one, whose durability may be unknown.\<close>

definition kept :: "store \<Rightarrow> store \<Rightarrow> bool" where
  "kept s t \<longleftrightarrow> store_ok t \<and> state_file t = state_file s \<and> set (maybe_files t) \<subseteq> set (maybe_files s)"

definition replaced :: "(string, json) dict \<Rightarrow> store \<Rightarrow> store \<Rightarrow> bool" where
  "replaced data s t \<longleftrightarrow> store_ok t \<and> state_file t = Json (JObj (dump_load data))
     \<and> set (maybe_files t) \<subseteq> insert (Json (JObj (dump_load data))) (set (maybe_files s))"

definition committed :: "(string, json) dict \<Rightarrow> store \<Rightarrow> bool" where
  "committed data t \<longleftrightarrow> store_ok t \<and> state_file t = Json (JObj (dump_load data)) \<and> durable t
     \<and> \<not> latch t \<and> lock_bytes t = [] \<and> maybe_locks t = [[]]"

lemma kept_steps [simp]:
  "kept s (t\<lparr>fates := fs\<rparr>) = kept s t" "kept s (t\<lparr>temp_present := b\<rparr>) = kept s t"
  "kept s (t\<lparr>lock_held := b\<rparr>) = kept s t" "kept s (t\<lparr>temp_file := f\<rparr>) = kept s t"
  "kept s (t\<lparr>maybe_temp := ts\<rparr>) = kept s t"
  "kept (s\<lparr>fates := fs\<rparr>) t = kept s t" "kept (s\<lparr>lock_held := b\<rparr>) t = kept s t"
  "kept (s\<lparr>temp_present := b\<rparr>) t = kept s t"
  by (simp_all add: kept_def)

lemma replaced_steps [simp]:
  "replaced d s (t\<lparr>fates := fs\<rparr>) = replaced d s t"
  "replaced d s (t\<lparr>temp_present := b\<rparr>) = replaced d s t"
  "replaced d s (t\<lparr>lock_held := b\<rparr>) = replaced d s t"
  "replaced d (s\<lparr>fates := fs\<rparr>) t = replaced d s t"
  "replaced d (s\<lparr>lock_held := b\<rparr>) t = replaced d s t"
  "replaced d (s\<lparr>temp_present := b\<rparr>) t = replaced d s t"
  by (simp_all add: replaced_def)

lemma committed_steps [simp]:
  "committed d (t\<lparr>fates := fs\<rparr>) = committed d t"
  "committed d (t\<lparr>temp_present := b\<rparr>) = committed d t"
  "committed d (t\<lparr>lock_held := b\<rparr>) = committed d t"
  by (simp_all add: committed_def)

lemma kept_refl: "store_ok s \<Longrightarrow> kept s s"
  by (simp add: kept_def)

lemma kept_trans: "kept s t \<Longrightarrow> kept t u \<Longrightarrow> kept s u"
  by (auto simp: kept_def)

lemma marking_kept: "marking s t \<Longrightarrow> kept s t"
  by (simp add: marking_def kept_def)

lemma kept_replaced: "replaced d s t \<Longrightarrow> kept t u \<Longrightarrow> replaced d s u"
  by (auto simp: kept_def replaced_def)

lemma kept_synced: "kept s t \<Longrightarrow> durable s \<Longrightarrow> synced t"
  by (auto simp: kept_def durable_def synced_def store_ok_def maybe_files_def)

lemma kept_durable: "kept s t \<Longrightarrow> durable s \<Longrightarrow> durable t"
  using store_ok_visible [of t] by (auto simp: kept_def durable_def)

text \<open>Up to the mark: the temporary file holds the document, durably.\<close>

definition written :: "(string, json) dict \<Rightarrow> store \<Rightarrow> bool" where
  "written data t \<longleftrightarrow> temp_file t = Json (JObj (dump_load data))
     \<and> maybe_temp t = [Json (JObj (dump_load data))]"

lemma written_steps [simp]: "written data (t\<lparr>fates := fs\<rparr>) = written data t"
  by (simp add: written_def)

lemma wp_write_temp:
  assumes "kept s t"
  shows "wp (write_temp data) (\<lambda>_ u. kept s u \<and> written data u) (\<lambda>e u. kept s u) (kept s) t"
proof -
  have "wp (closing
       (then_io (syscall (\<lambda>s. s\<lparr>temp_file := Json (JObj (dump_load data)),
                                 maybe_temp := Json (JObj (dump_load data)) # maybe_temp s\<rparr>))
        (syscall (\<lambda>s. s\<lparr>maybe_temp := [temp_file s]\<rparr>))))
      (\<lambda>_ u. kept s u \<and> written data u) (\<lambda>e u. kept s u) (kept s) u" if "kept s u" for u
    using that by (intro wp_closing) (auto simp: store_simps written_def intro!: wp_syscall)
  then show ?thesis unfolding write_temp_def wp_then using assms by (intro wp_syscall) simp_all
qed

lemma wp_mark_phase:
  assumes "kept s t" "durable s"
  shows "wp (then_io (write_temp data) (set_uncertain True))
    (\<lambda>_ u. kept s u \<and> written data u \<and> durable u \<and> latch u \<and> [] \<notin> set (maybe_locks u))
    (\<lambda>e u. kept s u) (kept s) t"
  unfolding wp_then
proof (rule wp_mono [OF wp_write_temp [OF assms(1)]])
  fix u assume u: "kept s u \<and> written data u"
  then have ok: "store_ok u" "synced u" using kept_synced [OF _ assms(2)] by (auto simp: kept_def)
  show "wp (set_uncertain True)
      (\<lambda>_ u. kept s u \<and> written data u \<and> durable u \<and> latch u \<and> [] \<notin> set (maybe_locks u))
      (\<lambda>e u. kept s u) (kept s) u"
    using u store_ok_visible [of u] by (intro wp_mono [OF wp_set_uncertain [OF ok]])
      (auto simp: kept_def durable_def marking_def written_def)
qed

text \<open>The replacement itself.\<close>

lemma wp_replace_phase:
  assumes "kept s t" "written data t" "durable t" "latch t" "[] \<notin> set (maybe_locks t)" "doc_ok data"
  shows "wp (try_io replace_file (\<lambda>e. then_io (set_uncertain False) (raise_io e)))
    (\<lambda>_ u. replaced data s u \<and> synced u \<and> latch u) (\<lambda>e u. kept s u) (kept s) t"
  unfolding wp_try wp_then replace_file_def
proof (intro wp_syscall)
  fix fs
  let ?u = "t\<lparr>fates := fs\<rparr>"
  let ?v = "?u\<lparr>state_file := temp_file ?u, maybe_data := maybe_temp ?u,
      maybe_entries := maybe_data ?u @ maybe_entries ?u, temp_present := False\<rparr>"
  have "file_ok (Json (JObj (dump_load data)))"
    using doc_ok_dump_load [OF assms(6)] by (simp add: file_ok_def doc_ok_def)
  then have "store_ok ?v" using assms
    by (auto simp: written_def kept_def store_ok_def maybe_files_def maybe_locks_def)
  then show "replaced data s ?v \<and> synced ?v \<and> latch ?v"
    using assms by (auto simp: replaced_def written_def synced_def kept_def maybe_files_def)
  have ok: "store_ok ?u" "synced ?u"
    using assms durable_synced [of ?u] by (simp_all add: kept_def)
  show "wp (set_uncertain False)
      (\<lambda>_. wp (raise_io (OSError ''system call failed'')) (\<lambda>_ u. replaced data s u \<and> synced u \<and> latch u)
             (\<lambda>e u. kept s u) (kept s))
      (\<lambda>e u. kept s u) (kept s) ?u"
    using assms(1,3) unfolding wp_raise
    by (intro wp_mono [OF wp_set_uncertain [OF ok]])
      (auto simp: kept_def marking_def durable_def)
  show "kept s ?u" using assms by simp
qed

text \<open>Making it durable and clearing the mark.\<close>

lemma wp_settle_phase:
  assumes "replaced data s t" "synced t" "latch t"
  shows "wp (try_io (then_io sync_directory (set_uncertain False)) (\<lambda>e. raise_io e'))
    (\<lambda>_ u. committed data u) (\<lambda>e u. replaced data s u \<and> latch u \<and> e = e') (replaced data s) t"
  unfolding wp_try wp_then
proof (rule wp_mono [OF wp_sync_directory])
  show "store_ok t" using assms by (simp add: replaced_def)
next
  fix u assume u: "synced_entries t u \<and> maybe_entries u = [] \<and> lock_linked u"
  then have r: "replaced data s u" "store_ok u" "synced u" "durable u"
    using assms by (auto simp: synced_entries_def replaced_def synced_def durable_def maybe_files_def)
  then show "wp (set_uncertain False) (\<lambda>_ u. committed data u)
     (\<lambda>e. wp (raise_io e') (\<lambda>_ u. committed data u) (\<lambda>e u. replaced data s u \<and> latch u \<and> e = e')
        (replaced data s))
     (replaced data s) u"
    unfolding wp_raise
    by (intro wp_mono [OF wp_set_uncertain])
      (auto simp: committed_def replaced_def marking_def)
qed (use assms in \<open>auto simp: replaced_def synced_entries_def wp_raise\<close>)

lemma wp_remove_temp:
  assumes "P t" and "\<And>u fs. P u \<Longrightarrow> P (u\<lparr>fates := fs\<rparr>)"
    and "\<And>u. P u \<Longrightarrow> P (u\<lparr>temp_present := False\<rparr>)" and "\<And>u. P u \<Longrightarrow> C u"
  shows "wp remove_temp (\<lambda>_ u. P u) E C t"
  unfolding remove_temp_def store_simps using assms by (auto intro!: wp_syscall)

text \<open>
  A write that returns has replaced the file durably. A write that raises left the file as it
  was, or it replaced the file, raises \<open>StateUncertainError\<close> and leaves the latch set. A write
  that was interrupted left one or the other.
\<close>

definition write_raised :: "(string, json) dict \<Rightarrow> store \<Rightarrow> py_error \<Rightarrow> store \<Rightarrow> bool" where
  "write_raised data s e t \<longleftrightarrow>
     kept s t \<or> replaced data s t \<and> latch t
       \<and> e = StateUncertainError ''State commit uncertain; recover storage before mutating''"

definition write_interrupted :: "(string, json) dict \<Rightarrow> store \<Rightarrow> store \<Rightarrow> bool" where
  "write_interrupted data s t \<longleftrightarrow> kept s t \<or> replaced data s t"

lemma write_raised_steps [simp]:
  "write_raised d s e (t\<lparr>fates := fs\<rparr>) = write_raised d s e t"
  "write_raised d s e (t\<lparr>temp_present := b\<rparr>) = write_raised d s e t"
  "write_raised d s e (t\<lparr>lock_held := b\<rparr>) = write_raised d s e t"
  "write_interrupted d s (t\<lparr>fates := fs\<rparr>) = write_interrupted d s t"
  by (simp_all add: write_raised_def write_interrupted_def)

lemma committed_replaced: "committed d t \<Longrightarrow> replaced d s t"
  by (auto simp: committed_def replaced_def durable_def)

lemma wp_write_phases:
  assumes "kept s t" "durable s" "doc_ok data"
  shows "wp (then_io (then_io (write_temp data) (set_uncertain True))
       (then_io (try_io replace_file (\<lambda>e. then_io (set_uncertain False) (raise_io e)))
        (try_io (then_io sync_directory (set_uncertain False))
          (\<lambda>e. raise_io (StateUncertainError
                 ''State commit uncertain; recover storage before mutating'')))))
    (\<lambda>_ u. committed data u) (write_raised data s) (write_interrupted data s) t"
  unfolding wp_then [of "then_io (write_temp _) _"] wp_then [of "try_io replace_file _"]
  using assms
  by (auto intro!: wp_mono [OF wp_mark_phase] wp_mono [OF wp_replace_phase]
      wp_mono [OF wp_settle_phase] simp: write_raised_def write_interrupted_def)

lemma wp_check_health:
  "wp check_health (\<lambda>_ t. \<not> latch s \<and> lock_bytes s = [] \<and> (\<exists>fs. t = s\<lparr>fates := fs\<rparr>))
     (\<lambda>e t. \<exists>fs. t = s\<lparr>fates := fs\<rparr>) (\<lambda>t. \<exists>fs. t = s\<lparr>fates := fs\<rparr>) s"
proof -
  have "\<exists>fs. s = s\<lparr>fates := fs\<rparr>" by (metis store.surjective store.update_convs(13))
  then show ?thesis unfolding check_health_def store_simps by (auto intro!: wp_syscall)
qed

lemma wp_atomic_write:
  assumes "store_ok s" "doc_ok data"
  shows "wp (atomic_write data)
    (\<lambda>_ t. committed data t \<and> \<not> latch s \<and> lock_bytes s = [])
    (write_raised data s) (write_interrupted data s) s"
  unfolding atomic_write_def wp_then [of check_health] wp_then [of "modify_io _"] wp_modify
proof (rule wp_mono [OF wp_check_health])
  fix t assume t: "\<not> latch s \<and> lock_bytes s = [] \<and> (\<exists>fs. t = s\<lparr>fates := fs\<rparr>)"
  then have k: "kept s (t\<lparr>temp_present := False\<rparr>)" "durable s"
    using kept_refl [OF assms(1)] open_durable [OF assms(1)] by auto
  show "wp (finally_io
       (then_io (then_io (write_temp data) (set_uncertain True))
       (then_io (try_io replace_file (\<lambda>e. then_io (set_uncertain False) (raise_io e)))
        (try_io (then_io sync_directory (set_uncertain False))
          (\<lambda>e. raise_io (StateUncertainError
                 ''State commit uncertain; recover storage before mutating'')))))
       remove_temp)
     (\<lambda>_ t. committed data t \<and> \<not> latch s \<and> lock_bytes s = [])
     (write_raised data s) (write_interrupted data s) (t\<lparr>temp_present := False\<rparr>)"
    unfolding wp_finally
    by (rule wp_mono [OF wp_write_phases [OF k assms(2)]])
      (use t in \<open>auto intro!: wp_remove_temp intro: committed_replaced
         simp: write_interrupted_def write_raised_def\<close>)
qed (use kept_refl [OF assms(1)] in \<open>auto simp: write_raised_def write_interrupted_def\<close>)

end
