(* ===== verification/Store_Sections.thy ===== *)
theory Store_Sections
  imports Store_Safety
begin

text \<open>
  The operations of the store seen by its clients: what \<open>transaction_section\<close>, \<open>read_section\<close>,
  \<open>recover\<close> do to the section a database keeps its state in. The contract of a section is the
  interface \<open>section_store\<close>; it is interpreted for the two sections of the daemon.
\<close>

section \<open>Documents and sections\<close>

type_synonym doc = "(string, json) dict"

definition doc_of :: "disk_file \<Rightarrow> doc option" where
  "doc_of f = (case f of Missing \<Rightarrow> Some [] | Json (JObj d) \<Rightarrow> Some d | _ \<Rightarrow> None)"

definition section_of :: "string \<Rightarrow> disk_file \<Rightarrow> doc option" where
  "section_of section_name f =
     (case doc_of f of
        None \<Rightarrow> None
      | Some d \<Rightarrow> (case section_content section_name d of Inl e \<Rightarrow> None | Inr c \<Rightarrow> Some c))"

lemma parse_state_doc: "f \<noteq> Missing \<Longrightarrow> parse_state f = Inr d \<longleftrightarrow> doc_of f = Some d"
  by (auto simp: parse_state_def doc_of_def split: disk_file.splits json.splits)

lemma doc_of_ok: "file_ok f \<Longrightarrow> doc_of f = Some d \<Longrightarrow> doc_ok d"
  by (auto simp: doc_of_def file_ok_def doc_ok_def split: disk_file.splits json.splits)

lemma section_content_Inr:
  "section_content n d = Inr c \<longleftrightarrow> dict_get d n (JObj []) = JObj c"
  by (auto simp: section_content_def split: json.splits)

lemma section_of_Some:
  "section_of n f = Some c \<longleftrightarrow> (\<exists>d. doc_of f = Some d \<and> section_content n d = Inr c)"
  by (auto simp: section_of_def split: option.splits sum.splits)

lemma section_content_ok: "doc_ok d \<Longrightarrow> section_content n d = Inr c \<Longrightarrow> doc_ok c"
  using doc_ok_member [of d n "JObj c"]
  by (auto simp: section_content_Inr dict_get_def doc_ok_def [of c] split: option.splits)

lemma section_of_ok: "file_ok f \<Longrightarrow> section_of n f = Some c \<Longrightarrow> doc_ok c"
  by (metis section_of_Some doc_of_ok section_content_ok)

lemma stamp_ok: "doc_ok d \<Longrightarrow> doc_ok (stamp now d)"
  by (auto simp: stamp_def dict_setdefault_def intro!: doc_ok_set)

lemma map_of_stamp:
  "n \<noteq> ''updated_at'' \<Longrightarrow> n \<noteq> ''version'' \<Longrightarrow> map_of (stamp now d) n = map_of d n"
  by (simp add: stamp_def dict_setdefault_def)

text \<open>The document a transaction writes.\<close>

definition new_document :: "string \<Rightarrow> string \<Rightarrow> doc \<Rightarrow> doc \<Rightarrow> doc" where
  "new_document now n d r = stamp now (dict_set n (JObj r) d)"

lemma new_document_ok: "doc_ok d \<Longrightarrow> doc_ok r \<Longrightarrow> doc_ok (new_document now n d r)"
  by (auto simp: new_document_def doc_ok_def [of r] intro!: stamp_ok doc_ok_set)

text \<open>The names of sections are not those of the stamp.\<close>

definition section_name_ok :: "string \<Rightarrow> bool" where
  "section_name_ok n \<longleftrightarrow> n \<noteq> ''updated_at'' \<and> n \<noteq> ''version''"

lemma section_of_dumped:
  assumes "doc_ok d"
  shows "section_of n (Json (JObj (dump_load d))) = map_option dump_load (section_of n (Json (JObj d)))"
proof -
  have "map_of (dump_load d) n = map_option json_sort (map_of d n)"
    using assms by (simp add: map_of_dump_load doc_ok_dict)
  then show ?thesis
    by (cases "map_of d n"; cases "the (map_of d n)")
      (simp_all add: section_of_def doc_of_def section_content_def dict_get_def json_sort_JObj
        dump_load_def [of "[]"] del: json_sort.simps(7))
qed

lemma section_of_new_document:
  assumes "doc_ok d" "doc_ok r" "section_name_ok n"
  shows "section_of n (Json (JObj (dump_load (new_document now n d r)))) = Some (dump_load r)"
  using assms
  by (simp add: section_of_dumped new_document_ok)
    (simp add: section_of_def doc_of_def section_content_def dict_get_def new_document_def
      map_of_stamp section_name_ok_def)

lemma section_of_other:
  assumes "doc_ok d" "doc_ok r" "section_name_ok m" "m \<noteq> n"
  shows "section_of m (Json (JObj (dump_load (new_document now n d r))))
    = map_option dump_load (section_of m (Json (JObj d)))"
  using assms
  by (simp add: section_of_dumped new_document_ok)
    (simp add: section_of_def doc_of_def section_content_def dict_get_def new_document_def
      map_of_stamp section_name_ok_def)

section \<open>Running the operations\<close>

definition untouched :: "store \<Rightarrow> store \<Rightarrow> bool" where
  "untouched s t \<longleftrightarrow> (\<exists>fs b. t = s\<lparr>fates := fs, lock_held := b\<rparr>)"

lemma untouched_refl [simp]: "untouched s s"
proof -
  have "s = s\<lparr>fates := fates s, lock_held := lock_held s\<rparr>" by simp
  then show ?thesis unfolding untouched_def by blast
qed

lemma untouched_steps [simp]:
  "untouched s t \<Longrightarrow> untouched s (t\<lparr>fates := fs\<rparr>)"
  "untouched s t \<Longrightarrow> untouched s (t\<lparr>lock_held := b\<rparr>)"
proof -
  assume "untouched s t"
  then obtain fs0 b0 where t: "t = s\<lparr>fates := fs0, lock_held := b0\<rparr>" by (auto simp: untouched_def)
  have "t\<lparr>fates := fs\<rparr> = s\<lparr>fates := fs, lock_held := b0\<rparr>"
    and "t\<lparr>lock_held := b\<rparr> = s\<lparr>fates := fs0, lock_held := b\<rparr>" by (simp_all add: t)
  then show "untouched s (t\<lparr>fates := fs\<rparr>)" "untouched s (t\<lparr>lock_held := b\<rparr>)"
    unfolding untouched_def by blast+
qed

lemma untouched_fields:
  assumes "untouched s t"
  shows "state_file t = state_file s" "maybe_files t = maybe_files s" "latch t = latch s"
    "lock_bytes t = lock_bytes s" "maybe_locks t = maybe_locks s" "store_ok t = store_ok s"
    "kept s t \<longleftrightarrow> store_ok s"
  using assms by (auto simp: untouched_def store_ok_def kept_def)

lemma untouched_kept: "untouched s t \<Longrightarrow> store_ok s \<Longrightarrow> kept s t"
  by (simp add: untouched_fields)

lemma wp_read_unlocked:
  assumes "untouched s t"
  shows "wp read_unlocked (\<lambda>d u. untouched s u \<and> doc_of (state_file s) = Some d)
    (\<lambda>e u. untouched s u \<and> e = corrupt_state t) (untouched s) t"
proof (cases "state_file t = Missing")
  case True
  then show ?thesis using assms untouched_fields [OF assms]
    by (simp add: read_unlocked_def store_simps doc_of_def)
next
  case False
  then show ?thesis
    using assms untouched_fields [OF assms] parse_state_doc [of "state_file s"]
    unfolding read_unlocked_def store_simps
    by (auto intro!: wp_syscall simp: store_simps split: sum.splits)
qed

lemma wp_check_health_untouched:
  assumes "untouched s t"
  shows "wp check_health (\<lambda>_ u. untouched s u \<and> \<not> latch s \<and> lock_bytes s = [])
     (\<lambda>e u. untouched s u) (untouched s) t"
  by (rule wp_mono [OF wp_check_health]) (use assms untouched_fields [OF assms] in auto)

text \<open>The lock is taken before the body and given back after it, unless the process died.\<close>

lemma wp_locked:
  assumes "\<And>t. untouched s t \<Longrightarrow> wp body Q E C t"
    and "\<And>t. untouched s t \<Longrightarrow> E (OSError ''system call failed'') t"
    and "\<And>t. untouched s t \<Longrightarrow> C t"
    and "\<And>x t. Q x t \<Longrightarrow> Q x (t\<lparr>lock_held := False\<rparr>)"
    and "\<And>e t. E e t \<Longrightarrow> E e (t\<lparr>lock_held := False\<rparr>)"
  shows "wp (locked body) (\<lambda>x t. Q x t \<and> \<not> lock_held t) (\<lambda>e t. E e t \<and> \<not> lock_held t) C s"
proof -
  have body: "wp body (\<lambda>x t. Q x (t\<lparr>lock_held := False\<rparr>)) (\<lambda>e t. E e (t\<lparr>lock_held := False\<rparr>)) C t"
    if "untouched s t" for t
    using assms(1) [OF that] by (rule wp_mono) (auto intro: assms)
  show ?thesis
    unfolding locked_def release_lock_def store_simps
    using body by (auto intro!: wp_syscall simp: assms)
qed

text \<open>One transaction on a section.\<close>

definition txn_effect ::
  "string \<Rightarrow> (doc \<Rightarrow> (doc \<times> 'a) result) \<Rightarrow> string \<Rightarrow> store \<Rightarrow> doc \<Rightarrow> 'a \<Rightarrow> bool" where
  "txn_effect n update now s data x \<longleftrightarrow>
     (\<exists>d c r. doc_of (state_file s) = Some d \<and> section_content n d = Inr c
        \<and> update c = Inr (r, x) \<and> data = new_document now n d r)"

text \<open>The update maps the content of the file to a document.\<close>

definition keeps_docs ::
  "(disk_file \<Rightarrow> doc option) \<Rightarrow> store \<Rightarrow> (doc \<Rightarrow> (doc \<times> 'a) result) \<Rightarrow> bool" where
  "keeps_docs content s update \<longleftrightarrow>
     (\<forall>c r x. content (state_file s) = Some c \<longrightarrow> update c = Inr (r, x) \<longrightarrow> doc_ok r)"

lemma keeps_docsD:
  "keeps_docs content s u \<Longrightarrow> content (state_file s) = Some c \<Longrightarrow> u c = Inr (r, x) \<Longrightarrow> doc_ok r"
  by (simp add: keeps_docs_def)

lemma wp_transaction_section:
  assumes ok: "store_ok s" and docs: "keeps_docs (section_of n) s update"
  shows "wp (transaction_section n update now)
    (\<lambda>x t. (\<exists>data. txn_effect n update now s data x \<and> committed data t
        \<and> \<not> latch s \<and> lock_bytes s = []) \<and> \<not> lock_held t)
    (\<lambda>e t. (kept s t \<or> (\<exists>data x. txn_effect n update now s data x \<and> write_raised data s e t))
        \<and> \<not> lock_held t)
    (\<lambda>t. kept s t \<or> (\<exists>data x. txn_effect n update now s data x \<and> write_interrupted data s t)) s"
proof -
  have written: "wp (atomic_write (new_document now n d r))
      (\<lambda>_ t. \<exists>data. txn_effect n update now s data x \<and> committed data t
         \<and> \<not> latch s \<and> lock_bytes s = [])
      (\<lambda>e t. kept s t \<or> (\<exists>data x. txn_effect n update now s data x \<and> write_raised data s e t))
      (\<lambda>t. kept s t \<or> (\<exists>data x. txn_effect n update now s data x \<and> write_interrupted data s t)) t"
    if "untouched s t" "doc_of (state_file s) = Some d" "section_content n d = Inr c"
      "update c = Inr (r, x)" for t d c r x
  proof -
    have "file_ok (state_file s)" by (rule store_ok_file [OF ok])
    then have d: "doc_ok d" using doc_of_ok that(2) by blast
    have "doc_ok r" using keeps_docsD [OF docs _ that(4)] that(2,3) section_of_Some by blast
    then have new: "doc_ok (new_document now n d r)" using d by (rule new_document_ok [rotated])
    have eff: "txn_effect n update now s (new_document now n d r) x"
      using that unfolding txn_effect_def by blast
    have same: "write_raised data t e u = write_raised data s e u"
      "write_interrupted data t u = write_interrupted data s u" for data e u
      using that(1) by (auto simp: untouched_def write_raised_def write_interrupted_def)
    have "store_ok t" using ok untouched_fields [OF that(1)] by simp
    from wp_atomic_write [OF this new] show ?thesis
      by (rule wp_mono) (use eff untouched_fields [OF that(1)] same in auto)
  qed
  let ?Q = "\<lambda>x t. \<exists>data. txn_effect n update now s data x \<and> committed data t
         \<and> \<not> latch s \<and> lock_bytes s = []"
  let ?E = "\<lambda>e t. kept s t \<or> (\<exists>data x. txn_effect n update now s data x \<and> write_raised data s e t)"
  let ?C = "\<lambda>t. kept s t \<or> (\<exists>data x. txn_effect n update now s data x \<and> write_interrupted data s t)"
  let ?rest = "\<lambda>state. bind_io (lift_io (section_content n state)) (\<lambda>content.
      bind_io (lift_io (update content)) (\<lambda>(replacement, outcome).
      then_io (atomic_write (stamp now (dict_set n (JObj replacement) state)))
        (return_io outcome)))"
  have rest: "wp (?rest d) ?Q ?E ?C t" if u: "untouched s t" and d: "doc_of (state_file s) = Some d" for d t
  proof (cases "section_content n d")
    case (Inl e)
    then show ?thesis using untouched_kept [OF u ok] by (simp add: store_simps)
  next
    case (Inr c)
    show ?thesis
    proof (cases "update c")
      case (Inl e)
      then show ?thesis using Inr untouched_kept [OF u ok] by (simp add: store_simps)
    next
      case eff: (Inr rx)
      obtain r x where rx: "rx = (r, x)" by (cases rx)
      have "wp (?rest d) ?Q ?E ?C t \<longleftrightarrow> wp (atomic_write (new_document now n d r)) (\<lambda>_. ?Q x) ?E ?C t"
        by (simp add: store_simps Inr eff rx new_document_def)
      then show ?thesis using written [OF u d Inr] eff rx by simp
    qed
  qed
  have body: "wp (then_io check_health (bind_io read_unlocked ?rest)) ?Q ?E ?C t"
    if "untouched s t" for t
  proof -
    have "wp (bind_io read_unlocked ?rest) ?Q ?E ?C u" if "untouched s u" for u
      unfolding wp_bind [of read_unlocked]
    proof (rule wp_mono [OF wp_read_unlocked [OF that]])
      fix d t assume "untouched s t \<and> doc_of (state_file s) = Some d"
      then show "wp (?rest d) ?Q ?E ?C t" by (elim conjE) (rule rest)
    qed (use untouched_kept ok in blast)+
    then show ?thesis
      unfolding wp_then
      by (intro wp_mono [OF wp_check_health_untouched [OF that]]) (use untouched_kept ok in blast)+
  qed
  have steps: "?Q x t \<Longrightarrow> ?Q x (t\<lparr>lock_held := False\<rparr>)" "?E e t \<Longrightarrow> ?E e (t\<lparr>lock_held := False\<rparr>)" for x e t
    by simp_all
  show ?thesis
    unfolding transaction_section_def
    by (rule wp_locked [OF body _ _ steps]) (use untouched_kept ok in auto)
qed

lemma wp_read_section:
  "wp (read_section n)
    (\<lambda>c t. (untouched s t \<and> section_of n (state_file s) = Some c) \<and> \<not> lock_held t)
    (\<lambda>e t. untouched s t \<and> \<not> lock_held t) (untouched s) s"
proof -
  have "wp (bind_io read_unlocked (\<lambda>state. lift_io (section_content n state)))
      (\<lambda>c t. untouched s t \<and> section_of n (state_file s) = Some c) (\<lambda>e t. untouched s t) (untouched s) t"
    if "untouched s t" for t
    unfolding wp_bind
    by (rule wp_mono [OF wp_read_unlocked [OF that]])
      (auto simp: store_simps section_of_Some split: sum.splits)
  then show ?thesis unfolding read_section_def by (rule wp_locked) simp_all
qed

text \<open>The store refuses writes.\<close>

definition blocked :: "store \<Rightarrow> bool" where
  "blocked s \<longleftrightarrow> latch s \<or> lock_bytes s \<noteq> []"

lemma blocked_steps [simp]:
  "blocked (s\<lparr>fates := fs\<rparr>) = blocked s" "blocked (s\<lparr>lock_held := b\<rparr>) = blocked s"
  by (simp_all add: blocked_def)

definition recovered :: "store \<Rightarrow> store \<Rightarrow> bool" where
  "recovered s t \<longleftrightarrow> kept s t \<and> durable t \<and> \<not> blocked t \<and> maybe_locks t = [[]]"

lemma wp_recover:
  assumes ok: "store_ok s"
  shows "wp recover
    (\<lambda>_ t. (recovered s t \<and> doc_of (state_file s) \<noteq> None) \<and> \<not> lock_held t)
    (\<lambda>e t. (kept s t \<and> (blocked s \<longrightarrow> blocked t)) \<and> \<not> lock_held t) (kept s) s"
proof -
  define settled where "settled = (\<lambda>t. kept s t \<and> (blocked s \<longrightarrow> blocked t))"
  have start: "settled t" if "untouched s t" for t
    using untouched_kept [OF that ok] untouched_fields [OF that] by (simp add: settled_def blocked_def)
  have steps: "settled t \<Longrightarrow> settled (t\<lparr>fates := fs\<rparr>)" "settled t \<Longrightarrow> kept s t"
    "settled t \<Longrightarrow> settled (t\<lparr>lock_held := b\<rparr>)" for t fs b
    by (simp_all add: settled_def)
  have clear: "wp (set_uncertain False) (\<lambda>_ t. recovered s t) (\<lambda>e t. settled t) (kept s) t"
    if "settled t" "durable t" for t
  proof -
    have "store_ok t" "synced t" using that durable_synced [of t] by (simp_all add: settled_def kept_def)
    then show ?thesis using that
      by (intro wp_mono [OF wp_set_uncertain])
        (auto simp: settled_def kept_def marking_def recovered_def blocked_def durable_def)
  qed
  have sync: "wp (then_io sync_directory (set_uncertain False))
      (\<lambda>_ t. recovered s t) (\<lambda>e t. settled t) (kept s) t" if t: "settled t" "synced t" for t
    unfolding wp_then
  proof (rule wp_mono [OF wp_sync_directory])
    show "store_ok t" using t by (simp add: settled_def kept_def)
  next
    fix u assume "synced_entries t u \<and> maybe_entries u = [] \<and> lock_linked u"
    then have "settled u" "durable u"
      using t by (auto simp: synced_entries_def settled_def kept_def durable_def synced_def blocked_def maybe_files_def)
    then show "wp (set_uncertain False) (\<lambda>_ t. recovered s t) (\<lambda>e t. settled t) (kept s) u"
      by (rule clear)
  qed (use t in \<open>auto simp: synced_entries_def settled_def kept_def blocked_def\<close>)
  have flush: "wp sync_file (\<lambda>_ u. settled u \<and> synced u) (\<lambda>e. settled) (kept s) t" if t: "settled t" for t
  proof -
    have put: "settled (u\<lparr>fates := fs, maybe_data := [state_file u]\<rparr>)" if "settled u" for u fs
      using that by (auto simp: settled_def kept_def store_ok_def blocked_def maybe_files_def)
    have "wp (closing (syscall (\<lambda>s. s\<lparr>maybe_data := [state_file s]\<rparr>)))
        (\<lambda>_ u. settled u \<and> synced u) (\<lambda>e. settled) (kept s) u" if "settled u" for u
      using that steps by (intro wp_closing wp_syscall) (auto simp: synced_def intro: put)
    moreover have "synced t" if "state_file t = Missing"
      using t that by (auto simp: settled_def kept_def store_ok_def synced_def)
    ultimately show ?thesis
      unfolding sync_file_def store_simps using t steps by (auto intro!: wp_syscall)
  qed
  have body: "wp (then_io read_unlocked (then_io sync_file (then_io sync_directory (set_uncertain False))))
      (\<lambda>_ t. recovered s t \<and> doc_of (state_file s) \<noteq> None) (\<lambda>e t. settled t) (kept s) t"
    if "untouched s t" for t
    unfolding wp_then [of read_unlocked] wp_then [of sync_file]
  proof (rule wp_mono [OF wp_read_unlocked [OF that]])
    fix d u assume u: "untouched s u \<and> doc_of (state_file s) = Some d"
    show "wp sync_file (\<lambda>_. wp (then_io sync_directory (set_uncertain False))
        (\<lambda>_ t. recovered s t \<and> doc_of (state_file s) \<noteq> None) (\<lambda>e t. settled t) (kept s))
        (\<lambda>e t. settled t) (kept s) u"
      using u by (intro wp_mono [OF flush] wp_mono [OF sync]) (auto intro: start)
  qed (use start steps in auto)
  have "wp recover (\<lambda>_ t. (recovered s t \<and> doc_of (state_file s) \<noteq> None) \<and> \<not> lock_held t)
      (\<lambda>e t. settled t \<and> \<not> lock_held t) (kept s) s"
    unfolding recover_def
    by (rule wp_locked [OF body]) (use start steps in \<open>auto simp: recovered_def durable_def\<close>)
  then show ?thesis by (simp add: settled_def)
qed

section \<open>The contract of a section\<close>

text \<open>
  What a database that keeps its state in a section relies on, whatever fails underneath. For
  every update that maps documents to documents: a transaction that returns has applied the
  update to the content and made it durable; whatever the outcome, every file that may be left
  holds the old content or the updated one, and the running system sees one of the two.
\<close>

locale section_store =
  fixes content :: "disk_file \<Rightarrow> doc option"
    and txn :: "(doc \<Rightarrow> (doc \<times> 'a) result) \<Rightarrow> string \<Rightarrow> 'a io"
    and load_section :: "doc io"
  assumes txn_ok: "store_ok s \<Longrightarrow> keeps_docs content s u \<Longrightarrow> txn u now s = (out, t) \<Longrightarrow> store_ok t"
    and txn_returns: "store_ok s \<Longrightarrow> keeps_docs content s u \<Longrightarrow> txn u now s = (Ret x, t) \<Longrightarrow>
      \<exists>c r. content (state_file s) = Some c \<and> u c = Inr (r, x) \<and>
        content (state_file t) = Some (dump_load r) \<and> durable t \<and> \<not> latch s"
    and txn_raises: "store_ok s \<Longrightarrow> keeps_docs content s u \<Longrightarrow> txn u now s = (Raise e, t) \<Longrightarrow>
      state_file t = state_file s \<or>
      latch t \<and> (\<exists>m. e = StateUncertainError m) \<and>
      (\<exists>c r x. content (state_file s) = Some c \<and> u c = Inr (r, x) \<and>
         content (state_file t) = Some (dump_load r))"
    and txn_files: "store_ok s \<Longrightarrow> keeps_docs content s u \<Longrightarrow> txn u now s = (out, t) \<Longrightarrow>
      f \<in> set (maybe_files t) \<Longrightarrow> f \<in> set (maybe_files s) \<or>
      (\<exists>c r x. content (state_file s) = Some c \<and> u c = Inr (r, x) \<and> content f = Some (dump_load r))"
    and load_returns: "load_section s = (Ret c, t) \<Longrightarrow>
      content (state_file s) = Some c \<and> untouched s t"
    and load_fails: "load_section s = (Raise e, t) \<Longrightarrow> untouched s t"
begin

text \<open>A property of the content that every update keeps.\<close>

definition contents_satisfy :: "(doc \<Rightarrow> bool) \<Rightarrow> store \<Rightarrow> bool" where
  "contents_satisfy P s \<longleftrightarrow> (\<forall>f \<in> set (maybe_files s). \<forall>c. content f = Some c \<longrightarrow> P c)"

lemma satisfy_txn:
  assumes "store_ok s" "keeps_docs content s u" "txn u now s = (out, t)" "contents_satisfy P s"
    and "\<And>c r x. P c \<Longrightarrow> u c = Inr (r, x) \<Longrightarrow> P (dump_load r)"
  shows "contents_satisfy P t"
  unfolding contents_satisfy_def
proof (intro ballI allI impI)
  fix f c assume f: "f \<in> set (maybe_files t)" and c: "content f = Some c"
  have old: "\<And>c. content (state_file s) = Some c \<Longrightarrow> P c"
    using assms(4) store_ok_visible [OF assms(1)] by (simp add: contents_satisfy_def)
  from txn_files [OF assms(1-3) f] show "P c"
    using assms(4,5) c old unfolding contents_satisfy_def by fastforce
qed

lemma satisfy_load:
  assumes "store_ok s" "contents_satisfy P s" "load_section s = (Ret c, t)"
  shows "P c"
  using assms load_returns [of s c t] store_ok_visible by (auto simp: contents_satisfy_def)

text \<open>An update that always raises leaves the file alone.\<close>

lemma refused_keeps:
  assumes "store_ok s" "keeps_docs content s u" "txn u now s = (Raise e, t)"
    and "\<And>c. content (state_file s) = Some c \<Longrightarrow> \<exists>e. u c = Inl e"
  shows "state_file t = state_file s"
  using txn_raises [OF assms(1-3)] assms(4) by fastforce

text \<open>What was committed is what the next load gives.\<close>

lemma load_after_txn:
  assumes "store_ok s" "keeps_docs content s u" "txn u now s = (Ret x, t)" "load_section t = (Ret c, t')"
  shows "\<exists>d r. content (state_file s) = Some d \<and> u d = Inr (r, x) \<and> c = dump_load r"
  using txn_returns [OF assms(1-3)] load_returns [OF assms(4)] by auto

end

text \<open>
  A section beside another one: a transaction leaves the other content as it is, up to what
  writing and reading the document does to it.
\<close>

locale separate_section = section_store content txn load_section
  for content :: "disk_file \<Rightarrow> doc option"
    and txn :: "(doc \<Rightarrow> (doc \<times> 'a) result) \<Rightarrow> string \<Rightarrow> 'a io"
    and load_section :: "doc io" +
  fixes other :: "disk_file \<Rightarrow> doc option"
  assumes txn_other: "store_ok s \<Longrightarrow> keeps_docs content s u \<Longrightarrow> txn u now s = (out, t) \<Longrightarrow>
      f \<in> set (maybe_files t) \<Longrightarrow>
      f \<in> set (maybe_files s) \<or> other f = map_option dump_load (other (state_file s))"
    and txn_other_visible: "store_ok s \<Longrightarrow> keeps_docs content s u \<Longrightarrow> txn u now s = (out, t) \<Longrightarrow>
      other (state_file t) = other (state_file s) \<or>
      other (state_file t) = map_option dump_load (other (state_file s))"
begin

definition others_satisfy :: "(doc \<Rightarrow> bool) \<Rightarrow> store \<Rightarrow> bool" where
  "others_satisfy P s \<longleftrightarrow> (\<forall>f \<in> set (maybe_files s). \<forall>c. other f = Some c \<longrightarrow> P c)"

lemma other_satisfy_txn:
  assumes "store_ok s" "keeps_docs content s u" "txn u now s = (out, t)" "others_satisfy P s"
    and "\<And>c. P c \<Longrightarrow> P (dump_load c)"
  shows "others_satisfy P t"
  unfolding others_satisfy_def
proof (intro ballI allI impI)
  fix f c assume f: "f \<in> set (maybe_files t)" and c: "other f = Some c"
  have old: "\<And>c. other (state_file s) = Some c \<Longrightarrow> P c"
    using assms(4) store_ok_visible [OF assms(1)] by (simp add: others_satisfy_def)
  from txn_other [OF assms(1-3) f] show "P c"
  proof
    assume "f \<in> set (maybe_files s)"
    then show "P c" using assms(4) c by (simp add: others_satisfy_def)
  next
    assume "other f = map_option dump_load (other (state_file s))"
    then show "P c" using assms(5) c old by (cases "other (state_file s)") auto
  qed
qed

end

lemma txn_effect_content:
  assumes "store_ok s" "keeps_docs (section_of n) s u" "section_name_ok n" "txn_effect n u now s data x"
  shows "\<exists>c r. section_of n (state_file s) = Some c \<and> u c = Inr (r, x) \<and>
    section_of n (Json (JObj (dump_load data))) = Some (dump_load r)"
proof -
  from assms(4) obtain d c r where d: "doc_of (state_file s) = Some d" "section_content n d = Inr c"
    "u c = Inr (r, x)" "data = new_document now n d r" by (auto simp: txn_effect_def)
  have "file_ok (state_file s)" by (rule store_ok_file [OF assms(1)])
  then have "doc_ok d" using d(1) doc_of_ok by blast
  have "doc_ok r" using keeps_docsD [OF assms(2) _ d(3)] d(1,2) section_of_Some by blast
  then show ?thesis
    using d section_of_new_document [OF \<open>doc_ok d\<close> _ assms(3), of r now] section_of_Some by blast
qed

lemma txn_effect_other:
  assumes "store_ok s" "keeps_docs (section_of n) s u" "section_name_ok m" "m \<noteq> n"
    "txn_effect n u now s data x"
  shows "section_of m (Json (JObj (dump_load data))) = map_option dump_load (section_of m (state_file s))"
proof -
  from assms(5) obtain d c r where d: "doc_of (state_file s) = Some d" "section_content n d = Inr c"
    "u c = Inr (r, x)" "data = new_document now n d r" by (auto simp: txn_effect_def)
  have "file_ok (state_file s)" by (rule store_ok_file [OF assms(1)])
  then have ok: "doc_ok d" using d(1) doc_of_ok by blast
  have "doc_ok r" using keeps_docsD [OF assms(2) _ d(3)] d(1,2) section_of_Some by blast
  moreover have "section_of m (state_file s) = section_of m (Json (JObj d))"
    using d(1) by (simp add: section_of_def) (simp add: doc_of_def)
  ultimately show ?thesis using d(4) section_of_other [OF ok _ assms(3,4)] by simp
qed

text \<open>Whatever the outcome, the files are the old ones or the transaction's document.\<close>

lemma transaction_outcome:
  assumes "store_ok s" "keeps_docs (section_of n) s u" "transaction_section n u now s = (out, t)"
  shows "kept s t \<or> (\<exists>data x. txn_effect n u now s data x \<and> replaced data s t)"
proof -
  note rule = wp_transaction_section [OF assms(1,2), of now]
  show ?thesis
  proof (cases out)
    case (Ret x)
    then show ?thesis using wp_RetD [OF rule, of x t] assms(3) committed_replaced by blast
  next
    case (Raise e)
    then show ?thesis using wp_RaiseD [OF rule, of e t] assms(3) unfolding write_raised_def by blast
  next
    case Crash
    then show ?thesis using wp_CrashD [OF rule, of t] assms(3) unfolding write_interrupted_def by blast
  qed
qed

lemma section_store_transaction:
  assumes "section_name_ok n"
  shows "section_store (section_of n) (transaction_section n) (read_section n)"
proof
  fix s u now out t x e f
  assume ok: "store_ok s" "keeps_docs (section_of n) s (u :: doc \<Rightarrow> (doc \<times> 'a) result)"
  note rule = wp_transaction_section [OF ok, of now]
  note eff = txn_effect_content [OF ok assms]
  show "transaction_section n u now s = (out, t) \<Longrightarrow> store_ok t"
    using rule by (cases out)
      (auto simp: wp_def committed_def kept_def write_raised_def write_interrupted_def replaced_def)
  show "transaction_section n u now s = (Ret x, t) \<Longrightarrow>
      \<exists>c r. section_of n (state_file s) = Some c \<and> u c = Inr (r, x) \<and>
        section_of n (state_file t) = Some (dump_load r) \<and> durable t \<and> \<not> latch s"
    using wp_RetD [OF rule, of x t] eff by (fastforce simp: committed_def)
  show "transaction_section n u now s = (Raise e, t) \<Longrightarrow>
      state_file t = state_file s \<or> latch t \<and> (\<exists>m. e = StateUncertainError m) \<and>
      (\<exists>c r x. section_of n (state_file s) = Some c \<and> u c = Inr (r, x) \<and>
         section_of n (state_file t) = Some (dump_load r))"
    using wp_RaiseD [OF rule, of e t] eff
    by (fastforce simp: kept_def write_raised_def replaced_def)
  assume run: "transaction_section n u now s = (out, t)" and f: "f \<in> set (maybe_files t)"
  from transaction_outcome [OF ok run] show "f \<in> set (maybe_files s) \<or>
      (\<exists>c r x. section_of n (state_file s) = Some c \<and> u c = Inr (r, x) \<and>
         section_of n f = Some (dump_load r))"
    using f eff by (fastforce simp: kept_def replaced_def)
next
  fix s c t e
  show "read_section n s = (Ret c, t) \<Longrightarrow> section_of n (state_file s) = Some c \<and> untouched s t"
    using wp_RetD [OF wp_read_section] by blast
  show "read_section n s = (Raise e, t) \<Longrightarrow> untouched s t"
    using wp_RaiseD [OF wp_read_section] by blast
qed

lemma separate_sections:
  assumes "section_name_ok n" "section_name_ok m" "m \<noteq> n"
  shows "separate_section (section_of n)
    (transaction_section n :: (doc \<Rightarrow> (doc \<times> 'a) result) \<Rightarrow> string \<Rightarrow> 'a io)
    (read_section n) (section_of m)"
proof (rule separate_section.intro)
  show "section_store (section_of n)
      (transaction_section n :: (doc \<Rightarrow> (doc \<times> 'a) result) \<Rightarrow> string \<Rightarrow> 'a io) (read_section n)"
    by (rule section_store_transaction [OF assms(1)])
  show "separate_section_axioms (section_of n)
      (transaction_section n :: (doc \<Rightarrow> (doc \<times> 'a) result) \<Rightarrow> string \<Rightarrow> 'a io) (section_of m)"
  proof
    fix s u now out t f
    assume ok: "store_ok s" "keeps_docs (section_of n) s (u :: doc \<Rightarrow> (doc \<times> 'a) result)"
      and run: "transaction_section n u now s = (out, t)"
    note eff = txn_effect_other [OF ok assms(2,3)]
    show "f \<in> set (maybe_files t) \<Longrightarrow> f \<in> set (maybe_files s) \<or>
        section_of m f = map_option dump_load (section_of m (state_file s))"
      using transaction_outcome [OF ok run] eff by (fastforce simp: kept_def replaced_def)
    show "section_of m (state_file t) = section_of m (state_file s) \<or>
        section_of m (state_file t) = map_option dump_load (section_of m (state_file s))"
      using transaction_outcome [OF ok run] eff by (fastforce simp: kept_def replaced_def)
  qed
qed

interpretation claim_section:
  separate_section "section_of ''allocations_db''" "transaction_section ''allocations_db''"
    "read_section ''allocations_db''" "section_of ''hugepages_db''"
  by (rule separate_sections) (simp_all add: section_name_ok_def)

interpretation hugepage_section:
  separate_section "section_of ''hugepages_db''" "transaction_section ''hugepages_db''"
    "read_section ''hugepages_db''" "section_of ''allocations_db''"
  by (rule separate_sections) (simp_all add: section_name_ok_def)

section \<open>Losing power and starting again\<close>

text \<open>
  A new process starts with no latch of its own. Without a loss of power it sees the files as
  they were; a loss of power leaves one of the contents each file may hold. A lock file that comes
  back empty may be one whose entry was lost.
\<close>

definition restart :: "store \<Rightarrow> store" where
  "restart s = s\<lparr>latch := False, lock_held := False\<rparr>"

definition power_loss :: "disk_file \<Rightarrow> string \<Rightarrow> store \<Rightarrow> store" where
  "power_loss f l s = restart (s\<lparr>state_file := f, maybe_data := [f], maybe_entries := [],
     lock_bytes := l, maybe_lock_data := [l], lock_linked := (lock_linked s \<or> l \<noteq> [])\<rparr>)"

lemma restart_fields [simp]:
  "state_file (restart s) = state_file s" "maybe_files (restart s) = maybe_files s"
  "maybe_locks (restart s) = maybe_locks s" "store_ok (restart s) = store_ok s"
  by (simp_all add: restart_def)

lemma power_loss_fields [simp]:
  "state_file (power_loss f l s) = f" "maybe_files (power_loss f l s) = [f]"
  "l \<in> set (maybe_locks (power_loss f l s))" "set (maybe_locks (power_loss f l s)) = {l}"
  by (auto simp: power_loss_def restart_def maybe_files_def maybe_locks_def)

lemma store_ok_restart: "store_ok s \<Longrightarrow> store_ok (restart s)"
  by simp

lemma store_ok_power_loss:
  "store_ok s \<Longrightarrow> f \<in> set (maybe_files s) \<Longrightarrow> store_ok (power_loss f l s)"
  by (simp add: power_loss_def restart_def store_ok_def maybe_files_def)

lemma unblocked_power_loss:
  assumes "store_ok s" "f \<in> set (maybe_files s)" "l \<in> set (maybe_locks s)"
    and "\<not> blocked (power_loss f l s)"
  shows "f = state_file s"
  using assms by (auto simp: power_loss_def restart_def blocked_def store_ok_def)

lemma unblocked_restart: "store_ok s \<Longrightarrow> \<not> blocked (restart s) \<Longrightarrow> durable s"
  by (rule open_durable) (simp_all add: restart_def blocked_def)

end
