(* ===== verification/Ledger_Txn.thy ===== *)
theory Ledger_Txn
  imports Ledger_Ops Store_Sections
begin

text \<open>
  The persistence of the ledger: \<open>_snapshot\<close>, \<open>_load_snapshot\<close>, \<open>_load_from_store\<close> and
  \<open>transaction\<close> of \<open>allocations_db.py\<close>. An \<open>AllocationsDB\<close> is its fields in memory together
  with the store; a transaction runs on a private candidate and publishes it after the commit.
\<close>

section \<open>Snapshots\<close>

definition text_items :: "('v \<Rightarrow> string) \<Rightarrow> (string, 'v) dict \<Rightarrow> (string, json) dict" where
  "text_items f d = List.map (\<lambda>(k, v). (k, JStr (f v))) d"

definition snapshot :: "adb \<Rightarrow> doc" where
  "snapshot db =
     [(''allocations'', JObj (text_items (\<lambda>v. v) (allocations db))),
      (''explicit_allocations'', JObj (text_items (\<lambda>v. v) (explicit_allocations db))),
      (''preemption_policies'', JObj (text_items policy_value (preemption_policies db))),
      (''allocation_pools'', JObj (text_items pool_value (allocation_pools db)))]"

text \<open>\<open>{str(k): str(v) for k, v in m.items()}\<close> when \<open>m\<close> is a dictionary, else \<open>{}\<close>.\<close>

definition string_items :: "json option \<Rightarrow> (string, string) dict" where
  "string_items v = (case v of Some (JObj items) \<Rightarrow> List.map (\<lambda>(k, w). (k, json_str w)) items | _ \<Rightarrow> [])"

text \<open>An enumeration applied to a JSON value; only strings are values of the two enumerations.\<close>

definition json_member :: "(string \<Rightarrow> 'e option) \<Rightarrow> json \<Rightarrow> 'e option" where
  "json_member f v = (case v of JStr s \<Rightarrow> f s | _ \<Rightarrow> None)"

definition decode_members ::
  "(string \<Rightarrow> 'e option) \<Rightarrow> string \<Rightarrow> (string, json) dict \<Rightarrow> (string, 'e) dict result" where
  "decode_members f message items =
     mapE (\<lambda>(k, v). case json_member f v of
              None \<Rightarrow> Inl (StateCorruptionError message) | Some x \<Rightarrow> Inr (k, x)) items"

definition unowned_names :: "(string, 'v) dict \<Rightarrow> adb \<Rightarrow> bool" where
  "unowned_names d db \<longleftrightarrow> (\<exists>name \<in> set (dict_keys d). \<not> dict_has (allocations db) name)"

text \<open>
  Loading assigns the fields one by one; an exception leaves the fields assigned so far. The
  result is the exception, if any, and the object.
\<close>

definition load_pool_metadata :: "doc \<Rightarrow> adb \<Rightarrow> unit result \<times> adb" where
  "load_pool_metadata data db =
     (case dict_get data ''allocation_pools'' (JObj []) of
        JObj pools \<Rightarrow>
          (case decode_members pool_of_value ''Invalid stored CPU pool'' pools of
             Inl e \<Rightarrow> (Inl e, db)
           | Inr ps \<Rightarrow>
               let db1 = db\<lparr>allocation_pools := ps\<rparr> in
               if unowned_names ps db1
               then (Inl (StateCorruptionError ''CPU pool without owned CPUs''), db1)
               else (Inr (), db1))
      | _ \<Rightarrow> (Inl (StateCorruptionError ''Invalid allocation_pools mapping''), db))"

fun add_claims :: "(string, string) dict \<Rightarrow> int set \<Rightarrow> unit result \<times> int set" where
  "add_claims [] S = (Inr (), S)"
| "add_claims ((k, cores) # d) S =
     (case parse_cpu_ranges cores of Inl e \<Rightarrow> (Inl e, S) | Inr T \<Rightarrow> add_claims d (S \<union> T))"

definition load_cpu_sets :: "adb \<Rightarrow> unit result \<times> adb" where
  "load_cpu_sets db =
     (case add_claims (allocations db) {} of
        (Inl e, S) \<Rightarrow> (Inl e, db\<lparr>allocated_cpus := S, explicitly_allocated_cpus := {}\<rparr>)
      | (Inr _, S) \<Rightarrow>
          (case add_claims (explicit_allocations db) {} of
             (r, E) \<Rightarrow> (r, db\<lparr>allocated_cpus := S, explicitly_allocated_cpus := E\<rparr>)))"

definition load_snapshot :: "doc \<Rightarrow> adb \<Rightarrow> unit result \<times> adb" where
  "load_snapshot data db =
     (case dict_get data ''preemption_policies'' (JObj []) of
        JObj policies \<Rightarrow>
          (case decode_members policy_of_value ''Invalid stored preemption policy'' policies of
             Inl e \<Rightarrow> (Inl e, db)
           | Inr ps \<Rightarrow>
               let db1 = db\<lparr>preemption_policies := ps,
                            allocations := string_items (map_of data ''allocations''),
                            explicit_allocations := string_items (map_of data ''explicit_allocations'')\<rparr>
               in if unowned_names ps db1
                  then (Inl (StateCorruptionError ''Preemption policy without owned CPUs''), db1)
                  else (case load_pool_metadata data db1 of
                          (Inl e, db2) \<Rightarrow> (Inl e, db2)
                        | (Inr _, db2) \<Rightarrow> load_cpu_sets db2))
      | _ \<Rightarrow> (Inl (StateCorruptionError ''Invalid preemption_policies mapping''), db))"

section \<open>Transactions\<close>

definition load_from_store :: "adb \<Rightarrow> store \<Rightarrow> unit outcome \<times> adb \<times> store" where
  "load_from_store mem s =
     (case read_section ''allocations_db'' s of
        (Ret c, s') \<Rightarrow>
          (case load_snapshot c mem of
             (Inl e, mem') \<Rightarrow> (Raise e, mem', s') | (Inr _, mem') \<Rightarrow> (Ret (), mem', s'))
      | (Raise e, s') \<Rightarrow> (Raise e, mem, s')
      | (Crash, s') \<Rightarrow> (Crash, mem, s'))"

text \<open>The callback of \<open>transaction\<close>; the candidate starts without fields.\<close>

definition txn_update :: "(adb \<Rightarrow> ('a \<times> adb) result) \<Rightarrow> doc \<Rightarrow> (doc \<times> 'a \<times> adb) result" where
  "txn_update operation data =
     (case load_snapshot data empty_adb of
        (Inl e, candidate) \<Rightarrow> Inl e
      | (Inr _, candidate) \<Rightarrow>
          bindE (operation candidate) (\<lambda>(x, candidate'). Inr (snapshot candidate', x, candidate')))"

definition transaction ::
  "(adb \<Rightarrow> ('a \<times> adb) result) \<Rightarrow> string \<Rightarrow> adb \<Rightarrow> store \<Rightarrow> 'a outcome \<times> adb \<times> store" where
  "transaction operation now mem s =
     (case transaction_section ''allocations_db'' (txn_update operation) now s of
        (Ret (x, candidate), s') \<Rightarrow>
          (case load_snapshot (snapshot candidate) mem of
             (Inl e, mem') \<Rightarrow> (Raise e, mem', s') | (Inr _, mem') \<Rightarrow> (Ret x, mem', s'))
      | (Raise e, s') \<Rightarrow>
          (case load_from_store mem s' of
             (Ret _, mem', s'') \<Rightarrow> (Raise e, mem', s'')
           | (Raise e', mem', s'') \<Rightarrow> (Raise e', mem', s'')
           | (Crash, mem', s'') \<Rightarrow> (Crash, mem', s''))
      | (Crash, s') \<Rightarrow> (Crash, mem, s'))"

text \<open>
  The decorator of the mutating methods. Inside a transaction the method runs on the candidate
  itself; there an exception ends the transaction, so what it leaves of the candidate is not seen.
\<close>

definition mutating ::
  "(adb \<Rightarrow> ('a \<times> adb) result) \<Rightarrow> bool \<Rightarrow> string \<Rightarrow> adb \<Rightarrow> store \<Rightarrow> 'a outcome \<times> adb \<times> store" where
  "mutating method in_transaction now mem s =
     (if in_transaction
      then (case method mem of Inl e \<Rightarrow> (Raise e, mem, s) | Inr (x, mem') \<Rightarrow> (Ret x, mem', s))
      else transaction method now mem s)"

text \<open>A public read: refresh the fields, then look at them.\<close>

definition fresh_read :: "(adb \<Rightarrow> 'a result) \<Rightarrow> adb \<Rightarrow> store \<Rightarrow> 'a outcome \<times> adb \<times> store" where
  "fresh_read f mem s =
     (case load_from_store mem s of
        (Ret _, mem', s') \<Rightarrow> (case f mem' of Inl e \<Rightarrow> (Raise e, mem', s') | Inr x \<Rightarrow> (Ret x, mem', s'))
      | (Raise e, mem', s') \<Rightarrow> (Raise e, mem', s')
      | (Crash, mem', s') \<Rightarrow> (Crash, mem', s'))"

section \<open>Loading what was saved\<close>

lemma string_items_text [simp]: "string_items (Some (JObj (text_items (\<lambda>v. v) d))) = d"
  by (induction d) (auto simp: string_items_def text_items_def)

lemma decode_members_text:
  assumes "\<And>x. f (g x) = Some x"
  shows "decode_members f m (text_items g d) = Inr d"
  by (induction d) (auto simp: decode_members_def text_items_def json_member_def assms)

lemma add_claims_readable:
  "readable parse_cpu_ranges d \<Longrightarrow> add_claims d S = (Inr (), S \<union> claims_union parse_cpu_ranges d)"
  by (induction d arbitrary: S)
    (auto simp: readable_def claims_union_def decoded_def split: sum.splits)

lemma add_claims_Inr:
  assumes "add_claims d S = (Inr (), T)"
  shows "readable parse_cpu_ranges d" "T = S \<union> claims_union parse_cpu_ranges d"
proof -
  show "readable parse_cpu_ranges d"
    using assms by (induction d arbitrary: S) (fastforce simp: readable_def split: sum.splits)+
  from add_claims_readable [OF this, of S] show "T = S \<union> claims_union parse_cpu_ranges d"
    using assms by simp
qed

text \<open>Sorting the dictionaries of a ledger, which is all that dumping and loading does to it.\<close>

definition sorted_adb :: "adb \<Rightarrow> adb" where
  "sorted_adb db = db\<lparr>preemption_policies := sort_key fst (preemption_policies db),
     allocation_pools := sort_key fst (allocation_pools db),
     allocations := sort_key fst (allocations db),
     explicit_allocations := sort_key fst (explicit_allocations db)\<rparr>"

lemma keys_within_unowned: "\<not> unowned_names d db \<longleftrightarrow> keys_within d (allocations db)"
  by (auto simp: unowned_names_def keys_within_def)

lemma load_snapshot_snapshot:
  assumes "repr_ok db"
  shows "load_snapshot (snapshot db) mem = (Inr (), db)"
proof -
  note r = repr_okD [OF assms]
  have "add_claims (allocations db) {} = (Inr (), allocated_cpus db)"
    "add_claims (explicit_allocations db) {} = (Inr (), explicitly_allocated_cpus db)"
    using r(1,2) by (simp_all add: table_ok_def add_claims_readable)
  moreover have "\<not> unowned_names (preemption_policies db) db" "\<not> unowned_names (allocation_pools db) db"
    using r(6,7) by (simp_all add: keys_within_unowned)
  ultimately show ?thesis
    by (simp add: load_snapshot_def load_pool_metadata_def load_cpu_sets_def snapshot_def
        dict_get_def decode_members_text Let_def unowned_names_def)
qed

lemma text_items_dump: "dump_load (text_items f d) = text_items f (sort_key fst d)"
  unfolding dump_load_def text_items_def json_sort_items_strings
  by (rule sort_map_items) auto

lemma keys_text_items [simp]: "List.map fst (text_items f d) = List.map fst d"
  by (induction d) (auto simp: text_items_def)

lemma text_items_ok: "dict_ok d \<Longrightarrow> json_ok (JObj (text_items f d))"
  unfolding json_ok.simps keys_text_items by (auto simp: text_items_def)

lemma snapshot_doc_ok:
  assumes "repr_ok db"
  shows "doc_ok (snapshot db)"
proof -
  have "dict_ok (allocations db)" "dict_ok (explicit_allocations db)"
    using repr_okD(1,2) [OF assms] by (simp_all add: table_ok_def)
  then have "\<forall>kv \<in> set (snapshot db). json_ok (snd kv)"
    using repr_okD(3,4) [OF assms] by (simp add: snapshot_def text_items_ok del: json_ok.simps(2))
  moreover have "dict_ok (snapshot db)" by (simp add: snapshot_def)
  ultimately show ?thesis unfolding doc_ok_def json_ok.simps by simp
qed

lemma map_of_dumped_snapshot:
  assumes "repr_ok db"
  shows "map_of (dump_load (snapshot db)) k = map_of (snapshot (sorted_adb db)) k"
  using doc_ok_dict [OF snapshot_doc_ok [OF assms]]
  by (simp add: map_of_dump_load)
    (simp add: snapshot_def sorted_adb_def json_sort_JObj text_items_dump del: json_sort.simps(7))

lemma load_snapshot_cong:
  assumes "\<And>k. map_of c k = map_of d k"
  shows "load_snapshot c mem = load_snapshot d mem"
proof -
  have same: "map_of c = map_of d" using assms by auto
  show ?thesis unfolding load_snapshot_def load_pool_metadata_def dict_get_def same by (rule refl)
qed

text \<open>Sorting changes neither the abstract ledger nor the invariant.\<close>

lemma claim_of_sorted: "dict_ok d \<Longrightarrow> claim_of dec (sort_key fst d) k = claim_of dec d k"
  by (simp add: claim_of_def map_of_sort_key)

lemma table_ok_sorted: "table_ok dec d U \<Longrightarrow> table_ok dec (sort_key fst d) U"
  by (simp add: table_ok_def readable_def claims_union_def)

lemma keys_within_sorted:
  "dict_ok d \<Longrightarrow> dict_ok e \<Longrightarrow> keys_within (sort_key fst d) (sort_key fst e) = keys_within d e"
  by (simp add: keys_within_def dict_has_def map_of_sort_key)

lemma sorted_repr:
  assumes "repr_ok db"
  shows "repr_ok (sorted_adb db)"
proof -
  note r = repr_okD [OF assms]
  have "dict_ok (allocations db)" "dict_ok (explicit_allocations db)"
    using r(1,2) by (simp_all add: table_ok_def)
  then show ?thesis using r by (simp add: repr_ok_def sorted_adb_def table_ok_sorted keys_within_sorted)
qed

lemma sorted_abs:
  assumes "repr_ok db"
  shows "abs_ledger (sorted_adb db) = abs_ledger db"
  using repr_okD [OF assms]
  by (auto simp: fun_eq_iff abs_ledger_def sorted_adb_def dict_has_def dict_get_def service_pool_def
      map_of_sort_key claim_of_sorted table_ok_def)

lemma sorted_wf: "wf_ledger db \<Longrightarrow> wf_ledger (sorted_adb db)"
  by (intro wf_ledgerI) (simp_all add: sorted_repr sorted_abs wf_ledgerD)

lemma load_snapshot_dumped:
  assumes "repr_ok db"
  shows "load_snapshot (dump_load (snapshot db)) mem = (Inr (), sorted_adb db)"
  using load_snapshot_snapshot [OF sorted_repr [OF assms]]
    load_snapshot_cong [OF map_of_dumped_snapshot [OF assms]] by simp

text \<open>Whether loading succeeds, and what it then gives, does not depend on the fields before.\<close>

lemma load_snapshot_fresh: "load_snapshot data mem = (Inr (), db) \<Longrightarrow> load_snapshot data mem' = (Inr (), db)"
  by (auto simp: load_snapshot_def load_pool_metadata_def load_cpu_sets_def Let_def unowned_names_def
      split: json.splits sum.splits if_splits prod.splits)

section \<open>What a section holds\<close>

definition ledger_in :: "doc \<Rightarrow> adb option" where
  "ledger_in c = (case load_snapshot c empty_adb of (Inl e, db) \<Rightarrow> None | (Inr _, db) \<Rightarrow> Some db)"

text \<open>A well-formed ledger, which a rewrite of the document does not change.\<close>

definition sound_content :: "doc \<Rightarrow> bool" where
  "sound_content c \<longleftrightarrow>
     (case ledger_in c of
        None \<Rightarrow> False
      | Some db \<Rightarrow> wf_ledger db \<and> ledger_in (dump_load c) = Some (sorted_adb db))"

lemma ledger_in_Some: "ledger_in c = Some db \<longleftrightarrow> load_snapshot c empty_adb = (Inr (), db)"
  by (auto simp: ledger_in_def split: prod.splits sum.splits)

lemma ledger_in_empty: "ledger_in [] = Some empty_adb"
  by (simp add: ledger_in_Some load_snapshot_def load_pool_metadata_def load_cpu_sets_def
      dict_get_def decode_members_def string_items_def unowned_names_def empty_adb_def)

lemma ledger_in_dumped: "repr_ok db \<Longrightarrow> ledger_in (dump_load (snapshot db)) = Some (sorted_adb db)"
  by (simp add: ledger_in_Some load_snapshot_dumped)

lemma sorted_adb_idem [simp]: "sorted_adb (sorted_adb db) = sorted_adb db"
  by (simp add: sorted_adb_def)

lemma sound_empty: "sound_content []"
  by (simp add: sound_content_def dump_load_def ledger_in_empty wf_empty)
    (simp add: sorted_adb_def empty_adb_def)

lemma sound_dumped: "wf_ledger db \<Longrightarrow> sound_content (dump_load (snapshot db))"
  by (simp add: sound_content_def dump_load_idem ledger_in_dumped wf_ledgerD sorted_wf)

lemma sound_rewritten: "sound_content c \<Longrightarrow> sound_content (dump_load c)"
  by (auto simp: sound_content_def dump_load_idem sorted_wf split: option.splits)

lemma txn_update_Inr:
  "txn_update operation c = Inr (r, x, db') \<longleftrightarrow>
   (\<exists>db. ledger_in c = Some db \<and> operation db = Inr (x, db') \<and> r = snapshot db')"
  by (auto simp: txn_update_def ledger_in_def bindE_eq_Inr split: prod.splits sum.splits)

text \<open>An operation that keeps the ledger well-formed.\<close>

definition keeps_ledger :: "(adb \<Rightarrow> ('a \<times> adb) result) \<Rightarrow> bool" where
  "keeps_ledger operation \<longleftrightarrow>
     (\<forall>db x db'. wf_ledger db \<longrightarrow> operation db = Inr (x, db') \<longrightarrow> wf_ledger db')"

lemma keeps_ledgerD: "keeps_ledger f \<Longrightarrow> wf_ledger db \<Longrightarrow> f db = Inr (x, db') \<Longrightarrow> wf_ledger db'"
  by (simp add: keeps_ledger_def)

text \<open>Every file the store may hold has a sound ledger.\<close>

definition ledgers_sound :: "store \<Rightarrow> bool" where
  "ledgers_sound s \<longleftrightarrow> store_ok s \<and> claim_section.contents_satisfy sound_content s"

lemma txn_update_sound:
  assumes "keeps_ledger operation" "sound_content c" "txn_update operation c = Inr (r, y)"
  shows "sound_content (dump_load r)" "doc_ok r"
  using assms by (cases y; auto simp: txn_update_Inr sound_content_def [of c]
      intro: sound_dumped keeps_ledgerD snapshot_doc_ok wf_ledgerD)+

lemma ledgers_sound_docs:
  assumes "ledgers_sound s" "keeps_ledger operation"
  shows "keeps_docs (section_of ''allocations_db'') s (txn_update operation)"
  using assms store_ok_visible [of s] txn_update_sound(2)
  by (fastforce simp: keeps_docs_def ledgers_sound_def claim_section.contents_satisfy_def)

section \<open>Every operation keeps the ledger\<close>

lemma keeps_remove: "keeps_ledger (remove_allocation s pool)"
  unfolding keeps_ledger_def using remove_allocation_Inr(2) by blast

lemma keeps_clear: "keeps_ledger (\<lambda>db. Inr ((), clear_all_allocations db))"
  by (simp add: keeps_ledger_def clear_all_abs)

lemma keeps_count: "keeps_ledger (allocate_count h check s cnt eligible requested pool)"
  unfolding keeps_ledger_def
proof (intro allI impI)
  fix db x db'
  assume wf: "wf_ledger db" and ok: "allocate_count h check s cnt eligible requested pool db = Inr (x, db')"
  obtain shared dedicated where x: "x = (shared, dedicated)" by (cases x)
  obtain free where "get_available_cpus_for_service db s eligible = Inr free"
    using ok unfolding allocate_count_def by blast
  then obtain E where "parse_cpu_ranges eligible = Inr E"
    unfolding get_available_cpus_for_service_def by blast
  from allocate_count_abs [OF wf this ok [unfolded x]] show "wf_ledger db'" by blast
qed

lemma keeps_numa:
  assumes "cpu_ids eligible"
  shows "keeps_ledger (allocate_numa_cores h check s node n requested pool eligible)"
  unfolding keeps_ledger_def
proof (intro allI impI)
  fix db x db'
  assume wf: "wf_ledger db"
    and ok: "allocate_numa_cores h check s node n requested pool eligible db = Inr (x, db')"
  obtain cores rejected where x: "x = (cores, rejected)" by (cases x)
  consider "0 < n" | "n = 0" | "n = - 1" | "n < - 1" by linarith
  then show "wf_ledger db'"
  proof cases
    case 1
    from allocate_numa_abs [OF wf assms 1 ok [unfolded x]] show ?thesis using wf by metis
  next
    case 2
    then show ?thesis using ok allocate_numa_zero wf by blast
  next
    case 3
    then show ?thesis using ok numa_release_abs(2) [OF wf] by blast
  next
    case 4
    from allocate_numa_negative [OF this] ok show ?thesis by (metis Inl_Inr_False)
  qed
qed

lemma keeps_cores: "keeps_ledger (\<lambda>db. bindE (allocate_cores s cores requested pool db) (\<lambda>db'. Inr ((), db')))"
  unfolding keeps_ledger_def
proof (intro allI impI)
  fix db x db'
  assume wf: "wf_ledger db"
    and ok: "bindE (allocate_cores s cores requested pool db) (\<lambda>db'. Inr ((), db')) = Inr (x, db')"
  then have run: "allocate_cores s cores requested pool db = Inr db'" by auto
  show "wf_ledger db'"
  proof (cases "cores = [] \<or> parse_cpu_ranges cores = Inr {}")
    case True
    then have "db' = db" using run unfolding allocate_cores_def
      by (cases "cores = []") (auto simp del: validate_guards)
    then show ?thesis using wf by simp
  next
    case False
    then obtain S where S: "parse_cpu_ranges cores = Inr S"
      using run unfolding allocate_cores_def by (auto simp del: validate_guards)
    moreover have "S \<noteq> {}" using False S by blast
    ultimately show ?thesis using allocate_cores_abs [OF wf run] by blast
  qed
qed

section \<open>Transactions keep the files sound\<close>

lemma load_from_store_untouched: "load_from_store mem s = (out, mem', s') \<Longrightarrow> untouched s s'"
proof -
  assume run: "load_from_store mem s = (out, mem', s')"
  have "wp (read_section ''allocations_db'') (\<lambda>c. untouched s) (\<lambda>e. untouched s) (untouched s) s"
    by (rule wp_mono [OF wp_read_section]) auto
  then show ?thesis
    using run by (auto simp: wp_def load_from_store_def split: prod.splits outcome.splits sum.splits)
qed

lemma untouched_sound: "untouched s t \<Longrightarrow> ledgers_sound s \<Longrightarrow> ledgers_sound t"
  using untouched_fields [of s t]
  by (simp add: ledgers_sound_def claim_section.contents_satisfy_def)

lemma section_transaction_sound:
  assumes "ledgers_sound s" "keeps_ledger operation"
    and "transaction_section ''allocations_db'' (txn_update operation) now s = (out, s')"
  shows "ledgers_sound s'"
proof -
  note docs = ledgers_sound_docs [OF assms(1,2)]
  have ok: "store_ok s" "claim_section.contents_satisfy sound_content s"
    using assms(1) by (simp_all add: ledgers_sound_def)
  show ?thesis
    unfolding ledgers_sound_def
    using claim_section.txn_ok [OF ok(1) docs assms(3)]
      claim_section.satisfy_txn [OF ok(1) docs assms(3) ok(2)] txn_update_sound(1) [OF assms(2)]
    by (metis surj_pair)
qed

lemma transaction_keeps_sound:
  assumes "ledgers_sound s" "keeps_ledger operation" "transaction operation now mem s = (out, mem', s')"
  shows "ledgers_sound s'"
proof -
  obtain o1 s1 where run: "transaction_section ''allocations_db'' (txn_update operation) now s = (o1, s1)"
    by fastforce
  then have s1: "ledgers_sound s1" by (rule section_transaction_sound [OF assms(1,2)])
  show ?thesis
  proof (cases o1)
    case (Raise e)
    obtain o2 m2 s2 where l: "load_from_store mem s1 = (o2, m2, s2)" using prod_cases3 by blast
    then have "s' = s2" using assms(3) run Raise
      by (auto simp: transaction_def split: outcome.splits)
    then show ?thesis using untouched_sound [OF load_from_store_untouched [OF l] s1] by simp
  qed (use assms(3) run s1 in \<open>auto simp: transaction_def split: prod.splits sum.splits\<close>)
qed

text \<open>The ledger the store holds, as every fresh read of the running daemon sees it.\<close>

definition stored_ledger :: "store \<Rightarrow> adb option" where
  "stored_ledger s = Option.bind (section_of ''allocations_db'' (state_file s)) ledger_in"

lemma stored_wf: "ledgers_sound s \<Longrightarrow> stored_ledger s = Some db \<Longrightarrow> wf_ledger db"
  using store_ok_visible [of s]
  by (fastforce simp: ledgers_sound_def claim_section.contents_satisfy_def stored_ledger_def
      sound_content_def bind_eq_Some_conv)

text \<open>
  A transaction that returns has run the operation on the stored ledger; the fields in memory
  are the operation's result, and the store holds the same ledger, durably.
\<close>

lemma transaction_Ret:
  assumes "ledgers_sound s" "keeps_ledger operation" "transaction operation now mem s = (Ret x, mem', s')"
  obtains db where "stored_ledger s = Some db" "operation db = Inr (x, mem')" "wf_ledger mem'"
    "stored_ledger s' = Some (sorted_adb mem')" "durable s'" "\<not> latch s"
proof -
  obtain o1 s1 where run: "transaction_section ''allocations_db'' (txn_update operation) now s = (o1, s1)"
    by fastforce
  obtain y cand where o1: "o1 = Ret (y, cand)"
    using assms(3) run by (auto simp: transaction_def split: outcome.splits prod.splits)
  have ok: "store_ok s" using assms(1) by (simp add: ledgers_sound_def)
  from claim_section.txn_returns [OF ok ledgers_sound_docs [OF assms(1,2)] run [unfolded o1]]
  obtain c r where c: "section_of ''allocations_db'' (state_file s) = Some c"
    "txn_update operation c = Inr (r, y, cand)"
    "section_of ''allocations_db'' (state_file s1) = Some (dump_load r)" "durable s1" "\<not> latch s"
    by blast
  then obtain db where db: "ledger_in c = Some db" "operation db = Inr (y, cand)" "r = snapshot cand"
    by (auto simp: txn_update_Inr)
  have st: "stored_ledger s = Some db" using c(1) db(1) by (simp add: stored_ledger_def)
  have wf: "wf_ledger cand" using keeps_ledgerD [OF assms(2) stored_wf [OF assms(1) st] db(2)] .
  have "x = y" "mem' = cand" "s' = s1"
    using assms(3) run o1 load_snapshot_snapshot [OF wf_ledgerD(1) [OF wf]]
    by (auto simp: transaction_def)
  then show thesis
    using that [OF st] db c wf ledger_in_dumped [OF wf_ledgerD(1) [OF wf]]
    by (simp add: stored_ledger_def)
qed

text \<open>
  A transaction that raises left the stored ledger as it was, or it is the uncertain commit: the
  operation's result is stored, the store is blocked, and the fields in memory follow the store.
\<close>

lemma transaction_Raise:
  assumes "ledgers_sound s" "keeps_ledger operation" "transaction operation now mem s = (Raise e, mem', s')"
  shows "stored_ledger s' = stored_ledger s \<or>
    latch s' \<and> (\<exists>db x db'. stored_ledger s = Some db \<and> operation db = Inr (x, db') \<and>
      stored_ledger s' = Some (sorted_adb db'))"
proof -
  obtain o1 s1 where run: "transaction_section ''allocations_db'' (txn_update operation) now s = (o1, s1)"
    by fastforce
  have ok: "store_ok s" using assms(1) by (simp add: ledgers_sound_def)
  note docs = ledgers_sound_docs [OF assms(1,2)]
  obtain e1 where o1: "o1 = Raise e1"
  proof (cases o1)
    case (Ret ycand)
    obtain y cand where yc: "ycand = (y, cand)" by (cases ycand)
    from claim_section.txn_returns [OF ok docs run [unfolded Ret]] obtain c r where
      "section_of ''allocations_db'' (state_file s) = Some c" "txn_update operation c = Inr (r, y, cand)"
      unfolding yc by blast
    then have "repr_ok cand"
      using keeps_ledgerD [OF assms(2)] stored_wf [OF assms(1)]
      by (auto simp: txn_update_Inr stored_ledger_def dest: wf_ledgerD)
    then show thesis
      using assms(3) run Ret yc load_snapshot_snapshot by (simp add: transaction_def)
  next
    case Crash
    then show thesis using assms(3) run by (simp add: transaction_def)
  qed
  obtain o2 m2 s2 where l: "load_from_store mem s1 = (o2, m2, s2)" using prod_cases3 by blast
  then have s': "s' = s2" using assms(3) run o1 by (auto simp: transaction_def split: outcome.splits)
  note same = untouched_fields [OF load_from_store_untouched [OF l]]
  from claim_section.txn_raises [OF ok docs run [unfolded o1]] show ?thesis
  proof (elim disjE conjE exE)
    assume "state_file s1 = state_file s"
    then show ?thesis using same s' by (simp add: stored_ledger_def)
  next
    fix m c r x assume "latch s1" and c: "section_of ''allocations_db'' (state_file s) = Some c"
      "txn_update operation c = Inr (r, x)"
      "section_of ''allocations_db'' (state_file s1) = Some (dump_load r)"
    then obtain db y cand where "ledger_in c = Some db" "operation db = Inr (y, cand)" "r = snapshot cand"
      by (cases x) (auto simp: txn_update_Inr)
    moreover from this have "wf_ledger cand"
      using keeps_ledgerD [OF assms(2)] stored_wf [OF assms(1), of db] c by (simp add: stored_ledger_def)
    ultimately show ?thesis
      using c same s' \<open>latch s1\<close> ledger_in_dumped [of cand] by (auto simp: stored_ledger_def wf_ledgerD)
  qed
qed

text \<open>An operation that refuses changes nothing that is stored.\<close>

lemma transaction_refused:
  assumes "ledgers_sound s" "keeps_ledger operation" "transaction operation now mem s = (out, mem', s')"
    and "\<And>db. stored_ledger s = Some db \<Longrightarrow> \<exists>e. operation db = Inl e"
    and "out \<noteq> Crash"
  shows "stored_ledger s' = stored_ledger s \<and> (\<exists>e. out = Raise e)"
proof (cases out)
  case (Ret x)
  from transaction_Ret [OF assms(1,2) assms(3) [unfolded Ret]] obtain db where
    "stored_ledger s = Some db" "operation db = Inr (x, mem')" by blast
  then show ?thesis using assms(4) by force
next
  case (Raise e)
  then show ?thesis using transaction_Raise [OF assms(1,2) assms(3) [unfolded Raise]] assms(4) by force
qed (use assms(5) in simp)

end
