(* ===== verification/Cpu_Pool.thy ===== *)
theory Cpu_Pool
  imports Allocations_DB Json_Values
begin

text \<open>
  \<open>epa_orchestrator/cpu_pool.py\<close>: parsing the operator's CPU list, the frozen providers of the
  isolated and the general pool, their per-request snapshots, startup, and the configure hook.
  \<open>snapctl\<close> is an external program: what it answers for an option is a parameter, where
  \<open>None\<close> is a failed call or output that is not JSON, and so is whether setting one succeeds.
  The text of an \<open>OSError\<close> at the end of a message is the host's and is left out.
\<close>

section \<open>CPU lists\<close>

definition max_cpu_id :: int where
  "max_cpu_id = 65535"

definition online_cpus_path :: string where
  "online_cpus_path = ''/sys/devices/system/cpu/online''"

text \<open>The value of a non-empty string of ASCII digits.\<close>

definition digits_value :: "string \<Rightarrow> int" where
  "digits_value s = foldl (\<lambda>a c. 10 * a + digit_val c) 0 s"

text \<open>\<open>re.fullmatch(r"([0-9]+)(?:\s*-\s*([0-9]+))?", t)\<close>: the values of the two groups.\<close>

definition match_component :: "string \<Rightarrow> (int \<times> int option) option" where
  "match_component t =
     (let d1 = takeWhile is_digit t; rest = dropWhile is_digit t in
      if d1 = [] then None
      else if rest = [] then Some (digits_value d1, None)
      else (case dropWhile is_space rest of
              [] \<Rightarrow> None
            | c # cs \<Rightarrow>
                let d2 = dropWhile is_space cs in
                if c = CHR ''-'' \<and> d2 \<noteq> [] \<and> list_all is_digit d2
                then Some (digits_value d1, Some (digits_value d2)) else None))"

definition parse_component :: "int set option \<Rightarrow> string \<Rightarrow> int set result" where
  "parse_component present component =
     (case match_component (strip component) of
        None \<Rightarrow> Inl (ValueError (''Invalid cpu-pool CPU list component: '' @ py_repr component))
      | Some (start, group2) \<Rightarrow>
          let stop = (case group2 of None \<Rightarrow> start | Some n \<Rightarrow> n) in
          raise_if (stop < start)
            (ValueError (''Invalid cpu-pool descending range: '' @ py_repr component))
          (case present of
             None \<Rightarrow>
               raise_if (max_cpu_id < stop)
                 (ValueError (''cpu-pool CPU ID exceeds '' @ str_int max_cpu_id @ '': '' @ py_repr component))
                 (Inr {start..stop})
           | Some P \<Rightarrow>
               raise_if (start \<notin> P \<or> stop \<notin> P \<or> py_len P < stop - start + 1)
                 (ValueError (''cpu-pool range is outside present CPU topology: '' @ py_repr component))
               (raise_if (\<not> {start..stop} \<subseteq> P)
                 (ValueError (''cpu-pool includes CPUs not present: '' @ py_repr component))
                 (Inr {start..stop}))))"

fun parse_components :: "int set option \<Rightarrow> string list \<Rightarrow> int set \<Rightarrow> int set result" where
  "parse_components present [] cpus = Inr cpus"
| "parse_components present (c # cs) cpus =
     bindE (parse_component present c) (\<lambda>S. parse_components present cs (cpus \<union> S))"

definition parse_cpu_list :: "string \<Rightarrow> int set option \<Rightarrow> bool \<Rightarrow> int set result" where
  "parse_cpu_list value_text present allow_empty =
     (if allow_empty \<and> strip value_text = [] then Inr {}
      else parse_components present (split_on (CHR '','') value_text) {})"

definition read_cpu_list :: "host \<Rightarrow> string \<Rightarrow> int set result" where
  "read_cpu_list h path =
     (case file_text h path of
        None \<Rightarrow> Inl (ValueError (''Failed to read CPU topology '' @ path))
      | Some t \<Rightarrow> parse_cpu_list t None True)"

section \<open>The snap option\<close>

definition read_snap_pool_option :: "(string \<Rightarrow> json option) \<Rightarrow> string \<Rightarrow> string option result" where
  "read_snap_pool_option snapctl_get key =
     (case snapctl_get key of
        None \<Rightarrow> Inl (ValueError ''Failed to read snap cpu-pool configuration'')
      | Some (JObj document) \<Rightarrow>
          (case dict_get document key JNull of
             JInt n \<Rightarrow> Inr (Some (str_int n))
           | JNull \<Rightarrow> Inr None
           | JStr s \<Rightarrow> Inr (Some s)
           | _ \<Rightarrow> Inl (ValueError ''cpu-pool must be 'isolated' or a CPU list''))
      | Some _ \<Rightarrow> Inl (ValueError ''Invalid snap cpu-pool configuration document''))"

definition read_snap_cpu_pool :: "(string \<Rightarrow> json option) \<Rightarrow> string option result" where
  "read_snap_cpu_pool snapctl_get = read_snap_pool_option snapctl_get ''cpu-pool''"

section \<open>Providers\<close>

record cpu_pool_provider =
  prov_source :: pool_source
  prov_configured :: "int set"

record cpu_pool_snapshot =
  snap_source :: pool_source
  snap_configured :: "int set"
  snap_eligible :: "int set"

text \<open>Whether the configuration asks for a pool of its own.\<close>

definition custom_pool :: "string option \<Rightarrow> string option" where
  "custom_pool configuration =
     (case configuration of
        None \<Rightarrow> None
      | Some c \<Rightarrow> if strip c = ''isolated'' then None else Some c)"

definition make_provider :: "host \<Rightarrow> string option \<Rightarrow> cpu_pool_provider result" where
  "make_provider h configuration =
     (case custom_pool configuration of
        None \<Rightarrow>
          bindE (get_isolated_cpus h) (\<lambda>t.
          bindE (parse_cpu_list t None True) (\<lambda>S.
            Inr \<lparr>prov_source = SourceIsolated, prov_configured = S\<rparr>))
      | Some c \<Rightarrow>
          bindE (parse_cpu_list c None False) (\<lambda>S.
            Inr \<lparr>prov_source = SourceConfigured, prov_configured = S\<rparr>))"

definition without_capacity :: "pool_source \<Rightarrow> cpu_pool_provider" where
  "without_capacity source = \<lparr>prov_source = source, prov_configured = {}\<rparr>"

definition pool_snapshot :: "host \<Rightarrow> cpu_pool_provider \<Rightarrow> bool \<Rightarrow> cpu_pool_snapshot result" where
  "pool_snapshot h provider allow_unavailable =
     bindE (case read_cpu_list h online_cpus_path of
              Inl e \<Rightarrow> if is_value_error e \<and> allow_unavailable then Inr {} else Inl e
            | Inr online \<Rightarrow> Inr online)
       (\<lambda>online. Inr \<lparr>snap_source = prov_source provider, snap_configured = prov_configured provider,
          snap_eligible = prov_configured provider \<inter> online\<rparr>)"

definition validate_claims :: "cpu_pool_provider \<Rightarrow> int set \<Rightarrow> unit result" where
  "validate_claims provider claimed =
     (let excluded = claimed - prov_configured provider in
      raise_if (excluded \<noteq> {})
        (ValueError (''cpu-pool excludes allocated CPUs: '' @ set_ranges excluded
           @ ''; release or migrate these allocations before changing the pool''))
        (Inr ()))"

definition check_online :: "host \<Rightarrow> int set \<Rightarrow> unit result" where
  "check_online h selected =
     bindE (read_cpu_list h online_cpus_path) (\<lambda>online.
       let unavailable = selected - online in
       raise_if (unavailable \<noteq> {})
         (ValueError (''Selected CPUs became unavailable: '' @ set_ranges unavailable
            @ ''; retry the allocation request''))
         (Inr ()))"

section \<open>The two pools\<close>

record cpu_pools =
  isolated_pool :: cpu_pool_provider
  general_pool :: "cpu_pool_provider option"

definition validate_disjoint :: "cpu_pools \<Rightarrow> unit result" where
  "validate_disjoint pools =
     (case general_pool pools of
        None \<Rightarrow> Inr ()
      | Some g \<Rightarrow>
          let overlap = prov_configured (isolated_pool pools) \<inter> prov_configured g in
          raise_if (overlap \<noteq> {})
            (ValueError (''General cpu-pool overlaps isolated CPUs: '' @ set_ranges overlap))
            (Inr ()))"

definition make_pools :: "host \<Rightarrow> string option \<Rightarrow> cpu_pools result" where
  "make_pools h configuration =
     bindE (make_provider h None) (\<lambda>isolated.
       case custom_pool configuration of
         None \<Rightarrow> Inr \<lparr>isolated_pool = isolated, general_pool = None\<rparr>
       | Some c \<Rightarrow>
           bindE (make_provider h (Some c)) (\<lambda>general.
           let pools = \<lparr>isolated_pool = isolated, general_pool = Some general\<rparr>
           in bindE (validate_disjoint pools) (\<lambda>_. Inr pools)))"

definition select_pool :: "cpu_pools \<Rightarrow> cpu_pool_name \<Rightarrow> cpu_pool_provider result" where
  "select_pool pools pool =
     (if pool = ISOLATED then Inr (isolated_pool pools)
      else (case general_pool pools of
              None \<Rightarrow> Inl (ValueError ''CPU pool general is not configured'')
            | Some g \<Rightarrow> Inr g))"

text \<open>
  The general pool at startup, given the isolated one if it could be read: every exception
  leaves a pool without capacity.
\<close>

definition startup_general ::
  "host \<Rightarrow> (string \<Rightarrow> json option) \<Rightarrow> cpu_pool_provider option \<Rightarrow> cpu_pool_provider option result" where
  "startup_general h snapctl_get known_isolated =
     bindE (read_snap_cpu_pool snapctl_get) (\<lambda>configuration.
       case custom_pool configuration of
         None \<Rightarrow> Inr None
       | Some c \<Rightarrow>
           bindE (make_provider h (Some c)) (\<lambda>general.
             case known_isolated of
               None \<Rightarrow> Inl (ValueError ''Cannot validate general pool without isolated CPU topology'')
             | Some i \<Rightarrow>
                 bindE (validate_disjoint \<lparr>isolated_pool = i, general_pool = Some general\<rparr>)
                   (\<lambda>_. Inr (Some general))))"

definition load_startup_pool :: "host \<Rightarrow> (string \<Rightarrow> json option) \<Rightarrow> cpu_pools" where
  "load_startup_pool h snapctl_get =
     (let known = (case make_provider h None of Inl e \<Rightarrow> None | Inr p \<Rightarrow> Some p)
      in \<lparr>isolated_pool = (case known of None \<Rightarrow> without_capacity SourceIsolated | Some p \<Rightarrow> p),
          general_pool = (case startup_general h snapctl_get known of
                            Inl e \<Rightarrow> Some (without_capacity SourceConfigured) | Inr g \<Rightarrow> g)\<rparr>)"

section \<open>The configure hook\<close>

definition validated_pool_option :: string where
  "validated_pool_option = ''internal.validated-cpu-pool''"

text \<open>The normalized configuration, after the checks new operator input must pass.\<close>

definition normalize_configuration :: "host \<Rightarrow> string option \<Rightarrow> string option \<Rightarrow> string result" where
  "normalize_configuration h configuration accepted =
     (case custom_pool configuration of
        None \<Rightarrow> Inr ''isolated''
      | Some c \<Rightarrow>
          bindE (parse_cpu_list c None False) (\<lambda>S.
          let normalized = set_ranges S in
          if Some normalized \<noteq> accepted
          then bindE (read_cpu_list h present_cpus_path) (\<lambda>present.
               bindE (parse_cpu_list c (Some present) False) (\<lambda>_. Inr normalized))
          else Inr normalized))"

text \<open>The end of the hook: the claims are checked and the normalized text is recorded.\<close>

definition record_configuration ::
  "cpu_pools \<Rightarrow> string \<Rightarrow> (string \<Rightarrow> bool) \<Rightarrow> int set \<Rightarrow> string option result" where
  "record_configuration pools normalized snapctl_set claimed =
     bindE (if general_pool pools \<noteq> None \<or> claimed \<noteq> {}
            then bindE (select_pool pools GENERAL) (\<lambda>g. validate_claims g claimed)
            else Inr ()) (\<lambda>_.
       raise_if (\<not> snapctl_set normalized)
         (ValueError ''Failed to record validated cpu-pool configuration'')
         (Inr (Some normalized)))"

text \<open>The second half of the hook: a configuration that is not the accepted one.\<close>

definition accept_configuration ::
  "host \<Rightarrow> string option \<Rightarrow> string \<Rightarrow> (string \<Rightarrow> bool) \<Rightarrow> adb \<Rightarrow> string option result" where
  "accept_configuration h configuration normalized snapctl_set db =
     bindE (make_pools h configuration) (\<lambda>pools.
     bindE (get_claimed_cpus db (Some GENERAL)) (record_configuration pools normalized snapctl_set))"

text \<open>
  The hook on the given ledger: the value it records with \<open>snapctl set\<close>, if any.
\<close>

definition validate_snap_configuration ::
  "host \<Rightarrow> (string \<Rightarrow> json option) \<Rightarrow> (string \<Rightarrow> bool) \<Rightarrow> adb \<Rightarrow> string option result" where
  "validate_snap_configuration h snapctl_get snapctl_set db =
     bindE (read_snap_cpu_pool snapctl_get) (\<lambda>configuration.
     bindE (read_snap_pool_option snapctl_get validated_pool_option) (\<lambda>accepted.
     bindE (normalize_configuration h configuration accepted) (\<lambda>normalized.
       if Some normalized = accepted then Inr None
       else accept_configuration h configuration normalized snapctl_set db)))"

text \<open>The exit status of \<open>main\<close>.\<close>

definition hook_exit_status :: "'a result \<Rightarrow> int" where
  "hook_exit_status r = (case r of Inl e \<Rightarrow> 1 | Inr x \<Rightarrow> 0)"

section \<open>What a CPU list can contain\<close>

lemma digits_value_acc: "list_all is_digit s \<Longrightarrow> 0 \<le> a \<Longrightarrow> 0 \<le> foldl (\<lambda>a c. 10 * a + digit_val c) a s"
  by (induction s arbitrary: a) (auto simp: digit_val_nonneg)

lemma digits_value_nonneg: "list_all is_digit s \<Longrightarrow> 0 \<le> digits_value s"
  by (simp add: digits_value_def digits_value_acc)

lemma takeWhile_digits: "list_all is_digit (takeWhile is_digit s)"
  by (induction s) auto

lemma match_component_nonneg:
  "match_component t = Some (a, g) \<Longrightarrow> 0 \<le> a \<and> (\<forall>b. g = Some b \<longrightarrow> 0 \<le> b)"
  by (auto simp: match_component_def Let_def digits_value_nonneg takeWhile_digits
      split: if_splits list.splits)

text \<open>The IDs a list may name: present ones, or at most \<^const>\<open>max_cpu_id\<close>.\<close>

definition admissible :: "int set option \<Rightarrow> int set" where
  "admissible present = (case present of None \<Rightarrow> {0..max_cpu_id} | Some P \<Rightarrow> P)"

lemma parse_component_Inr:
  assumes "parse_component present c = Inr S"
  shows "S \<noteq> {}" "cpu_ids S" "S \<subseteq> admissible present"
proof -
  obtain a g where m: "match_component (strip c) = Some (a, g)"
    using assms by (auto simp: parse_component_def split: option.splits)
  let ?b = "case g of None \<Rightarrow> a | Some n \<Rightarrow> n"
  have "S = {a..?b} \<and> a \<le> ?b \<and> {a..?b} \<subseteq> admissible present"
    using assms m match_component_nonneg [OF m]
    by (cases present) (auto simp: parse_component_def Let_def admissible_def raise_if_def split: if_splits)
  then show "S \<noteq> {}" "cpu_ids S" "S \<subseteq> admissible present"
    using match_component_nonneg [OF m] by auto
qed

lemma parse_components_Inr:
  "parse_components present cs cpus = Inr S \<Longrightarrow>
   cpus \<subseteq> S \<and> (cpu_ids cpus \<longrightarrow> cpu_ids S) \<and> (cpus \<subseteq> admissible present \<longrightarrow> S \<subseteq> admissible present)
     \<and> (cs \<noteq> [] \<longrightarrow> S \<noteq> {})"
proof (induction cs arbitrary: cpus)
  case (Cons c cs)
  then obtain T where T: "parse_component present c = Inr T"
    "parse_components present cs (cpus \<union> T) = Inr S" by auto
  show ?case using Cons.IH [OF T(2)] parse_component_Inr [OF T(1)] by auto
qed simp

lemma parse_cpu_list_Inr:
  assumes "parse_cpu_list v present allow_empty = Inr S"
  shows "cpu_ids S" "S \<subseteq> admissible present" "S = {} \<longrightarrow> allow_empty"
  using assms parse_components_Inr [of present "split_on (CHR '','') v" "{}" S]
  by (auto simp: parse_cpu_list_def split: if_splits)

text \<open>Which bound is checked does not change what a list denotes.\<close>

lemma parse_component_value:
  assumes "parse_component p c = Inr S" "parse_component q c = Inr T"
  shows "S = T"
proof -
  obtain a g where m: "match_component (strip c) = Some (a, g)"
    using assms by (auto simp: parse_component_def split: option.splits)
  have "parse_component r c = Inr X \<Longrightarrow> X = {a..(case g of None \<Rightarrow> a | Some n \<Rightarrow> n)}" for r X
    using m by (cases r) (auto simp: parse_component_def Let_def raise_if_def split: if_splits)
  then show ?thesis using assms by metis
qed

lemma parse_components_value:
  "parse_components p cs cpus = Inr S \<Longrightarrow> parse_components q cs cpus = Inr T \<Longrightarrow> S = T"
proof (induction cs arbitrary: cpus)
  case (Cons c cs)
  then obtain A B where "parse_component p c = Inr A" "parse_components p cs (cpus \<union> A) = Inr S"
    "parse_component q c = Inr B" "parse_components q cs (cpus \<union> B) = Inr T" by auto
  then show ?case using Cons.IH parse_component_value by metis
qed simp

lemma parse_cpu_list_present:
  "parse_cpu_list v p False = Inr S \<Longrightarrow> parse_cpu_list v q False = Inr T \<Longrightarrow> S = T"
  using parse_components_value by (auto simp: parse_cpu_list_def)

lemma read_cpu_list_ids: "read_cpu_list h path = Inr S \<Longrightarrow> cpu_ids S"
  by (auto simp: read_cpu_list_def parse_cpu_list_Inr(1) split: option.splits)

section \<open>Canonical text is a CPU list\<close>

lemma read_digits_value:
  "list_all is_digit s \<Longrightarrow> read_digits a s = Some (foldl (\<lambda>a c. 10 * a + digit_val c) a s)"
  by (induction a s rule: read_digits.induct) auto

lemma read_int_value: "list_all is_digit s \<Longrightarrow> s \<noteq> [] \<Longrightarrow> read_int s = Some (digits_value s)"
  by (cases s) (simp_all add: read_int_digits read_unsigned_def read_digits_value digits_value_def)

lemma digits_value_str_int: "0 \<le> n \<Longrightarrow> digits_value (str_int n) = n"
  using py_int_str_int [of n] read_int_value [OF str_int_digits, of n]
  by (simp add: py_int_def)

lemma match_single: "0 \<le> n \<Longrightarrow> match_component (str_int n) = Some (n, None)"
proof -
  assume n: "0 \<le> n"
  then have "\<forall>x \<in> set (str_int n). is_digit x" using str_int_digits [of n] by (simp add: list_all_iff)
  then have parts: "takeWhile is_digit (str_int n) = str_int n" "dropWhile is_digit (str_int n) = []"
    by (simp_all add: takeWhile_eq_all_conv dropWhile_eq_Nil_conv)
  show ?thesis using n by (simp add: match_component_def Let_def parts digits_value_str_int)
qed

lemma match_range:
  assumes "0 \<le> a" "0 \<le> b"
  shows "match_component (str_int a @ ''-'' @ str_int b) = Some (a, Some b)"
proof -
  have d: "\<forall>x \<in> set (str_int a). is_digit x" "\<forall>x \<in> set (str_int b). is_digit x"
    using assms str_int_digits by (auto simp: list_all_iff)
  have nd: "\<not> is_digit (CHR ''-'')" "\<not> is_space (CHR ''-'')" by (simp_all add: is_digit_def is_space_def)
  have "takeWhile is_digit (str_int a @ CHR ''-'' # str_int b) = str_int a"
    "dropWhile is_digit (str_int a @ CHR ''-'' # str_int b) = CHR ''-'' # str_int b"
    using d nd by (simp_all add: takeWhile_tail dropWhile_append)
  moreover have "dropWhile is_space (str_int b) = str_int b"
    using d(2) digit_not_space by (intro dropWhile_none) auto
  note parts = this calculation
  show ?thesis using d assms
    by (simp add: match_component_def Let_def parts nd list_all_iff digits_value_str_int
        del: dropWhile_eq_Nil_conv)
qed

lemma component_range_text:
  assumes "0 \<le> a" "a \<le> b" "b \<le> max_cpu_id"
  shows "parse_component None (range_text a b) = Inr {a..b}"
proof -
  have "match_component (range_text a b) = Some (a, if a = b then None else Some b)"
    using assms match_single [of b] match_range [of a b] by (cases "a = b") (simp_all add: range_text_def)
  then show ?thesis
    using assms strip_part_text [OF range_text_part, of a b] by (simp add: parse_component_def Let_def)
qed

lemma ranges_loop_components:
  "sorted (a # b # cs) \<Longrightarrow> 0 \<le> a \<Longrightarrow> \<forall>c \<in> set (b # cs). c \<le> max_cpu_id \<Longrightarrow>
   parse_components None (ranges_loop cs [] a b) acc = Inr (acc \<union> {a..b} \<union> set cs)"
proof (induction cs arbitrary: a b acc)
  case Nil
  then show ?case by (simp add: component_range_text)
next
  case (Cons c cs)
  show ?case
  proof (cases "c = b + 1")
    case True
    have "{a..b + 1} = insert (b + 1) {a..b}" using Cons.prems(1) by auto
    moreover have "parse_components None (ranges_loop cs [] a c) acc = Inr (acc \<union> {a..c} \<union> set cs)"
      using Cons.prems by (intro Cons.IH) auto
    ultimately show ?thesis using True by simp
  next
    case False
    have "parse_components None (ranges_loop cs [] c c) (acc \<union> {a..b})
        = Inr (acc \<union> {a..b} \<union> {c..c} \<union> set cs)"
      using Cons.prems by (intro Cons.IH) auto
    moreover have "parse_component None (range_text a b) = Inr {a..b}"
      using Cons.prems by (intro component_range_text) auto
    ultimately show ?thesis using False by (simp add: ranges_loop_acc [of cs "[range_text a b]"])
  qed
qed

lemma parse_cpu_list_to_ranges:
  assumes "cpu_ids S" "S \<noteq> {}" "S \<subseteq> {0..max_cpu_id}"
  shows "parse_cpu_list (set_ranges S) None allow_empty = Inr S"
proof -
  have fin: "finite S" using assms(1) by blast
  obtain c cs where xs: "py_sorted S = c # cs"
    using assms(2) fin by (metis list.exhaust set_empty set_sorted_list_of_set)
  have st: "S = insert c (set cs)" by (metis xs fin list.simps(15) set_sorted_list_of_set)
  have srt: "sorted (c # cs)" by (metis xs sorted_list_of_set.sorted_sorted_key_list_of_set)
  then have "sort (c # cs) = c # cs" by (rule sorted_sort_id)
  then have eq: "set_ranges S = join '','' (ranges_loop cs [] c c)" by (simp add: to_ranges_def xs)
  have pos: "\<forall>x \<in> set (py_sorted S). 0 \<le> x" using assms(1) fin by (simp add: cpu_ids_def)
  have c0: "0 \<le> c" using pos xs by simp
  have parts: "\<forall>p \<in> set (ranges_loop cs [] c c). part_text p"
    using ranges_loop_parts [OF srt c0] by simp
  then have split: "split_on (CHR '','') (set_ranges S) = ranges_loop cs [] c c"
    unfolding eq by (simp add: split_on_join ranges_loop_ne part_text_no_comma)
  have "parse_components None (ranges_loop cs [] c c) {} = Inr ({} \<union> {c..c} \<union> set cs)"
    using srt c0 assms(3) st by (intro ranges_loop_components) auto
  moreover have "strip (set_ranges S) \<noteq> []"
    using strip_to_ranges [OF _ pos] xs by simp
  ultimately show ?thesis using split st by (simp add: parse_cpu_list_def)
qed

end
