(* ===== verification/Db_Session.thy ===== *)
theory Db_Session
  imports Store_Sections
begin

text \<open>
  Computations of a database that has fields in memory and a section in the store: they may
  return, raise or die, and they thread both. With them, reading a Python list of strings of
  the result of each step, \<open>try\<close>, and the refresh of the fields from the section.
\<close>

type_synonym ('m, 'a) session = "'m \<Rightarrow> store \<Rightarrow> 'a outcome \<times> 'm \<times> store"

definition return_s :: "'a \<Rightarrow> ('m, 'a) session" where
  "return_s x = (\<lambda>m s. (Ret x, m, s))"

definition raise_s :: "py_error \<Rightarrow> ('m, 'a) session" where
  "raise_s e = (\<lambda>m s. (Raise e, m, s))"

definition lift_s :: "'a result \<Rightarrow> ('m, 'a) session" where
  "lift_s r = (case r of Inl e \<Rightarrow> raise_s e | Inr x \<Rightarrow> return_s x)"

definition bind_s :: "('m, 'a) session \<Rightarrow> ('a \<Rightarrow> ('m, 'b) session) \<Rightarrow> ('m, 'b) session" where
  "bind_s f g = (\<lambda>m s. case f m s of
     (Ret x, m', s') \<Rightarrow> g x m' s'
   | (Raise e, m', s') \<Rightarrow> (Raise e, m', s')
   | (Crash, m', s') \<Rightarrow> (Crash, m', s'))"

definition try_s :: "('m, 'a) session \<Rightarrow> (py_error \<Rightarrow> ('m, 'a) session) \<Rightarrow> ('m, 'a) session" where
  "try_s f h = (\<lambda>m s. case f m s of
     (Ret x, m', s') \<Rightarrow> (Ret x, m', s')
   | (Raise e, m', s') \<Rightarrow> h e m' s'
   | (Crash, m', s') \<Rightarrow> (Crash, m', s'))"

fun fold_s :: "('x \<Rightarrow> 'a \<Rightarrow> ('m, 'a) session) \<Rightarrow> 'x list \<Rightarrow> 'a \<Rightarrow> ('m, 'a) session" where
  "fold_s f [] a = return_s a"
| "fold_s f (x # xs) a = bind_s (f x a) (fold_s f xs)"

section \<open>Sessions that only read\<close>

text \<open>A session that leaves the files alone, whatever its outcome.\<close>

definition reads_only :: "('m, 'a) session \<Rightarrow> bool" where
  "reads_only f \<longleftrightarrow> (\<forall>m s out m' s'. f m s = (out, m', s') \<longrightarrow> untouched s s')"

lemma reads_onlyD: "reads_only f \<Longrightarrow> f m s = (out, m', s') \<Longrightarrow> untouched s s'"
  by (auto simp: reads_only_def)

lemma untouched_trans: "untouched s t \<Longrightarrow> untouched t u \<Longrightarrow> untouched s u"
  by (auto simp: untouched_def) blast

lemma reads_only_return [intro]: "reads_only (return_s x)"
  and reads_only_raise [intro]: "reads_only (raise_s e)"
  by (auto simp: reads_only_def return_s_def raise_s_def)

lemma reads_only_lift [intro]: "reads_only (lift_s r)"
  by (auto simp: lift_s_def split: sum.splits)

lemma reads_only_bind [intro]:
  "reads_only f \<Longrightarrow> (\<And>x. reads_only (g x)) \<Longrightarrow> reads_only (bind_s f g)"
  unfolding reads_only_def bind_s_def
  by (auto split: prod.splits outcome.splits) (meson untouched_trans)

lemma reads_only_try [intro]:
  "reads_only f \<Longrightarrow> (\<And>e. reads_only (h e)) \<Longrightarrow> reads_only (try_s f h)"
  unfolding reads_only_def try_s_def
  by (auto split: prod.splits outcome.splits) (meson untouched_trans)

lemma reads_only_fold [intro]: "(\<And>x a. reads_only (f x a)) \<Longrightarrow> reads_only (fold_s f xs a)"
  by (induction xs arbitrary: a) auto

section \<open>Evaluating sessions\<close>

lemma session_simps [simp, store_simps]:
  "return_s x m s = (Ret x, m, s)" "raise_s e m s = (Raise e, m, s)"
  "lift_s (Inl e) = raise_s e" "lift_s (Inr x) = return_s x"
  by (simp_all add: return_s_def raise_s_def lift_s_def)

lemma bind_s_Ret: "f m s = (Ret x, m', s') \<Longrightarrow> bind_s f g m s = g x m' s'"
  by (simp add: bind_s_def)

lemma bind_s_RetE:
  assumes "bind_s f g m s = (Ret y, m', s')"
  obtains x m1 s1 where "f m s = (Ret x, m1, s1)" "g x m1 s1 = (Ret y, m', s')"
  using assms by (auto simp: bind_s_def split: prod.splits outcome.splits)

end
