(* ===== verification/Hugepages_DB.thy ===== *)
theory Hugepages_DB
  imports Db_Session Schemas
begin

text \<open>
  \<open>epa_orchestrator/hugepages_db.py\<close>: the recorded hugepage requests per service, their
  transactions on the section \<open>hugepages_db\<close>, and the abstract map from service, node and size
  to a count that they implement. Turning a JSON value into an \<open>int\<close> field is pydantic's work,
  the parameter \<open>to_int\<close>.
\<close>

section \<open>The table and its JSON form\<close>

type_synonym hugepage_table = "(string, hugepage_allocation_entry list) dict"

definition entry_json :: "hugepage_allocation_entry \<Rightarrow> json" where
  "entry_json e = JObj [(''node_id'', JInt (hp_node_id e)), (''size_kb'', JInt (hp_size_kb e)),
                        (''count'', JInt (hp_count e))]"

definition table_json :: "hugepage_table \<Rightarrow> json" where
  "table_json t = JObj (List.map (\<lambda>(svc, es). (svc, JArr (List.map entry_json es))) t)"

text \<open>\<open>HugepageAllocationEntry(**entry)\<close>; \<open>None\<close> is any exception, which skips the entry.\<close>

definition restore_entry :: "(json \<Rightarrow> int option) \<Rightarrow> json \<Rightarrow> hugepage_allocation_entry option" where
  "restore_entry to_int v =
     (case v of
        JObj items \<Rightarrow>
          (case (Option.bind (map_of items ''node_id'') to_int,
                 Option.bind (map_of items ''size_kb'') to_int,
                 Option.bind (map_of items ''count'') to_int) of
             (Some n, Some k, Some c) \<Rightarrow> Some \<lparr>hp_node_id = n, hp_size_kb = k, hp_count = c\<rparr>
           | _ \<Rightarrow> None)
      | _ \<Rightarrow> None)"

definition restore_service ::
  "(json \<Rightarrow> int option) \<Rightarrow> string \<times> json \<Rightarrow> hugepage_table \<Rightarrow> hugepage_table" where
  "restore_service to_int item restored =
     (case snd item of
        JArr entries \<Rightarrow>
          let valid_entries = List.map_filter (restore_entry to_int) entries
          in if valid_entries \<noteq> [] then dict_set (fst item) valid_entries restored else restored
      | _ \<Rightarrow> restored)"

definition restore_allocations :: "(json \<Rightarrow> int option) \<Rightarrow> doc \<Rightarrow> hugepage_table" where
  "restore_allocations to_int data =
     (case map_of data ''allocations'' of
        Some (JObj raw) \<Rightarrow> fold (restore_service to_int) raw []
      | _ \<Rightarrow> [])"

section \<open>Operations on a candidate\<close>

definition same_key :: "int \<Rightarrow> int \<Rightarrow> hugepage_allocation_entry \<Rightarrow> bool" where
  "same_key node_id size_kb e \<longleftrightarrow> hp_node_id e = node_id \<and> hp_size_kb e = size_kb"

definition upsert_entry :: "string \<Rightarrow> int \<Rightarrow> int \<Rightarrow> int \<Rightarrow> hugepage_table \<Rightarrow> hugepage_table" where
  "upsert_entry service_name node_id size_kb cnt t =
     (let retained = List.filter (\<lambda>e. \<not> same_key node_id size_kb e) (dict_get t service_name [])
      in dict_set service_name
           (retained @ [\<lparr>hp_node_id = node_id, hp_size_kb = size_kb, hp_count = cnt\<rparr>]) t)"

definition remove_entry :: "string \<Rightarrow> int \<Rightarrow> int \<Rightarrow> hugepage_table \<Rightarrow> bool \<times> hugepage_table" where
  "remove_entry service_name node_id size_kb t =
     (let entries = dict_get t service_name [];
          retained = List.filter (\<lambda>e. \<not> same_key node_id size_kb e) entries
      in if length retained = length entries then (False, t)
         else if retained \<noteq> [] then (True, dict_set service_name retained t)
         else (True, dict_pop service_name t))"

text \<open>\<open>list_allocations_for_node\<close> on the refreshed table.\<close>

definition node_entries :: "int \<Rightarrow> hugepage_table \<Rightarrow> node_hugepage_allocation list" where
  "node_entries node_id t = concat (List.map (\<lambda>(svc, es).
     List.map (\<lambda>e. \<lparr>nha_service_name = svc, nha_size_kb = hp_size_kb e, nha_count = hp_count e\<rparr>)
       (List.filter (\<lambda>e. hp_node_id e = node_id) es)) t)"

section \<open>The database\<close>

definition hp_load :: "(json \<Rightarrow> int option) \<Rightarrow> (hugepage_table, unit) session" where
  "hp_load to_int m s =
     (case read_section ''hugepages_db'' s of
        (Ret c, s') \<Rightarrow> (Ret (), restore_allocations to_int c, s')
      | (Raise e, s') \<Rightarrow> (Raise e, m, s')
      | (Crash, s') \<Rightarrow> (Crash, m, s'))"

definition hp_update ::
  "(json \<Rightarrow> int option) \<Rightarrow> (hugepage_table \<Rightarrow> 'a \<times> hugepage_table) \<Rightarrow> doc \<Rightarrow>
   (doc \<times> 'a \<times> hugepage_table) result" where
  "hp_update to_int operation data =
     (case operation (restore_allocations to_int data) of
        (x, candidate) \<Rightarrow> Inr (dict_set ''allocations'' (table_json candidate) data, x, candidate))"

definition hp_transaction ::
  "(json \<Rightarrow> int option) \<Rightarrow> (hugepage_table \<Rightarrow> 'a \<times> hugepage_table) \<Rightarrow> string \<Rightarrow>
   (hugepage_table, 'a) session" where
  "hp_transaction to_int operation now m s =
     (case transaction_section ''hugepages_db'' (hp_update to_int operation) now s of
        (Ret (x, candidate), s') \<Rightarrow> (Ret x, candidate, s')
      | (Raise e, s') \<Rightarrow> bind_s (hp_load to_int) (\<lambda>_. raise_s e) m s'
      | (Crash, s') \<Rightarrow> (Crash, m, s'))"

definition upsert_allocation ::
  "(json \<Rightarrow> int option) \<Rightarrow> string \<Rightarrow> string \<Rightarrow> int \<Rightarrow> int \<Rightarrow> int \<Rightarrow> (hugepage_table, unit) session" where
  "upsert_allocation to_int now service_name node_id size_kb cnt =
     hp_transaction to_int (\<lambda>t. ((), upsert_entry service_name node_id size_kb cnt t)) now"

definition remove_allocation_for_key ::
  "(json \<Rightarrow> int option) \<Rightarrow> string \<Rightarrow> string \<Rightarrow> int \<Rightarrow> int \<Rightarrow> (hugepage_table, bool) session" where
  "remove_allocation_for_key to_int now service_name node_id size_kb =
     hp_transaction to_int (remove_entry service_name node_id size_kb) now"

definition clear_hugepage_allocations ::
  "(json \<Rightarrow> int option) \<Rightarrow> string \<Rightarrow> (hugepage_table, unit) session" where
  "clear_hugepage_allocations to_int now = hp_transaction to_int (\<lambda>t. ((), [])) now"

definition list_hugepage_allocations ::
  "(json \<Rightarrow> int option) \<Rightarrow> (hugepage_table, hugepage_table) session" where
  "list_hugepage_allocations to_int = bind_s (hp_load to_int) (\<lambda>_ m s. (Ret m, m, s))"

definition list_allocations_for_node ::
  "(json \<Rightarrow> int option) \<Rightarrow> int \<Rightarrow> (hugepage_table, node_hugepage_allocation list) session" where
  "list_allocations_for_node to_int node_id =
     bind_s (hp_load to_int) (\<lambda>_ m s. (Ret (node_entries node_id m), m, s))"

definition get_hugepage_allocation ::
  "(json \<Rightarrow> int option) \<Rightarrow> string \<Rightarrow> (hugepage_table, hugepage_allocation_entry list option) session" where
  "get_hugepage_allocation to_int service_name =
     bind_s (hp_load to_int) (\<lambda>_ m s. (Ret (map_of m service_name), m, s))"

section \<open>The abstract map of counts\<close>

text \<open>A sound table: unique services, no empty list, one entry per node and size.\<close>

definition entries_ok :: "hugepage_allocation_entry list \<Rightarrow> bool" where
  "entries_ok es \<longleftrightarrow> es \<noteq> [] \<and> distinct (List.map (\<lambda>e. (hp_node_id e, hp_size_kb e)) es)"

definition table_sound :: "hugepage_table \<Rightarrow> bool" where
  "table_sound t \<longleftrightarrow> dict_ok t \<and> (\<forall>es \<in> set (List.map snd t). entries_ok es)"

definition recorded :: "hugepage_table \<Rightarrow> string \<Rightarrow> int \<Rightarrow> int \<Rightarrow> int option" where
  "recorded t service_name node_id size_kb =
     map_option hp_count (List.find (same_key node_id size_kb) (dict_get t service_name []))"

lemma find_append: "List.find P (xs @ ys) = (case List.find P xs of None \<Rightarrow> List.find P ys | Some x \<Rightarrow> Some x)"
  by (induction xs) auto

lemma find_filter_other:
  "(n, k) \<noteq> (n', k') \<Longrightarrow>
   List.find (same_key n k) (List.filter (\<lambda>e. \<not> same_key n' k' e) es) = List.find (same_key n k) es"
  by (induction es) (auto simp: same_key_def)

lemma find_filter_same: "List.find P (List.filter (\<lambda>e. \<not> P e) es) = None"
  by (induction es) auto

lemma recorded_upsert:
  "recorded (upsert_entry svc n k c t) svc' n' k' =
     (if svc' = svc \<and> n' = n \<and> k' = k then Some c else recorded t svc' n' k')"
  by (auto simp: recorded_def upsert_entry_def Let_def find_append find_filter_same find_filter_other
      same_key_def [of n k "\<lparr>hp_node_id = n, hp_size_kb = k, hp_count = c\<rparr>"] split: option.splits)
    (auto simp: same_key_def)

text \<open>Comparing the lengths tells whether the key was there.\<close>

lemma length_filter_find:
  "length (List.filter (\<lambda>e. \<not> P e) es) = length es \<longleftrightarrow> List.find P es = None"
proof (induction es)
  case (Cons e es)
  then show ?case using length_filter_le [of "\<lambda>e. \<not> P e" es] by (auto simp del: length_filter_le)
qed simp

lemma find_filter_all: "List.find P es = None \<Longrightarrow> List.filter (\<lambda>e. \<not> P e) es = es"
  by (induction es) (auto split: if_splits)

lemma remove_entry_found:
  "fst (remove_entry svc n k t) \<longleftrightarrow> recorded t svc n k \<noteq> None"
  by (auto simp: remove_entry_def recorded_def Let_def length_filter_find)

lemma recorded_remove:
  "recorded (snd (remove_entry svc n k t)) svc' n' k' =
     (if svc' = svc \<and> n' = n \<and> k' = k then None else recorded t svc' n' k')"
proof -
  let ?rest = "List.filter (\<lambda>e. \<not> same_key n k e) (dict_get t svc [])"
  have "List.find (same_key n k) ?rest = None" by (rule find_filter_same)
  moreover have "(n', k') \<noteq> (n, k) \<Longrightarrow>
      List.find (same_key n' k') ?rest = List.find (same_key n' k') (dict_get t svc [])"
    by (rule find_filter_other)
  moreover have "?rest = [] \<Longrightarrow> (n', k') \<noteq> (n, k) \<Longrightarrow> List.find (same_key n' k') (dict_get t svc []) = None"
    using find_filter_other [of n' k' n k "dict_get t svc []"] by simp
  ultimately show ?thesis
    by (auto simp: remove_entry_def recorded_def Let_def length_filter_find)
qed

lemma entries_ok_filter:
  "entries_ok es \<or> es = [] \<Longrightarrow> distinct (List.map (\<lambda>e. (hp_node_id e, hp_size_kb e)) (List.filter P es))"
  by (auto simp: entries_ok_def distinct_map inj_on_filter_key_eq intro: inj_on_subset)

lemma table_sound_get: "table_sound t \<Longrightarrow> entries_ok (dict_get t svc []) \<or> dict_get t svc [] = []"
  by (auto simp: table_sound_def dict_get_def split: option.splits dest!: map_of_SomeD)

lemma table_sound_set: "table_sound t \<Longrightarrow> entries_ok es \<Longrightarrow> table_sound (dict_set svc es t)"
  using set_dict_set [of svc es t] by (auto simp: table_sound_def)

lemma table_sound_pop: "table_sound t \<Longrightarrow> table_sound (dict_pop svc t)"
  by (auto simp: table_sound_def dest!: subsetD [OF set_dict_pop])

lemma table_sound_upsert: "table_sound t \<Longrightarrow> table_sound (upsert_entry svc n k c t)"
  unfolding upsert_entry_def Let_def
  by (intro table_sound_set)
    (use entries_ok_filter [OF table_sound_get] in \<open>auto simp: entries_ok_def same_key_def\<close>)

lemma table_sound_remove: "table_sound t \<Longrightarrow> table_sound (snd (remove_entry svc n k t))"
  using entries_ok_filter [OF table_sound_get, of t "\<lambda>e. \<not> same_key n k e" svc]
  by (auto simp: remove_entry_def Let_def table_sound_pop intro!: table_sound_set simp: entries_ok_def)

section \<open>Saving and restoring\<close>

lemma dict_set_fresh: "k \<notin> fst ` set d \<Longrightarrow> dict_set k v d = d @ [(k, v)]"
  by (induction d) auto

lemma restore_entry_json:
  assumes "\<And>n. to_int (JInt n) = Some n"
  shows "restore_entry to_int (json_sort (entry_json e)) = Some e"
    and "restore_entry to_int (entry_json e) = Some e"
  by (simp_all add: restore_entry_def entry_json_def json_sort_JObj map_of_dump_load assms
      del: json_sort.simps(7))

lemma map_filter_entries:
  assumes "\<And>n. to_int (JInt n) = Some n"
  shows "List.map_filter (restore_entry to_int) (json_sort_values (List.map entry_json es)) = es"
  by (induction es) (simp_all add: restore_entry_json [OF assms] List.map_filter_simps del: json_sort.simps)

definition service_json :: "string \<times> hugepage_allocation_entry list \<Rightarrow> string \<times> json" where
  "service_json item = (fst item, json_sort (JArr (List.map entry_json (snd item))))"

lemma restore_services:
  assumes "\<And>n. to_int (JInt n) = Some n"
  shows "dict_ok (acc @ t) \<Longrightarrow> \<forall>es \<in> set (List.map snd t). es \<noteq> [] \<Longrightarrow>
    fold (restore_service to_int) (List.map service_json t) acc = acc @ t"
proof (induction t arbitrary: acc)
  case (Cons x t)
  obtain svc es where x: "x = (svc, es)" by (cases x)
  have "restore_service to_int (service_json x) acc = acc @ [(svc, es)]"
    using Cons.prems x
    by (simp add: restore_service_def service_json_def map_filter_entries [OF assms] dict_set_fresh)
  then show ?case using Cons.IH [of "acc @ [x]"] Cons.prems x by simp
qed simp

lemma dump_table_json:
  "json_sort (table_json t) = JObj (List.map service_json (sort_key fst t))"
proof -
  have "json_sort_items (List.map (\<lambda>(svc, es). (svc, JArr (List.map entry_json es))) t)
      = List.map service_json t"
    by (induction t) (auto simp: service_json_def)
  moreover have "sort_key fst (List.map service_json t) = List.map service_json (sort_key fst t)"
    by (rule sort_map_items) (simp add: service_json_def)
  ultimately show ?thesis by (simp add: table_json_def)
qed

text \<open>What is saved is what is restored, up to the order of the services.\<close>

lemma restore_saved:
  assumes "\<And>n. to_int (JInt n) = Some n" "table_sound t" "dict_ok data"
  shows "restore_allocations to_int (dump_load (dict_set ''allocations'' (table_json t) data))
    = sort_key fst t"
proof -
  have "dict_ok (sort_key fst t)" "\<forall>es \<in> set (List.map snd (sort_key fst t)). es \<noteq> []"
    using assms(2) by (auto simp: table_sound_def entries_ok_def)
  then show ?thesis
    using restore_services [OF assms(1), of "[]" "sort_key fst t"] assms(3)
    by (simp add: restore_allocations_def map_of_dump_load dump_table_json)
qed

lemma recorded_sorted: "table_sound t \<Longrightarrow> recorded (sort_key fst t) = recorded t"
  by (simp add: fun_eq_iff recorded_def dict_get_def map_of_sort_key table_sound_def)

lemma table_sound_sorted: "table_sound t \<Longrightarrow> table_sound (sort_key fst t)"
  by (simp add: table_sound_def)

section \<open>Transactions keep the tables sound\<close>

text \<open>The documented behaviour of the field conversion that the database relies on.\<close>

definition reads_ints :: "(json \<Rightarrow> int option) \<Rightarrow> bool" where
  "reads_ints to_int \<longleftrightarrow> (\<forall>n. to_int (JInt n) = Some n)"

lemma reads_intsD: "reads_ints to_int \<Longrightarrow> to_int (JInt n) = Some n"
  by (simp add: reads_ints_def)

definition hp_content_sound :: "(json \<Rightarrow> int option) \<Rightarrow> doc \<Rightarrow> bool" where
  "hp_content_sound to_int c \<longleftrightarrow>
     table_sound (restore_allocations to_int c) \<and>
     restore_allocations to_int (dump_load c) = sort_key fst (restore_allocations to_int c)"

lemma hp_sound_empty: "hp_content_sound to_int []"
  by (simp add: hp_content_sound_def restore_allocations_def table_sound_def dump_load_def)

lemma hp_sound_saved:
  assumes "reads_ints to_int" "table_sound t" "dict_ok data"
  shows "hp_content_sound to_int (dump_load (dict_set ''allocations'' (table_json t) data))"
  using restore_saved [OF reads_intsD [OF assms(1)] assms(2,3)] table_sound_sorted [OF assms(2)]
  by (simp add: hp_content_sound_def dump_load_idem)

lemma hp_sound_rewritten: "hp_content_sound to_int c \<Longrightarrow> hp_content_sound to_int (dump_load c)"
  by (simp add: hp_content_sound_def dump_load_idem table_sound_sorted)

definition keeps_table :: "(hugepage_table \<Rightarrow> 'a \<times> hugepage_table) \<Rightarrow> bool" where
  "keeps_table operation \<longleftrightarrow> (\<forall>t. table_sound t \<longrightarrow> table_sound (snd (operation t)))"

lemma keeps_table_operations:
  "keeps_table (\<lambda>t. ((), upsert_entry svc n k c t))"
  "keeps_table (remove_entry svc n k)"
  "keeps_table (\<lambda>t. ((), []))"
  by (simp_all add: keeps_table_def table_sound_upsert table_sound_remove) (simp add: table_sound_def)

text \<open>Every file the store may hold has a sound table.\<close>

definition pages_sound :: "(json \<Rightarrow> int option) \<Rightarrow> store \<Rightarrow> bool" where
  "pages_sound to_int s \<longleftrightarrow>
     store_ok s \<and> hugepage_section.contents_satisfy (hp_content_sound to_int) s"

definition stored_table :: "(json \<Rightarrow> int option) \<Rightarrow> store \<Rightarrow> hugepage_table option" where
  "stored_table to_int s = map_option (restore_allocations to_int) (section_of ''hugepages_db'' (state_file s))"

lemma pages_sound_content:
  "pages_sound to_int s \<Longrightarrow> section_of ''hugepages_db'' (state_file s) = Some c \<Longrightarrow>
   hp_content_sound to_int c \<and> doc_ok c"
proof -
  assume s: "pages_sound to_int s" and c: "section_of ''hugepages_db'' (state_file s) = Some c"
  have "file_ok (state_file s)" using s by (simp add: pages_sound_def store_ok_file)
  then show ?thesis
    using s c section_of_ok store_ok_visible [of s]
    by (auto simp: pages_sound_def hugepage_section.contents_satisfy_def)
qed

lemma stored_table_sound: "pages_sound to_int s \<Longrightarrow> stored_table to_int s = Some t \<Longrightarrow> table_sound t"
  using pages_sound_content by (auto simp: stored_table_def hp_content_sound_def)

lemma table_json_ok: "table_sound t \<Longrightarrow> json_ok (table_json t)"
proof -
  assume t: "table_sound t"
  let ?items = "List.map (\<lambda>(svc, es). (svc, JArr (List.map entry_json es))) t"
  have keys: "List.map fst ?items = List.map fst t" by (induction t) auto
  have "json_ok (entry_json e)" for e by (simp add: entry_json_def)
  then have "\<forall>kv \<in> set ?items. json_ok (snd kv)" by auto
  moreover have "dict_ok ?items" unfolding keys using t by (simp add: table_sound_def)
  ultimately show ?thesis unfolding table_json_def json_ok.simps by blast
qed

lemma hp_update_docs:
  assumes "pages_sound to_int s" "keeps_table operation"
  shows "keeps_docs (section_of ''hugepages_db'') s (hp_update to_int operation)"
  unfolding keeps_docs_def
proof (intro allI impI)
  fix c r x assume c: "section_of ''hugepages_db'' (state_file s) = Some c"
    and u: "hp_update to_int operation c = Inr (r, x)"
  note sound = pages_sound_content [OF assms(1) c]
  obtain y cand where op: "operation (restore_allocations to_int c) = (y, cand)" by fastforce
  then have "table_sound cand" using assms(2) sound unfolding keeps_table_def hp_content_sound_def by force
  then show "doc_ok r" using u op sound by (auto simp: hp_update_def table_json_ok intro: doc_ok_set)
qed

lemma hp_load_reads: "reads_only (hp_load to_int)"
  unfolding reads_only_def
proof (intro allI impI)
  fix m s out m' s' assume run: "hp_load to_int m s = (out, m', s')"
  have "wp (read_section ''hugepages_db'') (\<lambda>c. untouched s) (\<lambda>e. untouched s) (untouched s) s"
    by (rule wp_mono [OF wp_read_section]) auto
  then show "untouched s s'"
    using run by (auto simp: wp_def hp_load_def split: prod.splits outcome.splits)
qed

lemma hp_load_Ret:
  "hp_load to_int m s = (Ret x, m', s') \<Longrightarrow> stored_table to_int s = Some m' \<and> untouched s s'"
  using hugepage_section.load_returns [of s]
  by (auto simp: hp_load_def stored_table_def split: prod.splits outcome.splits)

lemma untouched_pages: "untouched s t \<Longrightarrow> pages_sound to_int s \<Longrightarrow> pages_sound to_int t"
  using untouched_fields [of s t] by (simp add: pages_sound_def hugepage_section.contents_satisfy_def)

lemma hp_section_sound:
  assumes "reads_ints to_int" "pages_sound to_int s" "keeps_table operation"
    and "transaction_section ''hugepages_db'' (hp_update to_int operation) now s = (out, s')"
  shows "pages_sound to_int s'"
proof -
  note docs = hp_update_docs [OF assms(2,3)]
  have ok: "store_ok s" using assms(2) by (simp add: pages_sound_def)
  show ?thesis
    unfolding pages_sound_def hugepage_section.contents_satisfy_def
  proof (intro conjI ballI allI impI)
    show "store_ok s'" by (rule hugepage_section.txn_ok [OF ok docs assms(4)])
    fix f c assume f: "f \<in> set (maybe_files s')" and c: "section_of ''hugepages_db'' f = Some c"
    from hugepage_section.txn_files [OF ok docs assms(4) f] show "hp_content_sound to_int c"
    proof (elim disjE exE conjE)
      assume "f \<in> set (maybe_files s)"
      then show ?thesis using assms(2) c
        by (simp add: pages_sound_def hugepage_section.contents_satisfy_def)
    next
      fix c0 r x assume c0: "section_of ''hugepages_db'' (state_file s) = Some c0"
        and u: "hp_update to_int operation c0 = Inr (r, x)"
        and new: "section_of ''hugepages_db'' f = Some (dump_load r)"
      note sound = pages_sound_content [OF assms(2) c0]
      obtain y cand where op: "operation (restore_allocations to_int c0) = (y, cand)" by fastforce
      then have "table_sound cand" using assms(3) sound unfolding keeps_table_def hp_content_sound_def by force
      moreover have "c = dump_load (dict_set ''allocations'' (table_json cand) c0)"
        using new c u op by (auto simp: hp_update_def)
      ultimately show ?thesis using hp_sound_saved [OF assms(1)] sound doc_ok_dict by blast
    qed
  qed
qed

lemma hp_transaction_sound:
  assumes "reads_ints to_int" "pages_sound to_int s" "keeps_table operation"
    and "hp_transaction to_int operation now m s = (out, m', s')"
  shows "pages_sound to_int s'"
proof -
  obtain o1 s1 where run: "transaction_section ''hugepages_db'' (hp_update to_int operation) now s = (o1, s1)"
    by fastforce
  then have s1: "pages_sound to_int s1" by (rule hp_section_sound [OF assms(1-3)])
  have reads: "reads_only (bind_s (hp_load to_int) (\<lambda>_. raise_s e))" for e
    using hp_load_reads by blast
  show ?thesis
  proof (cases o1)
    case (Raise e)
    then have "bind_s (hp_load to_int) (\<lambda>_. raise_s e) m s1 = (out, m', s')"
      using assms(4) run by (simp add: hp_transaction_def)
    then show ?thesis using s1 untouched_pages reads_onlyD [OF reads] by blast
  qed (use assms(4) run s1 in \<open>auto simp: hp_transaction_def\<close>)
qed

text \<open>A transaction that returns has applied the operation to the stored table.\<close>

lemma hp_transaction_Ret:
  assumes "reads_ints to_int" "pages_sound to_int s" "keeps_table operation"
    and "hp_transaction to_int operation now m s = (Ret x, m', s')"
  shows "\<exists>t. stored_table to_int s = Some t \<and> operation t = (x, m') \<and> table_sound m' \<and>
    stored_table to_int s' = Some (sort_key fst m') \<and> durable s'"
proof -
  have run: "transaction_section ''hugepages_db'' (hp_update to_int operation) now s = (Ret (x, m'), s')"
    using assms(4)
    by (auto simp: hp_transaction_def bind_s_def split: outcome.splits prod.splits)
  have ok: "store_ok s" using assms(2) by (simp add: pages_sound_def)
  from hugepage_section.txn_returns [OF ok hp_update_docs [OF assms(2,3)] run]
  obtain c r where c: "section_of ''hugepages_db'' (state_file s) = Some c"
    "hp_update to_int operation c = Inr (r, x, m')"
    "section_of ''hugepages_db'' (state_file s') = Some (dump_load r)" "durable s'" by blast
  then have op: "operation (restore_allocations to_int c) = (x, m')"
    "r = dict_set ''allocations'' (table_json m') c"
    by (auto simp: hp_update_def split: prod.splits)
  note sound = pages_sound_content [OF assms(2) c(1)]
  then have t: "table_sound m'"
    using assms(3) op(1) unfolding keeps_table_def hp_content_sound_def by (metis snd_conv)
  have "restore_allocations to_int (dump_load r) = sort_key fst m'"
    using restore_saved [OF reads_intsD [OF assms(1)] t] sound doc_ok_dict op(2) by blast
  then show ?thesis using c op(1) t by (simp add: stored_table_def)
qed

end
