(* ===== verification/Memory_Manager.thy ===== *)
theory Memory_Manager
  imports Hugepages_DB Cpu_Ranges
begin

text \<open>
  \<open>epa_orchestrator/memory_manager.py\<close>: the hugepage counts the kernel exposes per NUMA node,
  overlaid with the recorded requests. The host's files are those of \<^typ>\<open>host\<close>.
\<close>

section \<open>Reading sysfs\<close>

record hugepage_stats =
  hs_total :: int
  hs_free :: int
  hs_used :: int
  hs_surplus :: int

definition list_node_dirs :: "host \<Rightarrow> string list" where
  "list_node_dirs h =
     (if \<not> path_exists h node_base then []
      else (case dir_entries h node_base of
              None \<Rightarrow> [] | Some ds \<Rightarrow> List.filter is_node_dir ds))"

definition read_hugepage_count :: "host \<Rightarrow> string \<Rightarrow> int" where
  "read_hugepage_count h path =
     (case Option.bind (file_text h path) (\<lambda>t. read_int (strip t)) of None \<Rightarrow> 0 | Some n \<Rightarrow> n)"

definition process_hugepage_entry :: "host \<Rightarrow> string \<Rightarrow> hugepage_stats option" where
  "process_hugepage_entry h entry_path =
     (let nr_path = entry_path @ ''/nr_hugepages'';
          free_path = entry_path @ ''/free_hugepages'';
          surplus_path = entry_path @ ''/surplus_hugepages''
      in if \<not> path_exists h entry_path then None
         else if \<not> path_exists h nr_path then None
         else
           let pages = read_hugepage_count h nr_path;
               free = (if path_exists h free_path then read_hugepage_count h free_path else 0);
               surplus = (if path_exists h surplus_path then read_hugepage_count h surplus_path else 0)
           in Some \<lparr>hs_total = pages, hs_free = free, hs_used = max (pages - free) 0,
                    hs_surplus = surplus\<rparr>)"

text \<open>The group of \<open>^hugepages-(\d+)kB$\<close>, where \<open>$\<close> also matches before a final newline.\<close>

definition hugepages_size :: "string \<Rightarrow> string option" where
  "hugepages_size entry =
     (let rest = drop 10 entry; digits = takeWhile is_digit rest; tail = dropWhile is_digit rest in
      if take 10 entry = ''hugepages-'' \<and> digits \<noteq> []
        \<and> (tail = ''kB'' \<or> tail = ''kB'' @ [CHR 0x0A])
      then Some digits else None)"

definition add_size ::
  "host \<Rightarrow> string \<Rightarrow> string \<Rightarrow> (string, hugepage_stats) dict \<Rightarrow> (string, hugepage_stats) dict" where
  "add_size h hugepages_dir entry sizes =
     (case hugepages_size entry of
        None \<Rightarrow> sizes
      | Some size_key \<Rightarrow>
          (case process_hugepage_entry h (hugepages_dir @ ''/'' @ entry) of
             None \<Rightarrow> sizes | Some stats \<Rightarrow> dict_set size_key stats sizes))"

definition get_node_hugepage_sizes :: "host \<Rightarrow> string \<Rightarrow> (string, hugepage_stats) dict" where
  "get_node_hugepage_sizes h hugepages_dir =
     (case dir_entries h hugepages_dir of
        None \<Rightarrow> [] | Some entries \<Rightarrow> fold (add_size h hugepages_dir) entries [])"

section \<open>The recorded requests\<close>

text \<open>\<open>d[k] = d.get(k, 0) + n\<close>.\<close>

definition dict_add :: "string \<Rightarrow> int \<Rightarrow> (string, int) dict \<Rightarrow> (string, int) dict" where
  "dict_add k n d = dict_set k (dict_get d k 0 + n) d"

definition add_node_allocation ::
  "node_hugepage_allocation \<Rightarrow> (string, (string, int) dict) dict \<Rightarrow> (string, (string, int) dict) dict" where
  "add_node_allocation item d =
     (let d1 = dict_setdefault (nha_service_name item) [] d in
      dict_set (nha_service_name item)
        (dict_add (str_int (nha_size_kb item)) (nha_count item) (dict_get d1 (nha_service_name item) []))
        d1)"

definition node_allocations :: "node_hugepage_allocation list \<Rightarrow> (string, (string, int) dict) dict" where
  "node_allocations items = fold add_node_allocation items []"

definition get_node_allocations ::
  "(json \<Rightarrow> int option) \<Rightarrow> int \<Rightarrow> (hugepage_table, (string, (string, int) dict) dict) session" where
  "get_node_allocations to_int node_id =
     bind_s (list_allocations_for_node to_int node_id) (\<lambda>items. return_s (node_allocations items))"

definition tracked_per_size :: "(string, (string, int) dict) dict \<Rightarrow> (string, int) dict" where
  "tracked_per_size allocs = fold (\<lambda>(svc, d). fold (\<lambda>(size_key, n). dict_add size_key n) d) allocs []"

section \<open>The overlay\<close>

definition overlay_stats :: "int \<Rightarrow> hugepage_stats \<Rightarrow> hugepage_stats" where
  "overlay_stats tracked stats =
     (if tracked \<le> 0 then stats
      else
        let to_overlay = max (tracked - hs_used stats) 0;
            free_adj = max (hs_free stats - to_overlay) 0;
            used_adj = min (hs_used stats + (hs_free stats - free_adj)) (hs_total stats)
        in stats\<lparr>hs_free := free_adj, hs_used := used_adj\<rparr>)"

definition capacity_entry :: "string \<times> hugepage_stats \<Rightarrow> usage_entry" where
  "capacity_entry item =
     \<lparr>ue_total = hs_total (snd item), ue_free = hs_free (snd item),
      ue_size = (case read_int (fst item) of None \<Rightarrow> 0 | Some n \<Rightarrow> n)\<rparr>"

definition node_info ::
  "(string, hugepage_stats) dict \<Rightarrow> (string, (string, int) dict) dict \<Rightarrow> node_hugepages_info" where
  "node_info sizes allocs =
     (let tracked = tracked_per_size allocs in
      \<lparr>nhi_capacity = List.map (\<lambda>(size_key, stats).
          capacity_entry (size_key, overlay_stats (dict_get tracked size_key 0) stats)) sizes,
       nhi_allocations = allocs\<rparr>)"

definition add_node ::
  "host \<Rightarrow> (json \<Rightarrow> int option) \<Rightarrow> string \<Rightarrow> (string, node_hugepages_info) dict \<Rightarrow>
   (hugepage_table, (string, node_hugepages_info) dict) session" where
  "add_node h to_int node_dir nodes =
     (let node_id = node_number node_dir;
          node_key = ''node'' @ str_int node_id;
          hugepages_dir = node_base @ ''/'' @ node_dir @ ''/hugepages''
      in if \<not> path_exists h hugepages_dir
         then return_s (dict_set node_key \<lparr>nhi_capacity = [], nhi_allocations = []\<rparr> nodes)
         else
           let sizes = get_node_hugepage_sizes h hugepages_dir in
           bind_s (get_node_allocations to_int node_id) (\<lambda>allocs.
             return_s (dict_set node_key (node_info sizes allocs) nodes)))"

definition get_numa_hugepages_info ::
  "host \<Rightarrow> (json \<Rightarrow> int option) \<Rightarrow> (hugepage_table, (string, node_hugepages_info) dict) session" where
  "get_numa_hugepages_info h to_int =
     fold_s (add_node h to_int) (sort_key node_number (list_node_dirs h)) []"

text \<open>
  The summary: the \<open>error\<close> key, if any, and the nodes.
\<close>

definition get_memory_summary ::
  "host \<Rightarrow> (json \<Rightarrow> int option) \<Rightarrow>
   (hugepage_table, string option \<times> (string, node_hugepages_info) dict) session" where
  "get_memory_summary h to_int =
     try_s (bind_s (get_numa_hugepages_info h to_int) (\<lambda>nodes. return_s (None, nodes)))
       (\<lambda>e. return_s (Some (error_message e), []))"

section \<open>What the overlay reports\<close>

text \<open>
  With the kernel's counts consistent, the reported free count is what is left of the total
  after the larger of the kernel's use and the recorded requests.
\<close>

lemma overlay_free:
  assumes "0 \<le> hs_free st" "hs_free st \<le> hs_total st" "hs_used st = hs_total st - hs_free st"
  shows "hs_free (overlay_stats tracked st) = max 0 (hs_total st - max (hs_used st) tracked)"
    and "hs_total (overlay_stats tracked st) = hs_total st"
    and "hs_used (overlay_stats tracked st) = hs_total st - hs_free (overlay_stats tracked st)"
  using assms by (auto simp: overlay_stats_def Let_def max_def min_def)

lemma overlay_zero: "tracked \<le> 0 \<Longrightarrow> overlay_stats tracked st = st"
  by (simp add: overlay_stats_def)

lemma process_entry_consistent:
  "process_hugepage_entry h path = Some st \<Longrightarrow> hs_used st = max (hs_total st - hs_free st) 0"
  by (auto simp: process_hugepage_entry_def Let_def split: if_splits)

text \<open>The tracked count of a size is the sum over the services' recorded entries of the node.\<close>

definition node_total :: "node_hugepage_allocation list \<Rightarrow> int \<Rightarrow> int" where
  "node_total items size_kb = sum_list (List.map nha_count (List.filter (\<lambda>i. nha_size_kb i = size_kb) items))"

lemma dict_get_add: "dict_get (dict_add k n d) j 0 = dict_get d j 0 + (if j = k then n else 0)"
  by (simp add: dict_add_def)

definition dict_total :: "(string, int) dict \<Rightarrow> string \<Rightarrow> int" where
  "dict_total d k = sum_list (List.map snd (List.filter (\<lambda>x. fst x = k) d))"

lemma fold_add_items:
  "dict_get (fold (\<lambda>(size_key, n). dict_add size_key n) d acc) k 0 = dict_get acc k 0 + dict_total d k"
  by (induction d arbitrary: acc) (auto simp: dict_get_add dict_total_def)

lemma tracked_sum:
  "dict_get (tracked_per_size allocs) k 0 = sum_list (List.map (\<lambda>(svc, d). dict_total d k) allocs)"
proof -
  have "dict_get (fold (\<lambda>(svc, d). fold (\<lambda>(size_key, n). dict_add size_key n) d) allocs acc) k 0
      = dict_get acc k 0 + sum_list (List.map (\<lambda>(svc, d). dict_total d k) allocs)" for acc
    by (induction allocs arbitrary: acc) (auto simp: fold_add_items)
  then show ?thesis by (simp add: tracked_per_size_def)
qed

text \<open>A dictionary's total at a key is the value it holds.\<close>

lemma dict_total_get: "dict_ok d \<Longrightarrow> dict_total d k = dict_get d k 0"
proof (induction d)
  case (Cons x d)
  have "k \<notin> fst ` set d \<Longrightarrow> List.filter (\<lambda>x. fst x = k) d = []"
    by (auto simp: filter_empty_conv)
  then show ?case using Cons by (cases x) (auto simp: dict_total_def dict_get_def)
qed (simp add: dict_total_def)

text \<open>Setting one entry of a dictionary changes a sum over it by the difference at that key.\<close>

lemma sum_dict_set:
  fixes f :: "'v \<Rightarrow> int"
  assumes "dict_ok d"
  shows "sum_list (List.map (\<lambda>(k, v). f v) (dict_set k w d))
    = sum_list (List.map (\<lambda>(k, v). f v) d) - (case map_of d k of None \<Rightarrow> 0 | Some v \<Rightarrow> f v) + f w"
  using assms
proof (induction d)
  case (Cons x d)
  have "k \<notin> fst ` set d \<Longrightarrow> map_of d k = None" by (simp add: map_of_eq_None_iff)
  then show ?case using Cons by (cases x) (auto split: option.splits)
qed simp

definition alloc_dicts_ok :: "(string, (string, int) dict) dict \<Rightarrow> bool" where
  "alloc_dicts_ok d \<longleftrightarrow> dict_ok d \<and> (\<forall>x \<in> set d. dict_ok (snd x))"

lemma alloc_dicts_get: "alloc_dicts_ok d \<Longrightarrow> dict_ok (dict_get d svc [])"
  by (auto simp: alloc_dicts_ok_def dict_get_def split: option.splits dest!: map_of_SomeD)

lemma alloc_dicts_set:
  "alloc_dicts_ok d \<Longrightarrow> dict_ok e \<Longrightarrow> alloc_dicts_ok (dict_set svc e d)"
  using set_dict_set [of svc e d] by (auto simp: alloc_dicts_ok_def)

lemma dict_ok_add: "dict_ok d \<Longrightarrow> dict_ok (dict_add k n d)"
  by (simp add: dict_add_def)

lemma add_node_allocation_ok: "alloc_dicts_ok d \<Longrightarrow> alloc_dicts_ok (add_node_allocation item d)"
  by (auto simp: add_node_allocation_def Let_def dict_setdefault_def
      intro!: alloc_dicts_set dict_ok_add alloc_dicts_get)

lemma add_node_allocation_total:
  assumes "alloc_dicts_ok d"
  shows "sum_list (List.map (\<lambda>(svc, e). dict_get e k 0) (add_node_allocation item d))
    = sum_list (List.map (\<lambda>(svc, e). dict_get e k 0) d)
      + (if str_int (nha_size_kb item) = k then nha_count item else 0)"
proof -
  have ok: "dict_ok d" using assms by (simp add: alloc_dicts_ok_def)
  let ?svc = "nha_service_name item"
  have same: "dict_get (dict_set ?svc [] d) ?svc [] = ([] :: (string, int) dict)" by simp
  show ?thesis
    using sum_dict_set [OF ok, of "\<lambda>e. dict_get e k 0"] ok
    by (auto simp: add_node_allocation_def Let_def dict_setdefault_def dict_has_def
        sum_dict_set [of _ "\<lambda>e. dict_get e k 0"] dict_get_add dict_get_def [of d] split: option.splits)
qed

lemma str_int_inject: "0 \<le> a \<Longrightarrow> 0 \<le> b \<Longrightarrow> str_int a = str_int b \<longleftrightarrow> a = b"
  by (metis py_int_str_int sum.inject(2))

lemma node_allocations_total:
  "alloc_dicts_ok (node_allocations items)"
  "\<forall>i \<in> set items. 0 \<le> nha_size_kb i \<Longrightarrow> 0 \<le> size_kb \<Longrightarrow>
   dict_get (tracked_per_size (node_allocations items)) (str_int size_kb) 0 = node_total items size_kb"
proof -
  have ok: "alloc_dicts_ok d \<Longrightarrow> alloc_dicts_ok (fold add_node_allocation items d)" for d
    by (induction items arbitrary: d) (auto intro: add_node_allocation_ok)
  have nil: "alloc_dicts_ok []" by (simp add: alloc_dicts_ok_def)
  show "alloc_dicts_ok (node_allocations items)" using ok [OF nil] by (simp add: node_allocations_def)
  assume pos: "\<forall>i \<in> set items. 0 \<le> nha_size_kb i" "0 \<le> size_kb"
  have total: "alloc_dicts_ok d \<Longrightarrow>
      sum_list (List.map (\<lambda>(svc, e). dict_get e (str_int size_kb) 0) (fold add_node_allocation items d))
      = sum_list (List.map (\<lambda>(svc, e). dict_get e (str_int size_kb) 0) d) + node_total items size_kb" for d
    using pos
    by (induction items arbitrary: d)
      (auto simp: node_total_def add_node_allocation_total add_node_allocation_ok str_int_inject)
  have same: "List.map (\<lambda>(svc, d). dict_total d (str_int size_kb)) (node_allocations items)
      = List.map (\<lambda>(svc, e). dict_get e (str_int size_kb) 0) (node_allocations items)"
    using ok [OF nil] by (auto simp: node_allocations_def alloc_dicts_ok_def dict_total_get)
  show "dict_get (tracked_per_size (node_allocations items)) (str_int size_kb) 0
      = node_total items size_kb"
    unfolding tracked_sum same using total [OF nil] by (simp add: node_allocations_def)
qed

end
