(* ===== verification/Daemon_Handler.thy ===== *)
theory Daemon_Handler
  imports Ledger_Txn Cpu_Pool Memory_Manager
begin

text \<open>
  \<open>epa_orchestrator/daemon_handler.py\<close>: the handlers of the six actions and the dispatch of a
  request. A handler runs on the daemon's world: the ledger's fields, the hugepage table and the
  store. The sysfs files at the time of a request are two hosts, since the final online check
  reads them again just before the change. Turning a JSON object into a request model is
  pydantic's work, the parameter \<open>parse_obj\<close>.
\<close>

section \<open>The world of the daemon\<close>

record world =
  w_ledger :: adb
  w_hugepages :: hugepage_table
  w_store :: store

type_synonym 'a handler = "world \<Rightarrow> 'a outcome \<times> world"

definition on_ledger :: "(adb, 'a) session \<Rightarrow> 'a handler" where
  "on_ledger f w = (case f (w_ledger w) (w_store w) of
     (out, m, s) \<Rightarrow> (out, w\<lparr>w_ledger := m, w_store := s\<rparr>))"

definition on_hugepages :: "(hugepage_table, 'a) session \<Rightarrow> 'a handler" where
  "on_hugepages f w = (case f (w_hugepages w) (w_store w) of
     (out, m, s) \<Rightarrow> (out, w\<lparr>w_hugepages := m, w_store := s\<rparr>))"

record env =
  env_host :: host
  env_final_host :: host
  env_now :: string
  env_to_int :: "json \<Rightarrow> int option"
  env_parse_obj :: "action_type \<Rightarrow> (string, json) dict \<Rightarrow> epa_request result"

section \<open>Pools at startup\<close>

definition get_cpu_pool_provider :: "host \<Rightarrow> cpu_pools option \<Rightarrow> cpu_pools result" where
  "get_cpu_pool_provider h cached = (case cached of None \<Rightarrow> make_pools h None | Some p \<Rightarrow> Inr p)"

text \<open>The log lines of \<open>validate_startup_pool\<close>: the pools with blocked allocations and why.\<close>

definition blocked_pool :: "cpu_pools \<Rightarrow> cpu_pool_name \<Rightarrow> int set \<Rightarrow> (cpu_pool_name \<times> string) list" where
  "blocked_pool pools pool claimed =
     (if claimed = {} then []
      else (case bindE (select_pool pools pool) (\<lambda>p. validate_claims p claimed) of
              Inl e \<Rightarrow> [(pool, error_message e)] | Inr _ \<Rightarrow> []))"

definition validate_startup_pool :: "cpu_pools \<Rightarrow> (adb, (cpu_pool_name \<times> string) list) session" where
  "validate_startup_pool pools =
     fold_s (\<lambda>pool blocked.
         bind_s (fresh_read (\<lambda>db. get_claimed_cpus db (Some pool))) (\<lambda>claimed.
           return_s (blocked @ blocked_pool pools pool claimed)))
       enum_class.enum []"

section \<open>Allocating by count\<close>

definition allocate_cores_in ::
  "env \<Rightarrow> allocate_cores_request \<Rightarrow> cpu_pool_provider \<Rightarrow> cpu_pool_snapshot \<Rightarrow> adb \<Rightarrow>
   (allocate_cores_response \<times> adb) result" where
  "allocate_cores_in env r provider pool db =
     (let s = acr_service_name r; eligible = set_ranges (snap_eligible pool) in
      bindE (ensure_service_pool db s (acr_pool r)) (\<lambda>_.
        if acr_num_of_cores r = - 1 then
          bindE (remove_allocation s (acr_pool r) db) (\<lambda>(removed, db1).
          bindE (get_system_stats db1 eligible) (\<lambda>stats.
          bindE (get_available_cpus db1 eligible) (\<lambda>remaining_available.
            Inr (\<lparr>cores_pool = acr_pool r, cores_preemption_policy = None, cores_service_name = s,
                  cores_num_of_cores = 0, cores_cores_allocated = 0, cores_allocated_cores = [],
                  cores_shared_cpus = to_ranges remaining_available,
                  cores_total_available_cpus = stat_total_available_cpus stats,
                  cores_remaining_available_cpus = stat_remaining_available_cpus stats\<rparr>, db1))))
        else
      bindE (get_claimed_cpus db (Some (acr_pool r))) (\<lambda>claimed.
      bindE (validate_claims provider claimed) (\<lambda>_.
      raise_if (snap_eligible pool = {}) (ValueError ''No CPUs available'')
      (bindE (allocate_count (env_host env) (check_online (env_final_host env)) s
               (acr_num_of_cores r) eligible (acr_preemption_policy r) (acr_pool r) db)
        (\<lambda>((shared, dedicated), db1).
      bindE (get_system_stats db1 eligible) (\<lambda>stats.
      bindE (count_cpus_in_ranges dedicated) (\<lambda>cores_allocated.
        Inr (\<lparr>cores_pool = acr_pool r, cores_preemption_policy = get_preemption_policy db1 s,
              cores_service_name = s, cores_num_of_cores = acr_num_of_cores r,
              cores_cores_allocated = cores_allocated, cores_allocated_cores = dedicated,
              cores_shared_cpus = shared,
              cores_total_available_cpus = stat_total_available_cpus stats,
              cores_remaining_available_cpus = stat_remaining_available_cpus stats\<rparr>, db1)))))))))"

text \<open>\<open>provider.snapshot(...)\<close> is taken inside the transaction, after the ledger was loaded.\<close>

definition with_snapshot ::
  "env \<Rightarrow> cpu_pool_provider \<Rightarrow> bool \<Rightarrow> (cpu_pool_snapshot \<Rightarrow> adb \<Rightarrow> ('a \<times> adb) result) \<Rightarrow>
   adb \<Rightarrow> ('a \<times> adb) result" where
  "with_snapshot env provider allow_unavailable f db =
     bindE (pool_snapshot (env_host env) provider allow_unavailable) (\<lambda>pool. f pool db)"

definition handle_allocate_cores ::
  "env \<Rightarrow> cpu_pools \<Rightarrow> allocate_cores_request \<Rightarrow> (adb, allocate_cores_response) session" where
  "handle_allocate_cores env pools r =
     bind_s (lift_s (select_pool pools (acr_pool r))) (\<lambda>provider.
       transaction (with_snapshot env provider (acr_num_of_cores r = - 1)
           (allocate_cores_in env r provider)) (env_now env))"

section \<open>Allocating a percentage\<close>

text \<open>\<open>math.ceil(n * percent / 100)\<close>.\<close>

definition percent_cores :: "int \<Rightarrow> int \<Rightarrow> int" where
  "percent_cores n percent = - ((- (n * percent)) div 100)"

definition percent_request :: "allocate_cores_percent_request \<Rightarrow> cpu_pool_snapshot \<Rightarrow> allocate_cores_request" where
  "percent_request r pool =
     \<lparr>acr_pool = apr_pool r, acr_preemption_policy = apr_preemption_policy r,
      acr_service_name = apr_service_name r,
      acr_num_of_cores = (if apr_percent r = - 1 \<or> apr_percent r = 0 then - 1
                          else percent_cores (py_len (snap_eligible pool)) (apr_percent r))\<rparr>"

definition allocate_percent_in ::
  "env \<Rightarrow> allocate_cores_percent_request \<Rightarrow> cpu_pool_provider \<Rightarrow> cpu_pool_snapshot \<Rightarrow> adb \<Rightarrow>
   (allocate_cores_percent_response \<times> adb) result" where
  "allocate_percent_in env r provider pool db =
     bindE (allocate_cores_in env (percent_request r pool) provider pool db) (\<lambda>(res, db1).
       Inr (\<lparr>percent_pool = cores_pool res, percent_preemption_policy = cores_preemption_policy res,
             percent_service_name = cores_service_name res,
             percent_cores_allocated_count = cores_cores_allocated res,
             percent_allocated_cores = cores_allocated_cores res,
             percent_total_available_cpus = cores_total_available_cpus res,
             percent_remaining_available_cpus = cores_remaining_available_cpus res\<rparr>, db1))"

definition handle_allocate_cores_percent ::
  "env \<Rightarrow> cpu_pools \<Rightarrow> allocate_cores_percent_request \<Rightarrow> (adb, allocate_cores_percent_response) session" where
  "handle_allocate_cores_percent env pools r =
     bind_s (lift_s (select_pool pools (apr_pool r))) (\<lambda>provider.
       transaction (with_snapshot env provider (apr_percent r = - 1 \<or> apr_percent r = 0)
           (allocate_percent_in env r provider)) (env_now env))"

section \<open>Allocating from a NUMA node\<close>

definition numa_response ::
  "allocate_numa_cores_request \<Rightarrow> string \<Rightarrow> adb \<Rightarrow> system_stats \<Rightarrow> system_stats \<Rightarrow>
   allocate_numa_cores_response" where
  "numa_response r cores db1 stats updated_stats =
     \<lparr>numa_pool = anr_pool r, numa_preemption_policy = get_preemption_policy db1 (anr_service_name r),
      numa_service_name = anr_service_name r, numa_numa_node = anr_numa_node r,
      numa_num_of_cores = anr_num_of_cores r, numa_cores_allocated = cores,
      numa_total_available_cpus = stat_total_available_cpus stats,
      numa_remaining_available_cpus = stat_remaining_available_cpus updated_stats\<rparr>"

definition allocate_numa_in ::
  "env \<Rightarrow> allocate_numa_cores_request \<Rightarrow> cpu_pool_provider \<Rightarrow> cpu_pool_snapshot \<Rightarrow> adb \<Rightarrow>
   (allocate_numa_cores_response \<times> adb) result" where
  "allocate_numa_in env r provider pool db =
     (let s = anr_service_name r; node = anr_numa_node r; n = anr_num_of_cores r;
          h = env_host env; eligible = set_ranges (snap_eligible pool);
          node_text = str_int node;
          allocate = allocate_numa_cores h (check_online (env_final_host env)) s node n
                       (anr_preemption_policy r) (anr_pool r) (snap_eligible pool)
      in
      raise_if (n = 0) (ValueError ''num_of_cores=0 is invalid for allocate_numa_cores'')
      (bindE (ensure_service_pool db s (anr_pool r)) (\<lambda>_.
      bindE (get_system_stats db eligible) (\<lambda>stats.
      bindE (get_numa_node_cpus h) (\<lambda>numa_cpus.
      raise_if (\<not> dict_has numa_cpus node) (ValueError (''NUMA node '' @ node_text @ '' does not exist''))
      (if n = - 1 then
         bindE (allocate db) (\<lambda>((allocated_cores, rejected), db1).
         bindE (get_system_stats db1 eligible) (\<lambda>updated_stats.
           Inr (numa_response r allocated_cores db1 stats updated_stats, db1)))
       else
      bindE (get_claimed_cpus db (Some (anr_pool r))) (\<lambda>claimed.
      bindE (validate_claims provider claimed) (\<lambda>_.
      raise_if (snap_eligible pool = {}) (ValueError ''No CPUs available'')
      (bindE (get_cpus_in_numa_node h node eligible) (\<lambda>available.
      raise_if (available = {})
        (ValueError (''No eligible CPUs available in NUMA node '' @ node_text))
      (raise_if (py_len available < n)
        (ValueError (''NUMA node '' @ node_text @ '' only has '' @ str_int (py_len available)
           @ '' eligible CPUs, but '' @ str_int n @ '' were requested''))
      (bindE (allocate db) (\<lambda>((allocated_cores, rejected), db1).
      raise_if (allocated_cores = [])
        (ValueError (''Failed to allocate '' @ str_int n @ '' cores from NUMA node '' @ node_text
           @ ''. CPUs '' @ rejected @ '' are held by other services through ''
           @ ''an explicit NUMA or non-preemptive claim.''))
      (bindE (get_system_stats db1 eligible) (\<lambda>updated_stats.
        Inr (numa_response r allocated_cores db1 stats updated_stats, db1))))))))))))))))"

definition handle_allocate_numa_cores ::
  "env \<Rightarrow> cpu_pools \<Rightarrow> allocate_numa_cores_request \<Rightarrow> (adb, allocate_numa_cores_response) session" where
  "handle_allocate_numa_cores env pools r =
     bind_s (lift_s (select_pool pools (anr_pool r))) (\<lambda>provider.
       transaction (with_snapshot env provider (anr_num_of_cores r = - 1)
           (allocate_numa_in env r provider)) (env_now env))"

section \<open>Listing\<close>

definition list_response ::
  "list_allocations_request \<Rightarrow> cpu_pool_snapshot \<Rightarrow> snap_allocation list \<Rightarrow>
   list_allocations_response result" where
  "list_response r pool all_entries =
     (let entries = List.filter (\<lambda>e. sa_pool e = lar_pool r) all_entries;
          claims = mapE (\<lambda>e. parse_cpu_ranges (sa_allocated_cores e))
      in
      bindE (claims all_entries) (\<lambda>all_sets.
      bindE (claims entries) (\<lambda>sets.
        let all_owned = \<Union> (set all_sets); owned = \<Union> (set sets);
            unavailable = owned - snap_eligible pool
        in Inr \<lparr>list_supported_cpu_features = supported_cpu_features, list_pool = lar_pool r,
             list_total_allocations = int (length entries),
             list_total_allocated_cpus = py_len owned,
             list_total_available_cpus = py_len (snap_eligible pool),
             list_remaining_available_cpus = py_len (snap_eligible pool - all_owned),
             list_allocations_entries = entries,
             list_cpu_pool = \<lparr>cpi_source = snap_source pool,
               cpi_configured_cpus = set_ranges (snap_configured pool),
               cpi_eligible_cpus = set_ranges (snap_eligible pool),
               cpi_unavailable_allocated_cpus = set_ranges unavailable\<rparr>\<rparr>)))"

definition handle_list_allocations ::
  "env \<Rightarrow> cpu_pools \<Rightarrow> list_allocations_request \<Rightarrow> (adb, list_allocations_response) session" where
  "handle_list_allocations env pools r =
     bind_s (lift_s (select_pool pools (lar_pool r))) (\<lambda>provider.
     bind_s (lift_s (pool_snapshot (env_host env) provider True)) (\<lambda>pool.
     bind_s (fresh_read (\<lambda>db. get_all_allocations db None)) (\<lambda>all_entries.
       lift_s (list_response r pool all_entries))))"

section \<open>Memory and hugepages\<close>

definition handle_get_memory_info ::
  "env \<Rightarrow> get_memory_info_request \<Rightarrow> (hugepage_table, epa_response) session" where
  "handle_get_memory_info env r =
     (let failed = (\<lambda>m. return_s (ErrorResponse (''Failed to get memory information: '' @ m))) in
      try_s
        (bind_s (get_memory_summary (env_host env) (env_to_int env)) (\<lambda>(err, nodes).
           case err of
             Some m \<Rightarrow> failed m
           | None \<Rightarrow> return_s (MemoryResponse
               \<lparr>mir_service_name = (case gmr_service_name r of None \<Rightarrow> [] | Some s \<Rightarrow> s),
                mir_numa_hugepages = nodes\<rparr>)))
        (\<lambda>e. failed (error_message e)))"

text \<open>The recorded count of the service for this size, in the node's flattened list.\<close>

definition existing_count :: "string \<Rightarrow> int \<Rightarrow> node_hugepage_allocation list \<Rightarrow> int" where
  "existing_count service_name size_kb items =
     (case List.find (\<lambda>i. nha_service_name i = service_name \<and> nha_size_kb i = size_kb) items of
        None \<Rightarrow> 0 | Some i \<Rightarrow> nha_count i)"

text \<open>The free and the recorded count, or the error to answer.\<close>

definition get_hugepages_context ::
  "env \<Rightarrow> string \<Rightarrow> int \<Rightarrow> int \<Rightarrow> (hugepage_table, string + (int \<times> int)) session" where
  "get_hugepages_context env service_name node_id size_kb =
     bind_s (get_memory_summary (env_host env) (env_to_int env)) (\<lambda>(err, nodes).
       case err of
         Some m \<Rightarrow> return_s (Inl (''Failed to get memory information: '' @ m))
       | None \<Rightarrow>
           (case map_of nodes (''node'' @ str_int node_id) of
              None \<Rightarrow> return_s (Inl (''NUMA node '' @ str_int node_id @ '' not found''))
            | Some info \<Rightarrow>
                (case List.find (\<lambda>e. ue_size e = size_kb) (nhi_capacity info) of
                   None \<Rightarrow> return_s (Inl (''Hugepage size '' @ str_int size_kb
                             @ '' KB not found on node '' @ str_int node_id))
                 | Some size_entry \<Rightarrow>
                     bind_s (list_allocations_for_node (env_to_int env) node_id) (\<lambda>items.
                       return_s (Inr (ue_free size_entry, existing_count service_name size_kb items))))))"

definition hugepages_response :: "allocate_hugepages_request \<Rightarrow> string \<Rightarrow> epa_response" where
  "hugepages_response r message = HugepagesResponse
     \<lparr>hpr_service_name = ahr_service_name r, hpr_hugepages_requested = ahr_hugepages_requested r,
      hpr_allocation_successful = True, hpr_message = message, hpr_node_id = ahr_node_id r,
      hpr_size_kb = ahr_size_kb r\<rparr>"

text \<open>The capacity check of a positive request: \<open>Some\<close> message refuses it.\<close>

definition check_hugepage_capacity ::
  "env \<Rightarrow> allocate_hugepages_request \<Rightarrow> (hugepage_table, string option) session" where
  "check_hugepage_capacity env r =
     (if 0 < ahr_hugepages_requested r then
        bind_s (get_hugepages_context env (ahr_service_name r) (ahr_node_id r) (ahr_size_kb r)) (\<lambda>ctx.
          case ctx of
            Inl m \<Rightarrow> return_s (Some m)
          | Inr (free, existing) \<Rightarrow>
              let delta = ahr_hugepages_requested r - existing in
              return_s (if 0 < delta \<and> free < delta
                then Some (''NUMA node '' @ str_int (ahr_node_id r) @ '' size '' @ str_int (ahr_size_kb r)
                       @ '' KB only has '' @ str_int free @ '' free hugepages, requested additional ''
                       @ str_int delta)
                else None))
      else return_s None)"

definition handle_allocate_hugepages ::
  "env \<Rightarrow> allocate_hugepages_request \<Rightarrow> (hugepage_table, epa_response) session" where
  "handle_allocate_hugepages env r =
     try_s
       (if ahr_hugepages_requested r = - 1 then
          bind_s (remove_allocation_for_key (env_to_int env) (env_now env) (ahr_service_name r)
                    (ahr_node_id r) (ahr_size_kb r)) (\<lambda>removed.
            return_s (hugepages_response r
              (if removed then ''Removed recorded hugepage allocation''
               else ''No existing record to remove'')))
        else
          bind_s (check_hugepage_capacity env r) (\<lambda>refusal.
            case refusal of
              Some m \<Rightarrow> return_s (ErrorResponse m)
            | None \<Rightarrow>
                bind_s (upsert_allocation (env_to_int env) (env_now env) (ahr_service_name r)
                          (ahr_node_id r) (ahr_size_kb r) (ahr_hugepages_requested r)) (\<lambda>_.
                  return_s (hugepages_response r
                    (''Successfully set allocation request to '' @ str_int (ahr_hugepages_requested r)
                       @ '' hugepages'')))))
       (\<lambda>e. return_s (ErrorResponse (''Failed to record hugepage allocation: '' @ error_message e)))"

section \<open>Dispatch\<close>

definition map_outcome :: "('a \<Rightarrow> 'b) \<Rightarrow> 'a outcome \<times> 'w \<Rightarrow> 'b outcome \<times> 'w" where
  "map_outcome f r = (case r of
     (Ret x, w) \<Rightarrow> (Ret (f x), w) | (Raise e, w) \<Rightarrow> (Raise e, w) | (Crash, w) \<Rightarrow> (Crash, w))"

definition run_request :: "env \<Rightarrow> cpu_pools \<Rightarrow> epa_request \<Rightarrow> epa_response handler" where
  "run_request env pools req w =
     (case req of
        CoresRequest r \<Rightarrow> map_outcome CoresResponse (on_ledger (handle_allocate_cores env pools r) w)
      | PercentRequest r \<Rightarrow>
          map_outcome PercentResponse (on_ledger (handle_allocate_cores_percent env pools r) w)
      | NumaRequest r \<Rightarrow> map_outcome NumaResponse (on_ledger (handle_allocate_numa_cores env pools r) w)
      | ListRequest r \<Rightarrow> map_outcome ListResponse (on_ledger (handle_list_allocations env pools r) w)
      | MemoryRequest r \<Rightarrow> on_hugepages (handle_get_memory_info env r) w
      | HugepagesRequest r \<Rightarrow> on_hugepages (handle_allocate_hugepages env r) w)"

definition all_actions :: "action_type list" where
  "all_actions = [ALLOCATE_CORES, ALLOCATE_CORES_PERCENT, ALLOCATE_NUMA_CORES, LIST_ALLOCATIONS,
                  GET_MEMORY_INFO, ALLOCATE_HUGEPAGES]"

definition no_attribute_get :: "json \<Rightarrow> py_error" where
  "no_attribute_get v = OtherError (py_repr
     (case v of JNull \<Rightarrow> ''NoneType'' | JBool b \<Rightarrow> ''bool'' | JInt n \<Rightarrow> ''int'' | JReal t \<Rightarrow> ''float''
      | JStr t \<Rightarrow> ''str'' | JArr vs \<Rightarrow> ''list'' | JObj items \<Rightarrow> ''dict'')
     @ '' object has no attribute '' @ py_repr ''get'')"

text \<open>
  The \<open>try\<close> block: parse, look the action up, parse the model, run the handler. The decoded
  document is an exception when the bytes are not UTF-8 or not JSON; \<open>.get\<close> of a document that
  is not an object raises \<open>AttributeError\<close>.
\<close>

definition dispatch :: "env \<Rightarrow> cpu_pools \<Rightarrow> json result \<Rightarrow> epa_response handler" where
  "dispatch env pools request_data w =
     (case request_data of
        Inl e \<Rightarrow> (Raise e, w)
      | Inr (JObj obj) \<Rightarrow>
          let act = dict_get obj ''action'' JNull in
          (case List.find (\<lambda>a. action_value a = json_str act) all_actions of
             None \<Rightarrow> (Ret (ErrorResponse (''Unknown action: '' @ json_str act)), w)
           | Some a \<Rightarrow>
               (case env_parse_obj env a obj of
                  Inl e \<Rightarrow> (Raise e, w)
                | Inr req \<Rightarrow> run_request env pools req w))
      | Inr v \<Rightarrow> (Raise (no_attribute_get v), w))"

text \<open>The closing log line reads the ledger again; its exceptions are swallowed.\<close>

definition log_allocations :: "epa_response \<Rightarrow> epa_response handler" where
  "log_allocations response w =
     (case on_ledger (fresh_read (\<lambda>db. get_all_allocations db None)) w of
        (Crash, w') \<Rightarrow> (Crash, w') | (_, w') \<Rightarrow> (Ret response, w'))"

definition handle_daemon_request :: "env \<Rightarrow> cpu_pools \<Rightarrow> json result \<Rightarrow> epa_response handler" where
  "handle_daemon_request env pools request_data w =
     (case dispatch env pools request_data w of
        (Ret response, w1) \<Rightarrow> log_allocations response w1
      | (Raise e, w1) \<Rightarrow>
          (case e of
             StateCorruptionError m \<Rightarrow> (Raise e, w1)
           | _ \<Rightarrow> log_allocations (ErrorResponse (error_message e)) w1)
      | (Crash, w1) \<Rightarrow> (Crash, w1))"

end
