(* ===== verification/Handler_Safety.thy ===== *)
theory Handler_Safety
  imports Daemon_Handler
begin

text \<open>
  What the handlers do to the stored state: each action keeps the ledger and the hugepage table
  sound in every file the store may hold, whatever its outcome. Requests, recoveries, restarts
  and losses of power form the step relation of the daemon; the soundness of the stored state is
  its invariant.
\<close>

section \<open>Snapshots of a pool\<close>

lemma pool_snapshot_Inr:
  assumes "pool_snapshot h provider allow = Inr pool"
  shows "snap_configured pool = prov_configured provider" "cpu_ids (snap_eligible pool)"
    "snap_source pool = prov_source provider"
    "(\<exists>online. read_cpu_list h online_cpus_path = Inr online \<and>
        snap_eligible pool = prov_configured provider \<inter> online) \<or>
     (\<exists>e. read_cpu_list h online_cpus_path = Inl e \<and> allow \<and> snap_eligible pool = {})"
  using assms
  by (auto simp: pool_snapshot_def read_cpu_list_ids cpu_ids_Int2 split: sum.splits if_splits)

section \<open>The handlers on a candidate\<close>

lemma allocate_cores_in_release:
  assumes "allocate_cores_in env r provider pool db = Inr (res, db')" "acr_num_of_cores r = - 1"
  obtains removed where "remove_allocation (acr_service_name r) (acr_pool r) db = Inr (removed, db')"
    and "cores_cores_allocated res = 0" "cores_allocated_cores res = []" "cores_num_of_cores res = 0"
    and "cores_preemption_policy res = None"
  using assms by (auto simp: allocate_cores_in_def Let_def simp del: validate_guards)

lemma allocate_cores_in_count:
  assumes "allocate_cores_in env r provider pool db = Inr (res, db')" "acr_num_of_cores r \<noteq> - 1"
  obtains shared dedicated claimed stats where
    "allocate_count (env_host env) (check_online (env_final_host env)) (acr_service_name r)
       (acr_num_of_cores r) (set_ranges (snap_eligible pool)) (acr_preemption_policy r) (acr_pool r) db
     = Inr ((shared, dedicated), db')"
    and "get_claimed_cpus db (Some (acr_pool r)) = Inr claimed" "claimed \<subseteq> prov_configured provider"
    and "snap_eligible pool \<noteq> {}"
    and "get_system_stats db' (set_ranges (snap_eligible pool)) = Inr stats"
    and "cores_allocated_cores res = dedicated" "cores_shared_cpus res = shared"
    and "count_cpus_in_ranges dedicated = Inr (cores_cores_allocated res)"
    and "cores_preemption_policy res = get_preemption_policy db' (acr_service_name r)"
    and "cores_remaining_available_cpus res = stat_remaining_available_cpus stats"
  using assms
  by (auto simp: allocate_cores_in_def Let_def validate_claims_def simp del: validate_guards) blast

lemma allocate_cores_in_keeps: "keeps_ledger (allocate_cores_in env r provider pool)"
  unfolding keeps_ledger_def
proof (intro allI impI)
  fix db x db'
  assume wf: "wf_ledger db" and ok: "allocate_cores_in env r provider pool db = Inr (x, db')"
  show "wf_ledger db'"
  proof (cases "acr_num_of_cores r = - 1")
    case True
    from allocate_cores_in_release [OF ok True] show ?thesis
      using keeps_ledgerD [OF keeps_remove wf] by metis
  next
    case False
    from allocate_cores_in_count [OF ok False] show ?thesis
      using keeps_ledgerD [OF keeps_count wf] by metis
  qed
qed

lemma allocate_percent_in_Inr:
  assumes "allocate_percent_in env r provider pool db = Inr (res, db')"
  obtains res0 where "allocate_cores_in env (percent_request r pool) provider pool db = Inr (res0, db')"
    and "percent_cores_allocated_count res = cores_cores_allocated res0"
    and "percent_allocated_cores res = cores_allocated_cores res0"
  using assms by (auto simp: allocate_percent_in_def)

lemma allocate_percent_in_keeps: "keeps_ledger (allocate_percent_in env r provider pool)"
  unfolding keeps_ledger_def
proof (intro allI impI)
  fix db x db'
  assume wf: "wf_ledger db" and ok: "allocate_percent_in env r provider pool db = Inr (x, db')"
  from allocate_percent_in_Inr [OF ok] show "wf_ledger db'"
    using keeps_ledgerD [OF allocate_cores_in_keeps wf] by metis
qed

lemma allocate_numa_in_Inr:
  assumes "allocate_numa_in env r provider pool db = Inr (res, db')"
  obtains rejected where
    "allocate_numa_cores (env_host env) (check_online (env_final_host env)) (anr_service_name r)
       (anr_numa_node r) (anr_num_of_cores r) (anr_preemption_policy r) (anr_pool r)
       (snap_eligible pool) db = Inr ((numa_cores_allocated res, rejected), db')"
    and "anr_num_of_cores r \<noteq> 0"
    and "anr_num_of_cores r \<noteq> - 1 \<Longrightarrow> numa_cores_allocated res \<noteq> []"
    and "anr_num_of_cores r \<noteq> - 1 \<Longrightarrow>
      \<exists>claimed. get_claimed_cpus db (Some (anr_pool r)) = Inr claimed \<and> claimed \<subseteq> prov_configured provider"
proof (cases "anr_num_of_cores r = - 1")
  case True
  then show ?thesis
    using assms that
    by (auto simp: allocate_numa_in_def Let_def numa_response_def simp del: validate_guards)
next
  case False
  then show ?thesis
    using assms that
    by (auto simp: allocate_numa_in_def Let_def numa_response_def validate_claims_def
        simp del: validate_guards)
qed

lemma allocate_numa_in_keeps:
  assumes "cpu_ids (snap_eligible pool)"
  shows "keeps_ledger (allocate_numa_in env r provider pool)"
  unfolding keeps_ledger_def
proof (intro allI impI)
  fix db x db'
  assume wf: "wf_ledger db" and ok: "allocate_numa_in env r provider pool db = Inr (x, db')"
  from allocate_numa_in_Inr [OF ok] show "wf_ledger db'"
    using keeps_ledgerD [OF keeps_numa [OF assms] wf] by metis
qed

lemma with_snapshot_keeps:
  assumes "\<And>pool. pool_snapshot (env_host env) provider allow = Inr pool \<Longrightarrow> keeps_ledger (f pool)"
  shows "keeps_ledger (with_snapshot env provider allow f)"
  using assms unfolding keeps_ledger_def with_snapshot_def by blast

lemma handlers_keep:
  "keeps_ledger (with_snapshot env provider allow (allocate_cores_in env cr provider))"
  "keeps_ledger (with_snapshot env provider allow (allocate_percent_in env pr provider))"
  "keeps_ledger (with_snapshot env provider allow (allocate_numa_in env nr provider))"
proof -
  show "keeps_ledger (with_snapshot env provider allow (allocate_cores_in env cr provider))"
    by (rule with_snapshot_keeps) (rule allocate_cores_in_keeps)
  show "keeps_ledger (with_snapshot env provider allow (allocate_percent_in env pr provider))"
    by (rule with_snapshot_keeps) (rule allocate_percent_in_keeps)
  show "keeps_ledger (with_snapshot env provider allow (allocate_numa_in env nr provider))"
    by (rule with_snapshot_keeps, rule allocate_numa_in_keeps) (rule pool_snapshot_Inr(2))
qed

section \<open>The stored state\<close>

text \<open>Both sections can be read out of every file that may be left.\<close>

definition sections_readable :: "store \<Rightarrow> bool" where
  "sections_readable s \<longleftrightarrow> (\<forall>f \<in> set (maybe_files s).
     section_of ''allocations_db'' f \<noteq> None \<and> section_of ''hugepages_db'' f \<noteq> None)"

definition store_sound :: "(json \<Rightarrow> int option) \<Rightarrow> store \<Rightarrow> bool" where
  "store_sound to_int s \<longleftrightarrow> ledgers_sound s \<and> pages_sound to_int s \<and> sections_readable s"

lemma untouched_store_sound: "untouched s t \<Longrightarrow> store_sound to_int s \<Longrightarrow> store_sound to_int t"
  by (simp add: store_sound_def untouched_sound untouched_pages sections_readable_def untouched_fields)

lemma readable_after_txn:
  assumes "store_ok s" "sections_readable s"
    and "keeps_docs (section_of ''allocations_db'') s u \<and> transaction_section ''allocations_db'' u now s = (out, t)
      \<or> keeps_docs (section_of ''hugepages_db'') s u \<and> transaction_section ''hugepages_db'' u now s = (out, t)"
  shows "sections_readable t"
  unfolding sections_readable_def
proof (intro ballI)
  fix f assume f: "f \<in> set (maybe_files t)"
  have now: "section_of ''allocations_db'' (state_file s) \<noteq> None" "section_of ''hugepages_db'' (state_file s) \<noteq> None"
    using assms(2) store_ok_visible [OF assms(1)] by (simp_all add: sections_readable_def)
  from assms(3) show "section_of ''allocations_db'' f \<noteq> None \<and> section_of ''hugepages_db'' f \<noteq> None"
  proof (elim disjE conjE)
    assume u: "keeps_docs (section_of ''allocations_db'') s u" "transaction_section ''allocations_db'' u now s = (out, t)"
    show ?thesis
      using claim_section.txn_files [OF assms(1) u f] claim_section.txn_other [OF assms(1) u f] assms(2) now
      by (auto simp: sections_readable_def)
  next
    assume u: "keeps_docs (section_of ''hugepages_db'') s u" "transaction_section ''hugepages_db'' u now s = (out, t)"
    show ?thesis
      using hugepage_section.txn_files [OF assms(1) u f] hugepage_section.txn_other [OF assms(1) u f] assms(2) now
      by (auto simp: sections_readable_def)
  qed
qed

lemma reads_store_sound:
  "reads_only f \<Longrightarrow> f m s = (out, m', s') \<Longrightarrow> store_sound to_int s \<Longrightarrow> store_sound to_int s'"
  by (rule untouched_store_sound [OF reads_onlyD])

text \<open>A ledger transaction leaves the hugepage section sound, and the other way round.\<close>

lemma load_from_store_reads: "reads_only load_from_store"
  by (auto simp: reads_only_def dest: load_from_store_untouched)

lemma ledger_section_sound:
  assumes "store_sound to_int s" "keeps_ledger operation"
    and sec: "transaction_section ''allocations_db'' (txn_update operation) now s = (out, t)"
  shows "store_sound to_int t"
proof -
  have s: "ledgers_sound s" "store_ok s" "claim_section.others_satisfy (hp_content_sound to_int) s"
    using assms(1)
    by (auto simp: store_sound_def ledgers_sound_def pages_sound_def
        claim_section.others_satisfy_def hugepage_section.contents_satisfy_def)
  note docs = ledgers_sound_docs [OF s(1) assms(2)]
  have "claim_section.others_satisfy (hp_content_sound to_int) t"
    by (rule claim_section.other_satisfy_txn [OF s(2) docs sec s(3) hp_sound_rewritten])
  moreover have "sections_readable t"
    using readable_after_txn [OF s(2)] assms(1) docs sec unfolding store_sound_def by blast
  ultimately show ?thesis
    using section_transaction_sound [OF s(1) assms(2) sec]
    by (auto simp: store_sound_def ledgers_sound_def pages_sound_def
        claim_section.others_satisfy_def hugepage_section.contents_satisfy_def)
qed

lemma pages_section_sound:
  assumes "reads_ints to_int" "store_sound to_int s" "keeps_table operation"
    and sec: "transaction_section ''hugepages_db'' (hp_update to_int operation) now s = (out, t)"
  shows "store_sound to_int t"
proof -
  have s: "pages_sound to_int s" "store_ok s" "hugepage_section.others_satisfy sound_content s"
    using assms(2)
    by (auto simp: store_sound_def ledgers_sound_def pages_sound_def
        hugepage_section.others_satisfy_def claim_section.contents_satisfy_def)
  note docs = hp_update_docs [OF s(1) assms(3)]
  have "hugepage_section.others_satisfy sound_content t"
    by (rule hugepage_section.other_satisfy_txn [OF s(2) docs sec s(3) sound_rewritten])
  moreover have "sections_readable t"
    using readable_after_txn [OF s(2)] assms(2) docs sec unfolding store_sound_def by blast
  ultimately show ?thesis
    using hp_section_sound [OF assms(1) s(1) assms(3) sec]
    by (auto simp: store_sound_def ledgers_sound_def pages_sound_def
        hugepage_section.others_satisfy_def claim_section.contents_satisfy_def)
qed

lemma transaction_store_sound:
  assumes "store_sound to_int s" "keeps_ledger operation"
    and run: "transaction operation now mem s = (out, mem', s')"
  shows "store_sound to_int s'"
proof -
  obtain o1 s1 where sec: "transaction_section ''allocations_db'' (txn_update operation) now s = (o1, s1)"
    by fastforce
  note s1 = ledger_section_sound [OF assms(1,2) sec]
  show ?thesis
  proof (cases o1)
    case (Raise e)
    obtain o2 m2 s2 where l: "load_from_store mem s1 = (o2, m2, s2)" using prod_cases3 by blast
    then have "s' = s2" using run sec Raise by (auto simp: transaction_def split: outcome.splits)
    then show ?thesis using untouched_store_sound [OF load_from_store_untouched [OF l] s1] by simp
  qed (use run sec s1 in \<open>auto simp: transaction_def split: prod.splits sum.splits\<close>)
qed

lemma hp_transaction_store_sound:
  assumes "reads_ints to_int" "store_sound to_int s" "keeps_table operation"
    and run: "hp_transaction to_int operation now m s = (out, m', s')"
  shows "store_sound to_int s'"
proof -
  obtain o1 s1 where sec: "transaction_section ''hugepages_db'' (hp_update to_int operation) now s = (o1, s1)"
    by fastforce
  note s1 = pages_section_sound [OF assms(1-3) sec]
  have reads: "reads_only (bind_s (hp_load to_int) (\<lambda>_. raise_s e))" for e
    using hp_load_reads by blast
  show ?thesis
  proof (cases o1)
    case (Raise e)
    then have "bind_s (hp_load to_int) (\<lambda>_. raise_s e) m s1 = (out, m', s')"
      using run sec by (simp add: hp_transaction_def)
    then show ?thesis using reads_store_sound [OF reads _ s1] by blast
  qed (use run sec s1 in \<open>auto simp: hp_transaction_def\<close>)
qed

section \<open>Sessions that keep the stored state sound\<close>

definition keeps_store :: "(json \<Rightarrow> int option) \<Rightarrow> ('m, 'a) session \<Rightarrow> bool" where
  "keeps_store to_int f \<longleftrightarrow>
     (\<forall>m s out m' s'. store_sound to_int s \<longrightarrow> f m s = (out, m', s') \<longrightarrow> store_sound to_int s')"

lemma keeps_storeD:
  "keeps_store to_int f \<Longrightarrow> store_sound to_int s \<Longrightarrow> f m s = (out, m', s') \<Longrightarrow> store_sound to_int s'"
  by (auto simp: keeps_store_def)

lemma keeps_store_reads: "reads_only f \<Longrightarrow> keeps_store to_int f"
  using reads_store_sound by (auto simp: keeps_store_def)

lemma keeps_store_bind:
  assumes "keeps_store to_int f" "\<And>x. keeps_store to_int (g x)"
  shows "keeps_store to_int (bind_s f g)"
  unfolding keeps_store_def
proof (intro allI impI)
  fix m s out m' s' assume s: "store_sound to_int s" and run: "bind_s f g m s = (out, m', s')"
  obtain o1 m1 s1 where f: "f m s = (o1, m1, s1)" using prod_cases3 by blast
  then have "store_sound to_int s1" by (rule keeps_storeD [OF assms(1) s])
  then show "store_sound to_int s'"
    using run f keeps_storeD [OF assms(2)] by (cases o1) (auto simp: bind_s_def)
qed

lemma keeps_store_try:
  assumes "keeps_store to_int f" "\<And>e. keeps_store to_int (h e)"
  shows "keeps_store to_int (try_s f h)"
  unfolding keeps_store_def
proof (intro allI impI)
  fix m s out m' s' assume s: "store_sound to_int s" and run: "try_s f h m s = (out, m', s')"
  obtain o1 m1 s1 where f: "f m s = (o1, m1, s1)" using prod_cases3 by blast
  then have "store_sound to_int s1" by (rule keeps_storeD [OF assms(1) s])
  then show "store_sound to_int s'"
    using run f keeps_storeD [OF assms(2)] by (cases o1) (auto simp: try_s_def)
qed

lemma keeps_store_transaction: "keeps_ledger operation \<Longrightarrow> keeps_store to_int (transaction operation now)"
  using transaction_store_sound by (auto simp: keeps_store_def)

lemma fresh_read_reads: "reads_only (fresh_read f)"
  unfolding reads_only_def fresh_read_def
  by (auto split: prod.splits outcome.splits sum.splits dest: load_from_store_untouched)

lemma list_node_reads: "reads_only (list_allocations_for_node to_int n)"
proof -
  have "reads_only (\<lambda>m s. (Ret (node_entries n m), m, s))" by (simp add: reads_only_def)
  then show ?thesis unfolding list_allocations_for_node_def using hp_load_reads by blast
qed

lemma memory_summary_reads: "reads_only (get_memory_summary h to_int)"
proof -
  have "reads_only (get_node_allocations to_int n)" for n
    unfolding get_node_allocations_def using list_node_reads by blast
  then have "reads_only (add_node h to_int d nodes)" for d nodes
    by (auto simp: add_node_def Let_def)
  then have "reads_only (get_numa_hugepages_info h to_int)"
    unfolding get_numa_hugepages_info_def by blast
  then show ?thesis unfolding get_memory_summary_def by blast
qed

section \<open>Every action keeps the stored state sound\<close>

lemma context_reads: "reads_only (get_hugepages_context env svc n k)"
  unfolding get_hugepages_context_def
  by (intro reads_only_bind memory_summary_reads)
    (auto simp: split_beta list_node_reads split: option.splits)

lemma capacity_reads: "reads_only (check_hugepage_capacity env r)"
  unfolding check_hugepage_capacity_def
  by (auto intro!: reads_only_bind context_reads simp: Let_def split: sum.split)

lemma memory_info_reads: "reads_only (handle_get_memory_info env r)"
  unfolding handle_get_memory_info_def Let_def
  by (intro reads_only_try reads_only_bind memory_summary_reads)
    (auto simp: split_beta split: option.splits)

lemma list_handler_reads: "reads_only (handle_list_allocations env pools r)"
  unfolding handle_list_allocations_def using fresh_read_reads by blast

lemma keeps_store_cores:
  "keeps_store to_int (handle_allocate_cores env pools cr)"
  "keeps_store to_int (handle_allocate_cores_percent env pools pr)"
  "keeps_store to_int (handle_allocate_numa_cores env pools nr)"
  unfolding handle_allocate_cores_def handle_allocate_cores_percent_def handle_allocate_numa_cores_def
  by (intro keeps_store_bind keeps_store_reads reads_only_lift keeps_store_transaction handlers_keep)+

lemma keeps_store_hp:
  "reads_ints to_int \<Longrightarrow> keeps_table operation \<Longrightarrow> keeps_store to_int (hp_transaction to_int operation now)"
  using hp_transaction_store_sound by (auto simp: keeps_store_def)

lemma keeps_store_hugepages:
  assumes "reads_ints (env_to_int env)"
  shows "keeps_store (env_to_int env) (handle_allocate_hugepages env r)"
proof -
  have upsert: "keeps_store (env_to_int env) (upsert_allocation (env_to_int env) now svc n k c)" for now svc n k c
    unfolding upsert_allocation_def by (intro keeps_store_hp assms keeps_table_operations)
  have remove: "keeps_store (env_to_int env) (remove_allocation_for_key (env_to_int env) now svc n k)" for now svc n k
    unfolding remove_allocation_for_key_def by (intro keeps_store_hp assms keeps_table_operations)
  have ret: "keeps_store (env_to_int env) (return_s x)" for x :: epa_response
    by (intro keeps_store_reads) blast
  show ?thesis
    unfolding handle_allocate_hugepages_def
    by (intro keeps_store_try)
      (auto intro!: keeps_store_bind upsert remove ret keeps_store_reads [OF capacity_reads]
        split: option.splits)
qed

definition world_sound :: "(json \<Rightarrow> int option) \<Rightarrow> world \<Rightarrow> bool" where
  "world_sound to_int w \<longleftrightarrow> store_sound to_int (w_store w)"

lemma on_ledger_sound:
  "keeps_store to_int f \<Longrightarrow> world_sound to_int w \<Longrightarrow> on_ledger f w = (out, w') \<Longrightarrow> world_sound to_int w'"
  by (auto simp: on_ledger_def world_sound_def split: prod.splits dest: keeps_storeD)

lemma on_hugepages_sound:
  "keeps_store to_int f \<Longrightarrow> world_sound to_int w \<Longrightarrow> on_hugepages f w = (out, w') \<Longrightarrow> world_sound to_int w'"
  by (auto simp: on_hugepages_def world_sound_def split: prod.splits dest: keeps_storeD)

lemma map_outcome_world: "map_outcome f r = (out, w') \<Longrightarrow> \<exists>out0. r = (out0, w')"
  by (auto simp: map_outcome_def split: prod.splits outcome.splits)

lemma run_request_sound:
  assumes "reads_ints (env_to_int env)" "world_sound (env_to_int env) w"
    and "run_request env pools req w = (out, w')"
  shows "world_sound (env_to_int env) w'"
proof -
  have ledger: "world_sound (env_to_int env) w'"
    if keep: "keeps_store (env_to_int env) f" and step: "map_outcome g (on_ledger f w) = (out, w')" for f and g :: "'x \<Rightarrow> epa_response"
  proof -
    obtain out0 where "on_ledger f w = (out0, w')" using map_outcome_world [OF step] ..
    then show ?thesis by (rule on_ledger_sound [OF keep assms(2)])
  qed
  have pages: "world_sound (env_to_int env) w'"
    if "keeps_store (env_to_int env) f" "on_hugepages f w = (out, w')" for f
    by (rule on_hugepages_sound [OF that(1) assms(2) that(2)])
  note keeps = keeps_store_cores keeps_store_reads [OF list_handler_reads]
    keeps_store_reads [OF memory_info_reads] keeps_store_hugepages [OF assms(1)]
  show ?thesis
  proof (cases req)
    case (CoresRequest r)
    then show ?thesis using assms(3) ledger [OF keeps(1)] by (simp add: run_request_def)
  next
    case (PercentRequest r)
    then show ?thesis using assms(3) ledger [OF keeps(2)] by (simp add: run_request_def)
  next
    case (NumaRequest r)
    then show ?thesis using assms(3) ledger [OF keeps(3)] by (simp add: run_request_def)
  next
    case (ListRequest r)
    then show ?thesis using assms(3) ledger [OF keeps(4)] by (simp add: run_request_def)
  next
    case (MemoryRequest r)
    then show ?thesis using assms(3) pages [OF keeps(5)] by (simp add: run_request_def)
  next
    case (HugepagesRequest r)
    then show ?thesis using assms(3) pages [OF keeps(6)] by (simp add: run_request_def)
  qed
qed

lemma log_allocations_world:
  assumes "log_allocations response w = (out, w')"
  shows "\<exists>out0. on_ledger (fresh_read (\<lambda>db. get_all_allocations db None)) w = (out0, w')"
    and "out = Ret response \<or> out = Crash"
  using assms by (auto simp: log_allocations_def split: prod.splits outcome.splits)

lemma dispatch_sound:
  assumes "reads_ints (env_to_int env)" "world_sound (env_to_int env) w"
    and "dispatch env pools request_data w = (out, w')"
  shows "world_sound (env_to_int env) w'"
  using assms run_request_sound
  by (auto simp: dispatch_def Let_def split: sum.splits json.splits option.splits)

lemma handle_daemon_request_sound:
  assumes "reads_ints (env_to_int env)" "world_sound (env_to_int env) w"
    and run: "handle_daemon_request env pools request_data w = (out, w')"
  shows "world_sound (env_to_int env) w'"
proof -
  obtain o1 w1 where d: "dispatch env pools request_data w = (o1, w1)" by fastforce
  then have w1: "world_sound (env_to_int env) w1" by (rule dispatch_sound [OF assms(1,2)])
  have logged: "world_sound (env_to_int env) w'" if "log_allocations response w1 = (out, w')" for response
    using log_allocations_world(1) [OF that]
      on_ledger_sound [OF keeps_store_reads [OF fresh_read_reads] w1] by blast
  show ?thesis
    using run d w1 logged
    by (auto simp: handle_daemon_request_def split: outcome.splits py_error.splits)
qed

end
