(* ===== verification/Daemon_Process.thy ===== *)
theory Daemon_Process
  imports Handler_Safety
begin

text \<open>
  \<open>bin/daemon\<close>: how the process starts and serves one connection, over the daemon's world. Its own
  system calls (directories, sockets) fail or end the process like those of the store, and they
  leave the store alone.
\<close>

section \<open>Sequencing over the world\<close>

definition return_h :: "'a \<Rightarrow> 'a handler" where
  "return_h x = (\<lambda>w. (Ret x, w))"

definition bind_h :: "'a handler \<Rightarrow> ('a \<Rightarrow> 'b handler) \<Rightarrow> 'b handler" where
  "bind_h f g = (\<lambda>w. case f w of
     (Ret x, w') \<Rightarrow> g x w' | (Raise e, w') \<Rightarrow> (Raise e, w') | (Crash, w') \<Rightarrow> (Crash, w'))"

definition on_store :: "'a io \<Rightarrow> 'a handler" where
  "on_store f w = (case f (w_store w) of (out, s) \<Rightarrow> (out, w\<lparr>w_store := s\<rparr>))"

text \<open>A system call outside the store.\<close>

definition outside_call :: "unit handler" where
  "outside_call = on_store (syscall (\<lambda>s. s))"

section \<open>Starting\<close>

text \<open>
  The import of the two database modules: each opens the store, which makes its directory, and
  loads its section.
\<close>

definition start_daemon :: "(json \<Rightarrow> int option) \<Rightarrow> unit handler" where
  "start_daemon to_int =
     bind_h (on_store ensure_dir) (\<lambda>_.
     bind_h (on_ledger load_from_store) (\<lambda>_.
     bind_h (on_store ensure_dir) (\<lambda>_.
       on_hugepages (hp_load to_int))))"

text \<open>The socket: its directory, a stale file of an earlier run, then socket, bind, chmod, listen.\<close>

definition open_socket :: "bool \<Rightarrow> unit handler" where
  "open_socket stale_socket =
     bind_h outside_call (\<lambda>_.
     bind_h (if stale_socket then outside_call else return_h ()) (\<lambda>_.
     bind_h outside_call (\<lambda>_.
     bind_h outside_call (\<lambda>_.
     bind_h outside_call (\<lambda>_.
       outside_call)))))"

text \<open>The fields before the modules are loaded.\<close>

definition new_world :: "store \<Rightarrow> world" where
  "new_world s = \<lparr>w_ledger = empty_adb, w_hugepages = [], w_store = s\<rparr>"

definition boot ::
  "(json \<Rightarrow> int option) \<Rightarrow> host \<Rightarrow> (string \<Rightarrow> json option) \<Rightarrow> bool \<Rightarrow> cpu_pools handler" where
  "boot to_int h snapctl_get stale_socket =
     bind_h (start_daemon to_int) (\<lambda>_.
       let pools = load_startup_pool h snapctl_get in
     bind_h (on_ledger (validate_startup_pool pools)) (\<lambda>_.
     bind_h (open_socket stale_socket) (\<lambda>_.
       return_h pools)))"

section \<open>Serving\<close>

text \<open>
  One turn of the loop: \<open>accept\<close>, one \<open>recv(1024)\<close> of the bytes that have \<open>arrived\<close> by then, no
  answer to a closed connection, else the request handler and \<open>sendall\<close>. \<open>decode\<close> is
  \<open>json.loads(data.decode())\<close>. Nothing in the loop catches an exception.
\<close>

definition serve_connection ::
  "(string \<Rightarrow> json result) \<Rightarrow> env \<Rightarrow> cpu_pools \<Rightarrow> string \<Rightarrow> epa_response option handler" where
  "serve_connection decode env pools arrived =
     bind_h outside_call (\<lambda>_.
     bind_h outside_call (\<lambda>_.
       let data = take 1024 arrived in
       if data = [] then return_h None
       else bind_h (handle_daemon_request env pools (decode data)) (\<lambda>response.
            bind_h outside_call (\<lambda>_.
              return_h (Some response)))))"

section \<open>What these steps leave alone\<close>

text \<open>Handlers that leave the files alone.\<close>

definition world_reads :: "'a handler \<Rightarrow> bool" where
  "world_reads f \<longleftrightarrow> (\<forall>w out w'. f w = (out, w') \<longrightarrow> untouched (w_store w) (w_store w'))"

named_theorems world_intros \<open>handlers that leave the files alone\<close>

lemma world_readsD: "world_reads f \<Longrightarrow> f w = (out, w') \<Longrightarrow> untouched (w_store w) (w_store w')"
  by (auto simp: world_reads_def)

lemma world_reads_return [world_intros]: "world_reads (return_h x)"
  by (simp add: world_reads_def return_h_def)

lemma world_reads_bind [world_intros]:
  assumes "world_reads f" "\<And>x. world_reads (g x)"
  shows "world_reads (bind_h f g)"
  unfolding world_reads_def
proof (intro allI impI)
  fix w out w' assume run: "bind_h f g w = (out, w')"
  obtain o1 w1 where f: "f w = (o1, w1)" by fastforce
  note u = world_readsD [OF assms(1) f]
  show "untouched (w_store w) (w_store w')"
  proof (cases o1)
    case (Ret x)
    then have "g x w1 = (out, w')" using run f by (simp add: bind_h_def)
    then show ?thesis using untouched_trans [OF u] world_readsD [OF assms(2)] by blast
  qed (use run f u in \<open>auto simp: bind_h_def\<close>)
qed

lemma world_reads_ledger [world_intros]: "reads_only f \<Longrightarrow> world_reads (on_ledger f)"
  by (auto simp: world_reads_def on_ledger_def split: prod.splits dest: reads_onlyD)

lemma world_reads_hugepages [world_intros]: "reads_only f \<Longrightarrow> world_reads (on_hugepages f)"
  by (auto simp: world_reads_def on_hugepages_def split: prod.splits dest: reads_onlyD)

lemma outside_call_reads [world_intros]: "world_reads outside_call"
  by (auto simp: world_reads_def outside_call_def on_store_def syscall_def Let_def
      split: prod.splits list.splits fate.splits)

lemma ensure_dir_reads [world_intros]: "world_reads (on_store ensure_dir)"
  using outside_call_reads by (simp add: outside_call_def ensure_dir_def)

lemma startup_reads: "reads_only (validate_startup_pool pools)"
  unfolding validate_startup_pool_def using fresh_read_reads by blast

lemma start_reads [world_intros]: "world_reads (start_daemon to_int)"
  unfolding start_daemon_def by (intro world_intros load_from_store_reads hp_load_reads)

lemma boot_reads: "world_reads (boot to_int h snapctl_get stale)"
  unfolding boot_def open_socket_def Let_def by (auto intro!: world_intros startup_reads)

text \<open>Reading runs of a sequence.\<close>

lemma bind_h_cases:
  assumes "bind_h f g w = (out, w')"
  obtains x w1 where "f w = (Ret x, w1)" "g x w1 = (out, w')"
  | e where "f w = (Raise e, w')" "out = Raise e"
  | "f w = (Crash, w')" "out = Crash"
  using assms by (auto simp: bind_h_def split: prod.splits outcome.splits)

lemma outside_call_cases:
  assumes "outside_call w = (out, w')"
  shows "w_ledger w' = w_ledger w" "w_hugepages w' = w_hugepages w"
    "out = Ret () \<or> out = Raise (OSError ''system call failed'') \<or> out = Crash"
  using assms
  by (auto simp: outside_call_def on_store_def syscall_def Let_def split: prod.splits list.splits fate.splits)

text \<open>Handlers that keep the stored state sound.\<close>

definition keeps_world :: "(json \<Rightarrow> int option) \<Rightarrow> 'a handler \<Rightarrow> bool" where
  "keeps_world to_int f \<longleftrightarrow> (\<forall>w out w'. world_sound to_int w \<longrightarrow> f w = (out, w') \<longrightarrow> world_sound to_int w')"

lemma keeps_worldD: "keeps_world to_int f \<Longrightarrow> world_sound to_int w \<Longrightarrow> f w = (out, w') \<Longrightarrow> world_sound to_int w'"
  by (auto simp: keeps_world_def)

lemma keeps_world_reads: "world_reads f \<Longrightarrow> keeps_world to_int f"
  unfolding keeps_world_def world_sound_def using untouched_store_sound world_readsD by metis

lemma keeps_world_bind:
  assumes "keeps_world to_int f" "\<And>x. keeps_world to_int (g x)"
  shows "keeps_world to_int (bind_h f g)"
  unfolding keeps_world_def
proof (intro allI impI)
  fix w out w' assume s: "world_sound to_int w" and run: "bind_h f g w = (out, w')"
  from run show "world_sound to_int w'"
    by (rule bind_h_cases) (use keeps_worldD [OF assms(1) s] keeps_worldD [OF assms(2)] in blast)+
qed

lemma serve_sound:
  assumes "reads_ints (env_to_int env)" "world_sound (env_to_int env) w"
    and "serve_connection decode env pools arrived w = (out, w')"
  shows "world_sound (env_to_int env) w'"
proof -
  note call = keeps_world_reads [OF outside_call_reads] and ret = keeps_world_reads [OF world_reads_return]
  have "keeps_world (env_to_int env) (handle_daemon_request env pools req)" for req
    using handle_daemon_request_sound [OF assms(1)] by (auto simp: keeps_world_def)
  then have "keeps_world (env_to_int env) (serve_connection decode env pools arrived)"
    unfolding serve_connection_def Let_def by (auto intro!: keeps_world_bind call ret)
  then show ?thesis using assms(2,3) by (rule keeps_worldD)
qed

end
