(* ===== verification/Daemon_System.thy ===== *)
theory Daemon_System
  imports Daemon_Process
begin

text \<open>
  The daemon over time, with any faults underneath, crashes, restarts, losses of power and
  explicit recoveries, as a step relation, its reachable states and their invariant; and what a
  successful answer of an allocation handler says about the ledger that was committed.
\<close>

section \<open>The step relation\<close>

datatype machine = Running cpu_pools world | Down store

primrec machine_store :: "machine \<Rightarrow> store" where
  "machine_store (Running pools w) = w_store w"
| "machine_store (Down s) = s"

text \<open>The environment chooses the faults of the coming system calls.\<close>

definition with_fates :: "fate list \<Rightarrow> store \<Rightarrow> store" where
  "with_fates fs s = s\<lparr>fates := fs\<rparr>"

abbreviation facing :: "fate list \<Rightarrow> world \<Rightarrow> world" where
  "facing fs w \<equiv> w\<lparr>w_store := with_fates fs (w_store w)\<rparr>"

inductive daemon_step :: "(json \<Rightarrow> int option) \<Rightarrow> machine \<Rightarrow> machine \<Rightarrow> bool" for to_int where
  Answered: "env_to_int env = to_int \<Longrightarrow>
    serve_connection decode env pools arrived (facing fs w) = (Ret r, w') \<Longrightarrow>
    daemon_step to_int (Running pools w) (Running pools w')"
| Failed: "env_to_int env = to_int \<Longrightarrow>
    serve_connection decode env pools arrived (facing fs w) = (out, w') \<Longrightarrow>
    out = Crash \<or> (\<exists>e. out = Raise e) \<Longrightarrow>
    daemon_step to_int (Running pools w) (Down (restart (w_store w')))"
| Killed: "daemon_step to_int (Running pools w) (Down (restart (w_store w)))"
| Power_lost: "f \<in> set (maybe_files (machine_store m)) \<Longrightarrow> l \<in> set (maybe_locks (machine_store m)) \<Longrightarrow>
    daemon_step to_int m (Down (power_loss f l (machine_store m)))"
| Recovered: "recover (with_fates fs s) = (out, s') \<Longrightarrow> daemon_step to_int (Down s) (Down (restart s'))"
| Started: "boot to_int h snapctl_get stale (new_world (with_fates fs s)) = (Ret pools, w) \<Longrightarrow>
    daemon_step to_int (Down s) (Running pools w)"
| Start_failed: "boot to_int h snapctl_get stale (new_world (with_fates fs s)) = (out, w) \<Longrightarrow>
    out = Crash \<or> (\<exists>e. out = Raise e) \<Longrightarrow>
    daemon_step to_int (Down s) (Down (restart (w_store w)))"

inductive_cases step_from_down: "daemon_step to_int (Down s) m"
inductive_simps step_running_running: "daemon_step to_int (Running pools w) (Running pools' w')"

text \<open>An installation without a state file and without a lock file.\<close>

definition fresh_store :: "string \<Rightarrow> store" where
  "fresh_store path = \<lparr>state_path = path, state_file = Missing, maybe_data = [Missing], maybe_entries = [],
     lock_bytes = [], maybe_lock_data = [[]], lock_linked = False, latch = False, lock_held = False,
     temp_present = False, temp_file = Missing, maybe_temp = [], fates = []\<rparr>"

inductive reachable :: "(json \<Rightarrow> int option) \<Rightarrow> machine \<Rightarrow> bool" for to_int where
  Installed: "reachable to_int (Down (fresh_store (state_file_path environ home)))"
| Stepped: "reachable to_int m \<Longrightarrow> daemon_step to_int m m' \<Longrightarrow> reachable to_int m'"

section \<open>The invariant\<close>

lemma store_sound_files:
  assumes "store_sound to_int s" "store_ok t" "set (maybe_files t) \<subseteq> set (maybe_files s)"
  shows "store_sound to_int t"
  using assms
  by (auto simp: store_sound_def ledgers_sound_def pages_sound_def sections_readable_def
      claim_section.contents_satisfy_def hugepage_section.contents_satisfy_def)

lemma store_sound_ok: "store_sound to_int s \<Longrightarrow> store_ok s"
  by (simp add: store_sound_def ledgers_sound_def)

lemma store_sound_fresh: "store_sound to_int (fresh_store path)"
  by (simp add: store_sound_def ledgers_sound_def pages_sound_def store_ok_def file_ok_def fresh_store_def maybe_files_def
      sections_readable_def
      claim_section.contents_satisfy_def hugepage_section.contents_satisfy_def section_of_def doc_of_def
      section_content_def dict_get_def sound_empty hp_sound_empty)

lemma store_sound_fates: "store_sound to_int s \<Longrightarrow> store_sound to_int (with_fates fs s)"
  by (rule store_sound_files) (auto simp: with_fates_def dest: store_sound_ok)

lemma store_sound_restart: "store_sound to_int s \<Longrightarrow> store_sound to_int (restart s)"
proof (rule store_sound_files)
  assume "store_sound to_int s"
  then show "store_ok (restart s)" using store_ok_restart store_sound_ok by blast
  show "set (maybe_files (restart s)) \<subseteq> set (maybe_files s)" by simp
qed

lemma store_sound_power_loss:
  "store_sound to_int s \<Longrightarrow> f \<in> set (maybe_files s) \<Longrightarrow> store_sound to_int (power_loss f l s)"
proof (rule store_sound_files)
  assume "store_sound to_int s" "f \<in> set (maybe_files s)"
  then show "store_ok (power_loss f l s)" using store_ok_power_loss store_sound_ok by blast
  show "set (maybe_files (power_loss f l s)) \<subseteq> set (maybe_files s)"
    using \<open>f \<in> set (maybe_files s)\<close> by simp
qed

lemma recover_sound:
  assumes "store_sound to_int s" "recover s = (out, t)"
  shows "store_sound to_int t"
proof -
  have "wp recover (\<lambda>_ t. kept s t) (\<lambda>_ t. kept s t) (kept s) s"
    by (rule wp_mono [OF wp_recover [OF store_sound_ok [OF assms(1)]]]) (auto simp: recovered_def)
  then have "kept s t" using assms(2) by (cases out) (auto simp: wp_def)
  then show ?thesis by (intro store_sound_files [OF assms(1)]) (simp_all add: kept_def)
qed

lemma boot_sound:
  assumes "boot to_int h snapctl_get stale (new_world s) = (out, w)" "store_sound to_int s"
  shows "store_sound to_int (w_store w)"
  using untouched_store_sound [OF world_readsD [OF boot_reads assms(1)]] assms(2) by (simp add: new_world_def)

lemma step_sound:
  assumes "reads_ints to_int" "daemon_step to_int m m'" "store_sound to_int (machine_store m)"
  shows "store_sound to_int (machine_store m')"
  using assms(2,3)
proof (induction rule: daemon_step.induct)
  case (Answered env decode pools arrived fs w r w')
  have "world_sound (env_to_int env) (facing fs w)"
    using Answered by (simp add: world_sound_def store_sound_fates)
  then show ?case
    using serve_sound [OF _ _ Answered(2)] assms(1) Answered(1) by (simp add: world_sound_def)
next
  case (Failed env decode pools arrived fs w out w')
  have "world_sound (env_to_int env) (facing fs w)"
    using Failed by (simp add: world_sound_def store_sound_fates)
  then show ?case
    using serve_sound [OF _ _ Failed(2)] assms(1) Failed(1) by (simp add: world_sound_def store_sound_restart)
next
  case (Killed pools w)
  then show ?case by (simp add: store_sound_restart)
next
  case (Power_lost f m l)
  then show ?case by (simp add: store_sound_power_loss)
next
  case (Recovered fs s out s')
  then show ?case using recover_sound store_sound_fates store_sound_restart by fastforce
next
  case (Started h snapctl_get stale fs s pools w)
  then show ?case using boot_sound store_sound_fates by fastforce
next
  case (Start_failed h snapctl_get stale fs s out w)
  then show ?case using boot_sound store_sound_fates store_sound_restart by fastforce
qed

lemma reachable_sound:
  assumes "reads_ints to_int" "reachable to_int m"
  shows "store_sound to_int (machine_store m)"
  using assms(2)
  by (induction rule: reachable.induct) (auto simp: store_sound_fresh intro: step_sound [OF assms(1)])

text \<open>What soundness says of a ledger that can be loaded.\<close>

lemma sound_file_ledger:
  assumes "store_sound to_int s" "f \<in> set (maybe_files s)"
  shows "\<exists>c db. section_of ''allocations_db'' f = Some c \<and> ledger_in c = Some db \<and> wf_ledger db"
proof -
  obtain c where c: "section_of ''allocations_db'' f = Some c"
    using assms by (auto simp: store_sound_def sections_readable_def)
  then have "sound_content c"
    using assms by (auto simp: store_sound_def ledgers_sound_def claim_section.contents_satisfy_def)
  then show ?thesis using c by (auto simp: sound_content_def split: option.splits)
qed

lemma sound_file_table:
  assumes "store_sound to_int s" "f \<in> set (maybe_files s)"
  shows "\<exists>c. section_of ''hugepages_db'' f = Some c \<and> table_sound (restore_allocations to_int c)"
proof -
  obtain c where c: "section_of ''hugepages_db'' f = Some c"
    using assms by (auto simp: store_sound_def sections_readable_def)
  then have "hp_content_sound to_int c"
    using assms by (auto simp: store_sound_def pages_sound_def hugepage_section.contents_satisfy_def)
  then show ?thesis using c by (simp add: hp_content_sound_def)
qed

section \<open>Successful answers\<close>

text \<open>A handler that selects a pool and runs one transaction.\<close>

lemma transaction_handler_Ret:
  assumes "ledgers_sound s"
    and "\<And>provider. keeps_ledger (with_snapshot env provider allow (f provider))"
    and "bind_s (lift_s (select_pool pools pool))
      (\<lambda>provider. transaction (with_snapshot env provider allow (f provider)) now) m s = (Ret x, m', s')"
  obtains provider snap db where "select_pool pools pool = Inr provider"
    and "pool_snapshot (env_host env) provider allow = Inr snap"
    and "stored_ledger s = Some db" and "wf_ledger db" and "f provider snap db = Inr (x, m')"
    and "wf_ledger m'" and "stored_ledger s' = Some (sorted_adb m')" and "durable s'" and "\<not> latch s"
proof -
  obtain provider where p: "select_pool pools pool = Inr provider"
    and t: "transaction (with_snapshot env provider allow (f provider)) now m s = (Ret x, m', s')"
    using assms(3) by (cases "select_pool pools pool") (auto simp: bind_s_def)
  from transaction_Ret [OF assms(1,2) t] obtain db where db: "stored_ledger s = Some db"
    "with_snapshot env provider allow (f provider) db = Inr (x, m')" "wf_ledger m'"
    "stored_ledger s' = Some (sorted_adb m')" "durable s'" "\<not> latch s" by blast
  obtain snap where "pool_snapshot (env_host env) provider allow = Inr snap" "f provider snap db = Inr (x, m')"
    using db(2) by (auto simp: with_snapshot_def)
  then show thesis using that p db stored_wf [OF assms(1) db(1)] by blast
qed

text \<open>A fresh read shows the ledger of the store.\<close>

lemma fresh_read_Ret:
  assumes "ledgers_sound s" "fresh_read f m s = (Ret x, m', s')"
  shows "stored_ledger s = Some m'" "wf_ledger m'" "f m' = Inr x" "untouched s s'"
proof -
  obtain s1 where l: "load_from_store m s = (Ret (), m', s1)" "f m' = Inr x" "s' = s1"
    using assms(2) by (auto simp: fresh_read_def split: prod.splits outcome.splits sum.splits)
  then obtain c where c: "read_section ''allocations_db'' s = (Ret c, s1)" "load_snapshot c m = (Inr (), m')"
    by (auto simp: load_from_store_def split: prod.splits outcome.splits sum.splits)
  have "section_of ''allocations_db'' (state_file s) = Some c" "untouched s s1"
    using claim_section.load_returns [OF c(1)] by simp_all
  moreover have "ledger_in c = Some m'" using load_snapshot_fresh [OF c(2)] by (simp add: ledger_in_Some)
  ultimately show "stored_ledger s = Some m'" "f m' = Inr x" "untouched s s'"
    using l by (simp_all add: stored_ledger_def)
  then show "wf_ledger m'" using stored_wf [OF assms(1)] by blast
qed

text \<open>What is logged at startup: for each pool whether its claims are inside its configured CPUs.\<close>

lemma validate_startup_Ret:
  assumes "ledgers_sound s" "validate_startup_pool pools m s = (Ret report, m', s')"
  shows "stored_ledger s = Some m'" "untouched s s'"
    "\<exists>I G. get_claimed_cpus m' (Some ISOLATED) = Inr I \<and> get_claimed_cpus m' (Some GENERAL) = Inr G \<and>
       report = blocked_pool pools ISOLATED I @ blocked_pool pools GENERAL G"
proof -
  obtain I m1 s1 G where 1: "fresh_read (\<lambda>db. get_claimed_cpus db (Some ISOLATED)) m s = (Ret I, m1, s1)"
    and 2: "fresh_read (\<lambda>db. get_claimed_cpus db (Some GENERAL)) m1 s1 = (Ret G, m', s')"
    and report: "report = blocked_pool pools ISOLATED I @ blocked_pool pools GENERAL G"
    using assms(2) unfolding validate_startup_pool_def enum_cpu_pool_name_def
    by (auto elim!: bind_s_RetE)
  note r1 = fresh_read_Ret [OF assms(1) 1]
  have "ledgers_sound s1" by (rule untouched_sound [OF r1(4) assms(1)])
  note r2 = fresh_read_Ret [OF this 2]
  have "stored_ledger s1 = stored_ledger s"
    using untouched_fields(1) [OF r1(4)] by (simp add: stored_ledger_def)
  then have same: "m1 = m'" "stored_ledger s = Some m'" using r1(1) r2(1) by simp_all
  then show "stored_ledger s = Some m'" "untouched s s'"
    using untouched_trans [OF r1(4) r2(4)] by simp_all
  show "\<exists>I G. get_claimed_cpus m' (Some ISOLATED) = Inr I \<and> get_claimed_cpus m' (Some GENERAL) = Inr G \<and>
       report = blocked_pool pools ISOLATED I @ blocked_pool pools GENERAL G"
    using r1(3) r2(3) report same(1) by blast
qed

end
