(* ===== verification/Example_Host.thy ===== *)
theory Example_Host
  imports Daemon_System
begin

text \<open>
  A host with eight CPUs in two NUMA nodes and a few ledgers on it, on which the properties are
  applied to concrete inputs.
\<close>

definition example_files :: "(string \<times> string) list" where
  "example_files =
     [(''/sys/devices/system/cpu/isolated'', ''0-7''),
      (''/sys/devices/system/cpu/online'', ''0-7''),
      (''/sys/devices/system/cpu/present'', ''0-7''),
      (''/sys/devices/system/node/node0/cpulist'', ''0-3''),
      (''/sys/devices/system/node/node1/cpulist'', ''4-7''),
      (''/sys/devices/system/cpu/cpu0/topology/thread_siblings_list'', ''0-1''),
      (''/sys/devices/system/cpu/cpu1/topology/thread_siblings_list'', ''0-1'')]"

definition example_host :: host where
  "example_host = \<lparr>file_text = map_of example_files,
     dir_entries = map_of [(''/sys/devices/system/node'', [''node0'', ''node1''])],
     path_exists = (\<lambda>p. p = ''/sys/devices/system/node'')\<rparr>"

text \<open>Service \<open>a\<close> holds CPUs 0 and 1 by count; \<open>b\<close> holds CPU 4 through its node, protected.\<close>

definition example_ledger :: adb where
  "example_ledger = \<lparr>preemption_policies = [(''a'', LEGACY), (''b'', NON_PREEMPTIVE)],
     allocation_pools = [(''a'', ISOLATED), (''b'', ISOLATED)],
     allocations = [(''a'', ''0-1''), (''b'', ''4'')], allocated_cpus = {0, 1, 4},
     explicit_allocations = [(''b'', ''4'')], explicitly_allocated_cpus = {4}\<rparr>"

definition example_pools :: cpu_pools where
  "example_pools = \<lparr>isolated_pool = \<lparr>prov_source = SourceIsolated, prov_configured = {0, 1, 2, 3, 4, 5, 6, 7}\<rparr>,
     general_pool = None\<rparr>"

text \<open>Two pools: the kernel isolates CPUs 0 to 3, the operator configures 4 to 7.\<close>

definition two_pools :: cpu_pools where
  "two_pools = \<lparr>isolated_pool = \<lparr>prov_source = SourceIsolated, prov_configured = {0, 1, 2, 3}\<rparr>,
     general_pool = Some \<lparr>prov_source = SourceConfigured, prov_configured = {4, 5, 6, 7}\<rparr>\<rparr>"

definition example_to_int :: "json \<Rightarrow> int option" where
  "example_to_int v = (case v of JInt n \<Rightarrow> Some n | _ \<Rightarrow> None)"

definition cores_request :: "string \<Rightarrow> int \<Rightarrow> allocate_cores_request" where
  "cores_request s n = \<lparr>acr_pool = ISOLATED, acr_preemption_policy = None, acr_service_name = s,
     acr_num_of_cores = n\<rparr>"

definition numa_request :: "string \<Rightarrow> int \<Rightarrow> int \<Rightarrow> allocate_numa_cores_request" where
  "numa_request s node n = \<lparr>anr_pool = ISOLATED, anr_preemption_policy = None, anr_service_name = s,
     anr_numa_node = node, anr_num_of_cores = n\<rparr>"

definition hugepages_request :: "string \<Rightarrow> int \<Rightarrow> allocate_hugepages_request" where
  "hugepages_request s n = \<lparr>ahr_service_name = s, ahr_hugepages_requested = n, ahr_node_id = 0,
     ahr_size_kb = 2048\<rparr>"

text \<open>A request parser for two actions of one service.\<close>

definition example_parse :: "action_type \<Rightarrow> (string, json) dict \<Rightarrow> epa_request result" where
  "example_parse a obj =
     (case (a, dict_get obj ''num_of_cores'' JNull) of
        (ALLOCATE_CORES, JInt n) \<Rightarrow> Inr (CoresRequest (cores_request ''c'' n))
      | (ALLOCATE_NUMA_CORES, JInt n) \<Rightarrow> Inr (NumaRequest (numa_request ''c'' 0 n))
      | _ \<Rightarrow> Inl (OtherError ''validation failed''))"

definition example_env :: env where
  "example_env = \<lparr>env_host = example_host, env_final_host = example_host, env_now = ''now'',
     env_to_int = example_to_int, env_parse_obj = example_parse\<rparr>"

text \<open>A state file that holds \<^const>\<open>example_ledger\<close>.\<close>

definition example_document :: doc where
  "example_document = [(''allocations_db'', JObj (snapshot example_ledger)), (''version'', JInt 1)]"

definition example_store :: store where
  "example_store = (fresh_store ''state.json'')\<lparr>state_file := Json (JObj (dump_load example_document)),
     maybe_data := [Json (JObj (dump_load example_document))]\<rparr>"

lemma example_ledger_wf: "wf_ledger example_ledger"
  by code_simp

lemma example_to_int_reads: "reads_ints example_to_int"
  by (simp add: reads_ints_def example_to_int_def)

lemma example_content:
  "section_of ''allocations_db'' (state_file example_store) = Some (dump_load (snapshot example_ledger))"
  by code_simp

lemma example_store_ok: "store_ok example_store"
  by code_simp

lemma example_store_sound: "store_sound example_to_int example_store"
proof -
  have files: "maybe_files example_store = [state_file example_store]"
    by (simp add: example_store_def fresh_store_def maybe_files_def)
  have pages: "section_of ''hugepages_db'' (state_file example_store) = Some []" by code_simp
  show ?thesis
    using example_store_ok sound_dumped [OF example_ledger_wf] hp_sound_empty example_content pages
    by (simp add: store_sound_def ledgers_sound_def pages_sound_def sections_readable_def files
        claim_section.contents_satisfy_def hugepage_section.contents_satisfy_def)
qed

lemma example_ledgers_sound: "ledgers_sound example_store"
  using example_store_sound by (simp add: store_sound_def)

end
