(* ===== verification/Sibling_Cores.thy ===== *)
theory Sibling_Cores
  imports Smt_Selection
begin

text \<open>
  The physical cores of a host, read off the thread siblings each CPU reports, and the selection by
  sibling groups measured against them: on a host whose siblings report each other the groups are
  the cores, and pairs of threads are taken first.
\<close>

section \<open>Cores\<close>

text \<open>The candidates on the core of a CPU: those its \<open>thread_siblings_list\<close> names, and itself.\<close>

definition core_of :: "host \<Rightarrow> int set \<Rightarrow> int \<Rightarrow> int set" where
  "core_of h C c =
     (case parse_cpu_ranges (read_file_strict h (thread_siblings_path c)) of
        Inl e \<Rightarrow> {c} | Inr siblings \<Rightarrow> insert c (siblings \<inter> C))"

definition cores_of :: "host \<Rightarrow> int set \<Rightarrow> int set set" where
  "cores_of h C = core_of h C ` C"

text \<open>Siblings report the same core.\<close>

definition siblings_agree :: "host \<Rightarrow> int set \<Rightarrow> bool" where
  "siblings_agree h C \<longleftrightarrow> (\<forall>c \<in> C. \<forall>d \<in> core_of h C c. core_of h C d = core_of h C c)"

text \<open>The cores with two candidates, and those of them whose two lowest threads are selected.\<close>

definition paired_cores :: "host \<Rightarrow> int set \<Rightarrow> int set set" where
  "paired_cores h C = {K \<in> cores_of h C. 2 \<le> card K}"

definition cores_taken :: "host \<Rightarrow> int set \<Rightarrow> int set \<Rightarrow> int set set" where
  "cores_taken h C S = {K \<in> paired_cores h C. set (take 2 (py_sorted K)) \<subseteq> S}"

lemma core_of_within: "c \<in> C \<Longrightarrow> core_of h C c \<subseteq> C" "d \<in> core_of h C d"
  by (auto simp: core_of_def split: sum.split)

section \<open>The groups are the cores\<close>

lemma mapE_keyed:
  assumes "mapE f xs = Inr ys" "\<And>x y. f x = Inr y \<Longrightarrow> fst y = x" "x \<in> set xs" "distinct xs"
  shows "\<exists>v. f x = Inr (x, v) \<and> map_of ys x = Some v"
  using assms(1,3,4)
proof (induction xs arbitrary: ys)
  case (Cons z zs)
  then obtain y ys' where y: "f z = Inr y" "mapE f zs = Inr ys'" "ys = y # ys'" by (auto simp: bindE_eq_Inr)
  obtain v where v: "y = (z, v)" using assms(2) [OF y(1)] by (cases y) auto
  show ?case
  proof (cases "x = z")
    case True
    then show ?thesis using y v by simp
  next
    case False
    then show ?thesis using Cons.IH [OF y(2)] Cons.prems y(3) v by simp
  qed
qed simp

lemma siblings_map_core:
  assumes "get_thread_siblings_map h C = Inr m" "finite C" "c \<in> C"
  shows "dict_get m c {c} \<union> {c} = core_of h C c"
proof -
  have map: "mapE (siblings_entry h C) (py_sorted C) = Inr m"
    using assms by (auto simp: get_thread_siblings_map_def split: if_splits)
  have key: "fst y = x" if "siblings_entry h C x = Inr y" for x y
    using that
    by (cases "read_file_strict h (thread_siblings_path x) = []"; cases y;
        cases "parse_cpu_ranges (read_file_strict h (thread_siblings_path x))")
      (simp_all add: siblings_entry_def Let_def)
  have "\<exists>v. siblings_entry h C c = Inr (c, v) \<and> map_of m c = Some v"
  proof (rule mapE_keyed [where f = "siblings_entry h C" and xs = "py_sorted C"])
    show "mapE (siblings_entry h C) (py_sorted C) = Inr m" by (rule map)
    show "c \<in> set (py_sorted C)" "distinct (py_sorted C)" using assms(2,3) by simp_all
  qed (rule key)
  then obtain v where v: "siblings_entry h C c = Inr (c, v)" "map_of m c = Some v" by (elim exE conjE)
  have look: "dict_get m c {c} = v" using v(2) by (simp add: dict_get_def)
  let ?content = "read_file_strict h (thread_siblings_path c)"
  show ?thesis
  proof (cases "?content = []")
    case True
    then show ?thesis using v(1) look by (simp add: siblings_entry_def core_of_def parse_cpu_ranges_def)
  next
    case False
    then obtain T where "parse_cpu_ranges ?content = Inr T" "v = (if T \<inter> C \<noteq> {} then T \<inter> C else {c})"
      using v(1) by (auto simp: siblings_entry_def Let_def bindE_eq_Inr)
    then show ?thesis using look by (auto simp: core_of_def)
  qed
qed

lemma group_loop_cores:
  assumes agree: "\<And>c d. c \<in> C \<Longrightarrow> d \<in> cl c \<Longrightarrow> cl d = cl c" and self: "\<And>c. c \<in> cl c"
    and look: "\<And>c. c \<in> C \<Longrightarrow> dict_get m c {c} \<union> {c} = cl c"
    and "set cs \<subseteq> C" "u \<subseteq> C" "\<And>c. c \<in> u \<Longrightarrow> cl c \<subseteq> u"
  shows "\<exists>Ks. group_loop m cs u [] = List.map py_sorted Ks \<and> distinct Ks \<and> set Ks = cl ` (set cs \<inter> u)"
  using assms(4-6)
proof (induction cs arbitrary: u)
  case (Cons c cs)
  show ?case
  proof (cases "c \<in> u")
    case True
    have c: "c \<in> C" and cu: "cl c \<subseteq> u" using True Cons.prems by auto
    have M: "(dict_get m c {c} \<union> {c}) \<inter> u = cl c" using look [OF c] cu by blast
    have apart: "cl d \<inter> cl c = {}" if "d \<in> u - cl c" for d
    proof (rule ccontr)
      assume "cl d \<inter> cl c \<noteq> {}"
      then obtain e where e: "e \<in> cl d" "e \<in> cl c" by blast
      have "d \<in> C" using that Cons.prems(2) by blast
      then have "cl d = cl c" using agree e c by metis
      then show False using self [of d] that by blast
    qed
    have "\<exists>Ks. group_loop m cs (u - cl c) [] = List.map py_sorted Ks \<and> distinct Ks
        \<and> set Ks = cl ` (set cs \<inter> (u - cl c))"
    proof (rule Cons.IH)
      show "set cs \<subseteq> C" "u - cl c \<subseteq> C" using Cons.prems by auto
      show "cl d \<subseteq> u - cl c" if "d \<in> u - cl c" for d
        using apart [OF that] Cons.prems(3) [of d] that by blast
    qed
    then obtain Ks where Ks: "group_loop m cs (u - cl c) [] = List.map py_sorted Ks" "distinct Ks"
      "set Ks = cl ` (set cs \<inter> (u - cl c))" by blast
    have "group_loop m (c # cs) u [] = py_sorted (cl c) # group_loop m cs (u - cl c) []"
      unfolding group_loop_take [OF True] M
      using group_loop_acc [of m cs "u - cl c" "[] @ [py_sorted (cl c)]"] by simp
    moreover have "cl c \<notin> set Ks" using apart self Ks(3) by blast
    moreover have "set (cl c # Ks) = cl ` (set (c # cs) \<inter> u)"
    proof -
      have "cl d = cl c" if "d \<in> cl c" for d using agree [OF c that] .
      then show ?thesis using Ks(3) True cu by auto
    qed
    ultimately show ?thesis using Ks by (intro exI [of _ "cl c # Ks"]) simp
  next
    case False
    then show ?thesis using Cons by auto
  qed
qed simp

lemma groups_are_cores:
  assumes "group_candidates_by_siblings h C = Inr gs" "finite C" "siblings_agree h C"
  shows "\<exists>Ks. gs = List.map py_sorted Ks \<and> distinct Ks \<and> set Ks = cores_of h C"
proof (cases "C = {}")
  case True
  then show ?thesis using assms(1) by (simp add: group_candidates_by_siblings_def cores_of_def)
next
  case False
  then obtain m where m: "get_thread_siblings_map h C = Inr m" "gs = group_loop m (py_sorted C) C []"
    using assms(1) by (auto simp: group_candidates_by_siblings_def bindE_eq_Inr)
  have "\<exists>Ks. group_loop m (py_sorted C) C [] = List.map py_sorted Ks \<and> distinct Ks
      \<and> set Ks = core_of h C ` (set (py_sorted C) \<inter> C)"
  proof (rule group_loop_cores [where C = C])
    show "core_of h C d = core_of h C c" if "c \<in> C" "d \<in> core_of h C c" for c d
      using assms(3) that by (simp add: siblings_agree_def)
    show "c \<in> core_of h C c" for c by (rule core_of_within(2))
    show "dict_get m c {c} \<union> {c} = core_of h C c" if "c \<in> C" for c
      by (rule siblings_map_core [OF m(1) assms(2) that])
    show "core_of h C c \<subseteq> C" if "c \<in> C" for c using core_of_within(1) that .
  qed (use assms(2) in simp_all)
  then show ?thesis using m(2) assms(2) by (simp add: cores_of_def)
qed

section \<open>Pairs first\<close>

lemma length_filter_card: "distinct xs \<Longrightarrow> length (List.filter P xs) = card {x \<in> set xs. P x}"
  by (metis distinct_card distinct_filter set_filter)

lemma smt_pairs_cores:
  assumes "finite C" "0 \<le> n" "n \<le> py_len C" "select_numa_cpus_smt_aware h C n = Inr S" "siblings_agree h C"
  shows "min (nat n div 2) (card (paired_cores h C)) \<le> card (cores_taken h C S)"
proof -
  obtain gs where gs: "group_candidates_by_siblings h C = Inr gs"
    "min (nat n div 2) (full_groups gs) \<le> paired_groups S gs" using smt_pairs [OF assms(1-4)] by blast
  obtain Ks where Ks: "gs = List.map py_sorted Ks" "distinct Ks" "set Ks = cores_of h C"
    using groups_are_cores [OF gs(1) assms(1,5)] by blast
  have "full_groups gs = card (paired_cores h C)"
    by (simp add: full_groups_def Ks(1) filter_map comp_def length_filter_card [OF Ks(2)] Ks(3) paired_cores_def)
  moreover have "paired_groups S gs = card (cores_taken h C S)"
    by (simp add: paired_groups_def Ks(1) filter_map comp_def length_filter_card [OF Ks(2)] Ks(3)
        paired_cores_def cores_taken_def conj_assoc)
  ultimately show ?thesis using gs(2) by simp
qed

end
