(* ===== verification/Claims_Selection.thy ===== *)
theory Claims_Selection
  imports Example_Host Sibling_Cores
begin

text \<open>
  Properties of the parsers, the selectors and the pools, each applied to a concrete input.
\<close>

section \<open>Range text\<close>

text \<open>C38: Printing a CPU set and parsing the text gives the set back, with the parser of
  \<open>utils.py\<close>, with the one inside \<open>calculate_cpu_pinning\<close>, and, for IDs the operator may name,
  with the one of \<open>cpu_pool.py\<close>: the three parsers agree on the canonical text.\<close>

theorem range_text_roundtrip:
  assumes "cpu_ids S" "S \<noteq> {}" "S \<subseteq> {0..max_cpu_id}"
  shows "parse_cpu_ranges (set_ranges S) = Inr S \<and>
    pin_parts (split_on (CHR '','') (set_ranges S)) {} = Inr S \<and>
    parse_cpu_list (set_ranges S) None allow_empty = Inr S"
proof (intro conjI)
  have fin: "finite S" using assms(1) by blast
  have pos: "\<forall>c \<in> set (py_sorted S). 0 \<le> c" using assms(1) fin by (simp add: cpu_ids_def)
  show "parse_cpu_ranges (set_ranges S) = Inr S" using parse_to_ranges [OF pos] fin by simp
  show "pin_parts (split_on (CHR '','') (set_ranges S)) {} = Inr S"
    using pin_parts_to_ranges [OF _ pos] fin assms(2) by simp
  show "parse_cpu_list (set_ranges S) None allow_empty = Inr S"
    by (rule parse_cpu_list_to_ranges [OF assms])
qed

theorem range_text_roundtrip_witness:
  "set_ranges {0, 1, 2, 7} = ''0-2,7'' \<and> parse_cpu_ranges ''0-2,7'' = Inr {0, 1, 2, 7}
    \<and> pin_parts [''0-2'', ''7''] {} = Inr {0, 1, 2, 7} \<and> parse_cpu_list ''0-2,7'' None False = Inr {0, 1, 2, 7}"
proof -
  have h: "cpu_ids {0, 1, 2, 7}" "{0, 1, 2, 7} \<noteq> ({} :: int set)" "{0, 1, 2, 7} \<subseteq> {0..max_cpu_id}"
    by (auto simp: cpu_ids_def max_cpu_id_def)
  have t: "set_ranges {0, 1, 2, 7} = ''0-2,7''" "split_on (CHR '','') ''0-2,7'' = [''0-2'', ''7'']" by code_simp+
  show ?thesis using range_text_roundtrip [OF h] t by simp
qed

section \<open>Pinning\<close>

text \<open>\<open>calculate_cpu_pinning\<close> on a non-empty CPU set: a request for more CPUs than there are
  gives two empty texts; otherwise the dedicated text holds exactly the requested number (the
  heuristic's number for a request of at most 0), which are the lowest IDs, and the shared text
  holds the rest.\<close>

theorem calculate_cpu_pinning_split:
  assumes "cpu_ids S" "S \<noteq> {}"
  shows "\<exists>D. D \<subseteq> S \<and> (\<forall>a \<in> D. \<forall>b \<in> S - D. a < b) \<and>
    calculate_cpu_pinning (set_ranges S) n =
      (if py_len S < n then Inr ([], []) else Inr (set_ranges (S - D), set_ranges D)) \<and>
    (\<not> py_len S < n \<longrightarrow> py_len D = (if 0 < n then n else default_cores (py_len S)))"
proof -
  let ?k = "pinned_count (py_len S) n"
  let ?D = "set (take (nat ?k) (py_sorted S))"
  have fin: "finite S" using assms(1) by blast
  have b: "0 \<le> default_cores (py_len S)" "default_cores (py_len S) \<le> py_len S"
    using default_cores_bounds [of "py_len S"] by simp_all
  have k: "py_len S < ?k \<longleftrightarrow> py_len S < n" "0 \<le> ?k" "?k = (if 0 < n then n else default_cores (py_len S))"
    using b py_len_nonneg [of S] by (auto simp: pinned_count_def)
  have sub: "?D \<subseteq> S" by (rule set_py_sorted_take [OF fin])
  have rest: "set (drop (nat ?k) (py_sorted S)) = S - ?D" by (rule take_drop_py_sorted [OF fin])
  have below: "a < b" if "a \<in> ?D" "b \<in> S - ?D" for a b
  proof -
    have "sorted (take (nat ?k) (py_sorted S) @ drop (nat ?k) (py_sorted S))" by simp
    then have "a \<le> b" using that rest unfolding sorted_append by blast
    moreover have "a \<noteq> b" using that by auto
    ultimately show "a < b" by simp
  qed
  have texts: "to_ranges (take (nat ?k) (py_sorted S)) = set_ranges ?D"
    "to_ranges (drop (nat ?k) (py_sorted S)) = set_ranges (S - ?D)"
    using sorted_list_of_set.idem_if_sorted_distinct [of "take (nat ?k) (py_sorted S)"]
      sorted_list_of_set.idem_if_sorted_distinct [of "drop (nat ?k) (py_sorted S)"]
    by (simp_all add: sorted_wrt_take sorted_wrt_drop flip: rest)
  have calc: "calculate_cpu_pinning (set_ranges S) n =
      (if py_len S < n then Inr ([], []) else Inr (set_ranges (S - ?D), set_ranges ?D))"
    unfolding calculate_on_set [OF assms] Let_def texts k(1) ..
  have size: "\<not> py_len S < n \<longrightarrow> py_len ?D = ?k"
    using card_take_py_sorted [OF fin, of "nat ?k"] k(1,2) by (auto simp: py_len_def)
  show ?thesis
  proof (intro exI conjI ballI)
    show "?D \<subseteq> S" by (rule sub)
    show "calculate_cpu_pinning (set_ranges S) n =
      (if py_len S < n then Inr ([], []) else Inr (set_ranges (S - ?D), set_ranges ?D))" by (rule calc)
    show "\<not> py_len S < n \<longrightarrow> py_len ?D = (if 0 < n then n else default_cores (py_len S))"
      using size unfolding k(3) .
  qed (rule below)
qed

theorem calculate_cpu_pinning_split_witness:
  "\<exists>D. D \<subseteq> {2, 3, 8, 9} \<and> calculate_cpu_pinning (set_ranges {2, 3, 8, 9}) 3
     = Inr (set_ranges ({2, 3, 8, 9} - D), set_ranges D) \<and> py_len D = 3"
proof -
  have h: "cpu_ids {2, 3, 8, 9}" "{2, 3, 8, 9} \<noteq> ({} :: int set)" by (simp_all add: cpu_ids_def)
  have "py_len {2, 3, 8, 9 :: int} = 4" by (simp add: py_len_def)
  then show ?thesis using calculate_cpu_pinning_split [OF h, of 3] by auto
qed

text \<open>The two examples of the docstring that the code contradicts.\<close>

lemma pinning_negative_is_default: "calculate_cpu_pinning ''0-3'' (- 1) = Inr (''3'', ''0-2'')"
  by code_simp

lemma pinning_forty_is_small: "calculate_cpu_pinning ''0-39'' 0 = Inr (''32-39'', ''0-31'')"
  by code_simp

section \<open>Selecting CPUs of a node\<close>

text \<open>C23: The hyperthread-aware selection takes exactly the requested number of candidates. On a host
  whose thread siblings report each other it takes whole pairs first: of the cores, read off the
  sibling lists in sysfs, that have two candidates, it takes both of the two lowest threads of as
  many as the number allows.\<close>

theorem smt_selection_pairs_first:
  assumes "finite C" "0 \<le> n" "n \<le> py_len C" "select_numa_cpus_smt_aware h C n = Inr S"
  shows "S \<subseteq> C \<and> py_len S = n \<and>
    (siblings_agree h C \<longrightarrow> min (nat n div 2) (card (paired_cores h C)) \<le> card (cores_taken h C S))"
  using smt_exact [OF assms] smt_pairs_cores [OF assms] by blast

text \<open>Two cores whose threads are four numbers apart.\<close>

definition threads_host :: host where
  "threads_host = \<lparr>file_text = map_of
       [(''/sys/devices/system/cpu/cpu0/topology/thread_siblings_list'', ''0,4''),
        (''/sys/devices/system/cpu/cpu4/topology/thread_siblings_list'', ''0,4''),
        (''/sys/devices/system/cpu/cpu1/topology/thread_siblings_list'', ''1,5''),
        (''/sys/devices/system/cpu/cpu5/topology/thread_siblings_list'', ''1,5'')],
     dir_entries = (\<lambda>p. None), path_exists = (\<lambda>p. False)\<rparr>"

theorem smt_selection_pairs_first_witness:
  "paired_cores threads_host {0, 1, 4, 5} = {{0, 4}, {1, 5}} \<and>
   (\<exists>S. select_numa_cpus_smt_aware threads_host {0, 1, 4, 5} 2 = Inr S \<and> py_len S = 2 \<and>
      (S = {0, 4} \<or> S = {1, 5}))"
proof -
  let ?C = "{0, 1, 4, 5 :: int}"
  have core: "core_of threads_host ?C 0 = {0, 4}" "core_of threads_host ?C 4 = {0, 4}"
    "core_of threads_host ?C 1 = {1, 5}" "core_of threads_host ?C 5 = {1, 5}" by code_simp+
  have agree: "siblings_agree threads_host ?C" by (simp add: siblings_agree_def core)
  have cores: "paired_cores threads_host ?C = {{0, 4}, {1, 5}}"
    by (auto simp: paired_cores_def cores_of_def core)
  have "case select_numa_cpus_smt_aware threads_host ?C 2 of Inl e \<Rightarrow> False | Inr S \<Rightarrow> True" by code_simp
  then obtain S where S: "select_numa_cpus_smt_aware threads_host ?C 2 = Inr S" by (auto split: sum.splits)
  have "(2 :: int) \<le> py_len ?C" "finite ?C" "(0 :: int) \<le> 2" by (simp_all add: py_len_def)
  from smt_selection_pairs_first [OF this(2,3,1) S] agree cores
  have sel: "py_len S = 2" "1 \<le> card (cores_taken threads_host ?C S)" "S \<subseteq> ?C" by (simp_all add: doubleton_eq_iff)
  then have "cores_taken threads_host ?C S \<noteq> {}" by force
  then obtain K where "K = {0, 4} \<or> K = {1, 5}" "set (take 2 (py_sorted K)) \<subseteq> S"
    using cores by (auto simp: cores_taken_def)
  then have K: "K \<subseteq> S" "card K = 2" "K = {0, 4} \<or> K = {1, 5}" by auto
  have "finite S" using sel(3) finite_subset by blast
  then have "K = S" using K sel(1) by (simp add: card_subset_eq py_len_def)
  then show ?thesis using S sel(1) cores K(3) by blast
qed

text \<open>C24: The stable selection returns exactly the requested number of candidates and never drops
  a CPU the service already owns while the request is at least as large as its claim.\<close>

theorem stable_selection_keeps_claims:
  assumes "finite C" "0 \<le> n" "n \<le> py_len C"
    and "stable_with (select_numa_cpus_smt_aware h) own C n = Inr S"
  shows "S \<subseteq> C \<and> py_len S = n \<and> (py_len (own \<inter> C) \<le> n \<longrightarrow> own \<inter> C \<subseteq> S) \<and>
    (n \<le> py_len (own \<inter> C) \<longrightarrow> S \<subseteq> own)"
proof (intro conjI)
  note ex = smt.stable_exact [OF assms]
  show "S \<subseteq> C" "py_len S = n" using ex by simp_all
  show "py_len (own \<inter> C) \<le> n \<longrightarrow> own \<inter> C \<subseteq> S"
    using smt.stable_keeps_own [OF assms(1,3,4)] by blast
  show "n \<le> py_len (own \<inter> C) \<longrightarrow> S \<subseteq> own"
  proof
    let ?ret = "set (py_prefix n (py_sorted (own \<inter> C)))"
    assume le: "n \<le> py_len (own \<inter> C)"
    have fin: "finite (own \<inter> C)" using assms(1) by simp
    have "py_len ?ret = n"
      using card_take_py_sorted [OF fin, of "nat n"] assms(2) le by (simp add: py_prefix_def py_len_def)
    then have "S = ?ret" using assms(4) by (simp add: stable_with_def Let_def)
    then show "S \<subseteq> own"
      using set_py_sorted_take [OF fin, of "nat n"] assms(2) by (auto simp: py_prefix_def)
  qed
qed

theorem stable_selection_keeps_claims_witness:
  "{3, 0, 1} \<subseteq> {0, 1, 2, 3 :: int} \<and> py_len {3, 0, 1 :: int} = 3 \<and> {3} \<inter> {0, 1, 2, 3} \<subseteq> {3, 0, 1 :: int}"
proof -
  have "finite {0, 1, 2, 3 :: int}" "(0 :: int) \<le> 3" "3 \<le> py_len {0, 1, 2, 3 :: int}"
    by (simp_all add: py_len_def)
  moreover have "stable_with (select_numa_cpus_smt_aware example_host) {3, 9} {0, 1, 2, 3} 3 = Inr {3, 0, 1}"
    by code_simp
  ultimately show ?thesis
    using stable_selection_keeps_claims [of "{0, 1, 2, 3}" 3 example_host "{3, 9}" "{3, 0, 1}"] by auto
qed

section \<open>Pools\<close>


text \<open>A pool snapshot offers only configured CPUs that the host lists as online. Where the
  online list cannot be read, it raises, or offers nothing when the caller allows that.\<close>

theorem snapshot_only_online:
  assumes "pool_snapshot h provider allow_unavailable = Inr snap"
  shows "snap_eligible snap \<subseteq> prov_configured provider \<and> cpu_ids (snap_eligible snap) \<and>
    (\<not> allow_unavailable \<or> snap_eligible snap \<noteq> {} \<longrightarrow>
      (\<exists>online. read_cpu_list h online_cpus_path = Inr online \<and> snap_eligible snap \<subseteq> online))"
  using pool_snapshot_Inr [OF assms] by auto

theorem snapshot_only_online_witness:
  "{0, 1, 2, 3} \<subseteq> {0, 1, 2, 3, 12 :: int} \<and>
   (\<exists>online. read_cpu_list example_host online_cpus_path = Inr online \<and> {0, 1, 2, 3} \<subseteq> online)"
proof -
  have "pool_snapshot example_host \<lparr>prov_source = SourceConfigured, prov_configured = {0, 1, 2, 3, 12}\<rparr> False
      = Inr \<lparr>snap_source = SourceConfigured, snap_configured = {0, 1, 2, 3, 12}, snap_eligible = {0, 1, 2, 3}\<rparr>"
    by code_simp
  from snapshot_only_online [OF this] show ?thesis by simp
qed

text \<open>What the configure hook records is the canonical text of a pool whose CPUs are all
  present, which is disjoint from the isolated CPUs and contains every CPU the ledger records in
  the general pool; or it is the word \<open>isolated\<close>, and then no general claim exists.\<close>

theorem hook_records_only_safe_pools:
  assumes "validate_snap_configuration h get set_ok db = Inr (Some saved)"
  shows "\<exists>claimed. get_claimed_cpus db (Some GENERAL) = Inr claimed \<and>
    (saved = ''isolated'' \<and> claimed = {} \<or>
     (\<exists>S present isolated. saved = set_ranges S \<and> claimed \<subseteq> S \<and>
        read_cpu_list h present_cpus_path = Inr present \<and> S \<subseteq> present \<and>
        make_provider h None = Inr isolated \<and> prov_configured isolated \<inter> S = {}))"
proof -
  obtain configuration accepted normalized where
    norm: "normalize_configuration h configuration accepted = Inr normalized" "Some normalized \<noteq> accepted"
    and acc: "accept_configuration h configuration normalized set_ok db = Inr (Some saved)"
    using assms unfolding validate_snap_configuration_def by (auto split: if_splits)
  obtain pools claimed where pools: "make_pools h configuration = Inr pools"
    and claimed: "get_claimed_cpus db (Some GENERAL) = Inr claimed"
    and valid: "(if general_pool pools \<noteq> None \<or> claimed \<noteq> {}
      then bindE (select_pool pools GENERAL) (\<lambda>g. validate_claims g claimed) else Inr ()) = Inr ()"
    and same: "normalized = saved"
    using acc unfolding accept_configuration_def record_configuration_def by (auto simp del: validate_guards split del: if_split)
  show ?thesis
  proof (cases "custom_pool configuration")
    case None
    then have "general_pool pools = None" "saved = ''isolated''"
      using pools norm same by (auto simp: make_pools_def normalize_configuration_def)
    then have "claimed = {}" using valid by (auto simp: select_pool_def split: if_splits)
    then show ?thesis using claimed \<open>saved = ''isolated''\<close> by blast
  next
    case (Some c)
    then have "custom_pool (Some c) = Some c" by (auto simp: custom_pool_def split: option.splits if_splits)
    then obtain S isolated where S: "parse_cpu_list c None False = Inr S"
      and iso: "make_provider h None = Inr isolated" "prov_configured isolated \<inter> S = {}"
      and g: "general_pool pools = Some \<lparr>prov_source = SourceConfigured, prov_configured = S\<rparr>"
      using pools Some by (auto simp: make_pools_def make_provider_def [of h "Some c"] validate_disjoint_def Let_def)
    have "saved = set_ranges S" using norm(1) S Some same
      by (auto simp: normalize_configuration_def Let_def split: if_splits)
    moreover obtain present S' where "read_cpu_list h present_cpus_path = Inr present"
      and pr: "parse_cpu_list c (Some present) False = Inr S'"
      using norm S Some by (auto simp: normalize_configuration_def Let_def split: if_splits)
    moreover have "S = S'" "S' \<subseteq> present"
      using parse_cpu_list_present [OF S pr] parse_cpu_list_Inr(2) [OF pr] by (simp_all add: admissible_def)
    moreover have "claimed \<subseteq> S" using valid g by (auto simp: select_pool_def validate_claims_def)
    ultimately show ?thesis using claimed iso by blast
  qed
qed

text \<open>General CPUs 4 and 5 accepted while service \<open>g\<close> owns CPU 4 of the general pool.\<close>

definition snap_options :: "string \<Rightarrow> json option" where
  "snap_options key = Some (JObj [(''cpu-pool'', JStr ''4-5'')])"

definition split_host :: host where
  "split_host = example_host\<lparr>file_text := map_of ((isolated_cpus_path, ''0-3'') # example_files)\<rparr>"

definition general_ledger :: adb where
  "general_ledger = \<lparr>preemption_policies = [(''g'', LEGACY)], allocation_pools = [(''g'', GENERAL)],
     allocations = [(''g'', ''4'')], allocated_cpus = {4}, explicit_allocations = [],
     explicitly_allocated_cpus = {}\<rparr>"

theorem hook_records_only_safe_pools_witness:
  "\<exists>claimed. get_claimed_cpus general_ledger (Some GENERAL) = Inr claimed \<and>
    (''4-5'' = ''isolated'' \<and> claimed = {} \<or>
     (\<exists>S present isolated. ''4-5'' = set_ranges S \<and> claimed \<subseteq> S \<and>
        read_cpu_list split_host present_cpus_path = Inr present \<and> S \<subseteq> present \<and>
        make_provider split_host None = Inr isolated \<and> prov_configured isolated \<inter> S = {}))"
proof -
  have "validate_snap_configuration split_host snap_options (\<lambda>v. True) general_ledger
      = Inr (Some ''4-5'')" by code_simp
  then show ?thesis by (rule hook_records_only_safe_pools)
qed

end
