(* ===== verification/Ledger_History.thy ===== *)
theory Ledger_History
  imports Ledger_Txn
begin

text \<open>
  The ledger over time: what one service may do to the candidate of a transaction as a step
  relation, the histories it generates from an empty ledger, and what a step never does to the
  claims of anybody else.
\<close>

section \<open>Steps\<close>

text \<open>
  A successful mutation asked for by one service in one pool. An operation that raises discards
  its candidate and is no step.
\<close>

inductive ledger_step :: "string \<Rightarrow> cpu_pool_name \<Rightarrow> adb \<Rightarrow> adb \<Rightarrow> bool" for s pool where
  Counted: "allocate_count h check s cnt eligible requested pool db = Inr (r, db') \<Longrightarrow>
    ledger_step s pool db db'"
| Assigned: "allocate_cores s cores requested pool db = Inr db' \<Longrightarrow> ledger_step s pool db db'"
| Placed: "cpu_ids eligible \<Longrightarrow>
    allocate_numa_cores h check s node n requested pool eligible db = Inr (r, db') \<Longrightarrow>
    ledger_step s pool db db'"
| Released: "remove_allocation s pool db = Inr (b, db') \<Longrightarrow> ledger_step s pool db db'"

inductive_cases ledger_stepE: "ledger_step s pool db db'"

text \<open>Histories also contain the administrative reset.\<close>

inductive ledger_history :: "adb \<Rightarrow> bool" where
  Empty: "ledger_history empty_adb"
| Served: "ledger_history db \<Longrightarrow> ledger_step s pool db db' \<Longrightarrow> ledger_history db'"
| Cleared: "ledger_history db \<Longrightarrow> ledger_history (clear_all_allocations db)"

section \<open>The effect of a step\<close>

text \<open>
  Seen abstractly, a step leaves the ledger as it is, releases the requester, takes CPUs of the
  requester, records a claim free of foreign CPUs, or grants CPUs of a node.
\<close>

definition step_effect :: "string \<Rightarrow> cpu_pool_name \<Rightarrow> adb \<Rightarrow> adb \<Rightarrow> bool" where
  "step_effect s pool db db' \<longleftrightarrow>
     abs_ledger db' = abs_ledger db \<or>
     abs_ledger db' = release_claim s (abs_ledger db) \<or>
     (\<exists>R. abs_ledger db' = subtract_claim s R (abs_ledger db)) \<or>
     (\<exists>S policy. abs_ledger db' = record_claim s S {} policy pool (abs_ledger db) \<and>
        dict_get (preemption_policies db) s LEGACY \<le> policy) \<or>
     (\<exists>X S policy. abs_ledger db' = numa_grant s X S policy pool (abs_ledger db) \<and>
        dict_get (preemption_policies db) s LEGACY \<le> policy \<and>
        (\<forall>t. t \<noteq> s \<longrightarrow> owned_by db t \<inter> S \<noteq> {} \<longrightarrow> reclaimable db t (owned_by db t \<inter> S) policy pool))"

lemma step_in_pool: "ledger_step s pool db db' \<Longrightarrow> ensure_service_pool db s pool = Inr ()"
  by (erule ledger_stepE)
    (auto simp: allocate_count_def allocate_cores_def allocate_numa_cores_def remove_allocation_def
      simp del: validate_guards)

lemma step_keeps_wf: "ledger_step s pool db db' \<Longrightarrow> wf_ledger db \<Longrightarrow> wf_ledger db'"
proof (erule ledger_stepE)
  fix cores requested
  assume "wf_ledger db" "allocate_cores s cores requested pool db = Inr db'"
  then show "wf_ledger db'"
    using keeps_ledgerD [OF keeps_cores [of s cores requested pool], of db "()"] by simp
qed (blast intro: keeps_ledgerD keeps_count keeps_numa keeps_remove)+

lemma step_effect_of:
  assumes "wf_ledger db" "ledger_step s pool db db'"
  shows "step_effect s pool db db'"
  using assms(2)
proof cases
  case (Counted h check cnt eligible requested r)
  obtain shared dedicated where r: "r = (shared, dedicated)" by (cases r)
  obtain free where "get_available_cpus_for_service db s eligible = Inr free"
    using Counted unfolding allocate_count_def by blast
  then obtain E where "parse_cpu_ranges eligible = Inr E"
    unfolding get_available_cpus_for_service_def by blast
  from allocate_count_abs [OF assms(1) this Counted [unfolded r]]
  show ?thesis unfolding step_effect_def using effective_policy_le by metis
next
  case (Assigned cores requested)
  show ?thesis
  proof (cases "cores = [] \<or> parse_cpu_ranges cores = Inr {}")
    case True
    then have "db' = db" using Assigned unfolding allocate_cores_def
      by (cases "cores = []") (auto simp del: validate_guards)
    then show ?thesis by (simp add: step_effect_def)
  next
    case False
    then obtain S where "parse_cpu_ranges cores = Inr S" "S \<noteq> {}"
      using Assigned unfolding allocate_cores_def by (auto simp del: validate_guards)
    from allocate_cores_abs [OF assms(1) Assigned this]
    show ?thesis unfolding step_effect_def using effective_policy_le by metis
  qed
next
  case (Placed eligible h check node n requested r)
  obtain cores rejected where r: "r = (cores, rejected)" by (cases r)
  note run = Placed(2) [unfolded r]
  consider "0 < n" | "n = 0" | "n = - 1" | "n < - 1" by linarith
  then show ?thesis
  proof cases
    case 1
    show ?thesis
    proof (rule allocate_numa_abs [OF assms(1) Placed(1) 1 run], goal_cases)
      case (1 S policy)
      then show ?thesis unfolding step_effect_def using effective_policy_le by blast
    next
      case (2 policy)
      then show ?thesis by (simp add: step_effect_def)
    qed
  next
    case 2
    then show ?thesis using run allocate_numa_zero by (metis step_effect_def)
  next
    case 3
    then show ?thesis using run numa_release_abs(3) [OF assms(1)] unfolding step_effect_def by blast
  next
    case 4
    from allocate_numa_negative [OF this] run show ?thesis by (metis Inl_Inr_False)
  qed
next
  case (Released b)
  then show ?thesis using remove_allocation_Inr(3) [OF assms(1)] by (simp add: step_effect_def)
qed

section \<open>What a step leaves alone\<close>

lemma abs_ledger_Some:
  "abs_ledger db t = Some c \<longleftrightarrow> dict_has (allocations db) t \<and>
     c = \<lparr>cl_owned = owned_by db t, cl_explicit = explicit_by db t,
          cl_policy = dict_get (preemption_policies db) t LEGACY, cl_pool = service_pool db t\<rparr>"
  by (auto simp: abs_ledger_def)

lemma step_others:
  assumes "wf_ledger db" "ledger_step s pool db db'" "t \<noteq> s" "abs_ledger db t = Some c"
  shows "abs_ledger db' t = Some c \<or>
    (cl_policy c = LEGACY \<and> cl_pool c = pool \<and>
     (\<exists>R. R \<inter> cl_explicit c = {} \<and> abs_ledger db' t = shrink_claim R c))"
proof -
  have other: "release_claim s L t = L t" "subtract_claim s R L t = L t"
    "record_claim s S E p q L t = L t" for L R S E p q
    using assms(3) by (simp_all add: release_claim_def subtract_claim_def record_claim_def)
  have c: "cl_owned c = owned_by db t" "cl_explicit c = explicit_by db t"
    "cl_policy c = dict_get (preemption_policies db) t LEGACY" "cl_pool c = service_pool db t"
    using assms(4) by (simp_all add: abs_ledger_Some)
  have grant: ?thesis if g: "abs_ledger db' = numa_grant s X S policy pool (abs_ledger db)"
    and rec: "owned_by db t \<inter> S \<noteq> {} \<longrightarrow> reclaimable db t (owned_by db t \<inter> S) policy pool" for X S policy
  proof -
    have eq: "abs_ledger db' t = shrink_claim S c" using g assms(3,4) by (simp add: numa_grant_def)
    show ?thesis
    proof (cases "owned_by db t \<inter> S = {}")
      case True
      have "Option.bind (abs_ledger db t) (shrink_claim S) = abs_ledger db t"
        using shrink_claim_disjoint [OF wf_ledgerD(2) [OF assms(1)]] True by simp
      then show ?thesis using eq assms(4) by simp
    next
      case False
      then have r: "reclaimable db t (owned_by db t \<inter> S) policy pool" using rec by blast
      have "explicit_by db t \<subseteq> owned_by db t" by (rule wf_explicit [OF assms(1)])
      then have "S \<inter> cl_explicit c = {}" using r c(2) unfolding reclaimable_def by blast
      moreover have "cl_policy c = LEGACY" "cl_pool c = pool"
        using r unfolding reclaimable_def c(3,4) by (metis preemption_policy.exhaust)+
      ultimately show ?thesis using eq by blast
    qed
  qed
  show ?thesis
    using step_effect_of [OF assms(1,2)] assms(4) other grant assms(3) unfolding step_effect_def by metis
qed

lemma step_own:
  assumes "wf_ledger db" "ledger_step s pool db db'" "abs_ledger db s = Some c"
  shows "cl_pool c = pool \<and> (\<forall>c'. abs_ledger db' s = Some c' \<longrightarrow> cl_pool c' = pool \<and> cl_policy c \<le> cl_policy c')"
proof -
  have pool: "cl_pool c = pool"
    using step_in_pool [OF assms(2)] assms(3) by (auto simp: abs_ledger_Some)
  have shrunk: "cl_pool d = cl_pool c \<and> cl_policy d = cl_policy c" if "shrink_claim R c = Some d" for R d
    using that by (auto simp: shrink_claim_def split: if_splits)
  have pol: "cl_policy c = dict_get (preemption_policies db) s LEGACY" using assms(3) by (simp add: abs_ledger_Some)
  show ?thesis
    using step_effect_of [OF assms(1,2)] pool shrunk assms(3)
    unfolding step_effect_def pol [symmetric]
    by (auto simp: release_claim_def subtract_claim_def record_claim_def numa_grant_def)
qed

lemma history_wf: "ledger_history db \<Longrightarrow> wf_ledger db"
  by (induction rule: ledger_history.induct) (auto simp: wf_empty clear_all_abs intro: step_keeps_wf)

end
