(* ===== verification/Ledger_Progress.thy ===== *)
theory Ledger_Progress
  imports Ledger_Ops
begin

text \<open>
  When the operations of the ledger succeed: on a well-formed ledger, with readable topology and
  the guards of the code satisfied, a count or a NUMA request that fits is granted.
\<close>

section \<open>Selectors\<close>

definition siblings_readable :: "host \<Rightarrow> int set \<Rightarrow> bool" where
  "siblings_readable h C \<longleftrightarrow>
     (\<forall>c \<in> C. \<exists>S. parse_cpu_ranges (read_file_strict h (thread_siblings_path c)) = Inr S)"

lemma siblings_subset: "siblings_readable h C \<Longrightarrow> D \<subseteq> C \<Longrightarrow> siblings_readable h D"
  by (auto simp: siblings_readable_def)

lemma mapE_total: "\<forall>x \<in> set xs. \<exists>y. f x = Inr y \<Longrightarrow> \<exists>ys. mapE f xs = Inr ys"
  by (induction xs) auto

lemma select_total:
  assumes "siblings_readable h C" "finite C"
  shows "\<exists>S. select_numa_cpus_smt_aware h C n = Inr S"
proof -
  have "\<exists>m. mapE (siblings_entry h C) (py_sorted C) = Inr m"
    by (rule mapE_total) (use assms in \<open>fastforce simp: siblings_readable_def siblings_entry_def Let_def\<close>)
  then show ?thesis
    by (auto simp: select_numa_cpus_smt_aware_def group_candidates_by_siblings_def get_thread_siblings_map_def)
qed

lemma stable_total:
  assumes "siblings_readable h C" "finite C"
  shows "\<exists>S. stable_with (select_numa_cpus_smt_aware h) own C n = Inr S"
proof -
  let ?k = "n - py_len (set (py_prefix n (py_sorted (own \<inter> C))))"
  have "siblings_readable h (C - own \<inter> C)" "finite (C - own \<inter> C)"
    using assms siblings_subset by auto
  then obtain more where "select_numa_cpus_smt_aware h (C - own \<inter> C) ?k = Inr more"
    using select_total by blast
  then show ?thesis by (simp add: stable_with_def Let_def)
qed

section \<open>Recording a claim\<close>

lemma allocate_cores_total:
  assumes wf: "wf_ledger db" and "ensure_service_pool db s pool = Inr ()"
    and "effective_policy db s requested = Inr policy"
    and "parse_cpu_ranges cores = Inr S" and "\<forall>t. t \<noteq> s \<longrightarrow> S \<inter> owned_by db t = {}"
  shows "\<exists>db'. allocate_cores s cores requested pool db = Inr db'"
proof -
  obtain db1 where "remove_service_allocation s db = Inr (owned_by db s, db1)"
    using remove_service_allocation_abs [OF wf, of s] by blast
  moreover have "S \<inter> (allocated_cpus db - owned_by db s) = {}" using assms(5) others_disjoint [OF wf] by blast
  ultimately show ?thesis
    using assms(2-4) wf by (simp add: allocate_cores_def Let_def del: validate_guards)
qed

lemma foreign_disjoint: "S \<subseteq> E - foreign_claims db s \<Longrightarrow> t \<noteq> s \<Longrightarrow> S \<inter> owned_by db t = {}"
  using foreign_claims_iff [of _ db s] by blast

lemma count_selection_total:
  assumes C: "cpu_ids C" and n: "0 < n" "n \<le> py_len C" and sib: "policy = NON_PREEMPTIVE \<Longrightarrow> siblings_readable h C"
  obtains texts S where "count_selection h policy own C n = Inr (texts, S, n)" "validate_selection S C n = Inr ()"
proof -
  have fin: "finite C" and ne: "C \<noteq> {}" using C n by (auto simp: py_len_def)
  have k: "pinned_count (py_len C) n = n" using n by (simp add: pinned_count_def)
  let ?ded = "to_ranges (take (nat n) (py_sorted C))"
  have calc: "calculate_cpu_pinning (set_ranges C) n = Inr (to_ranges (drop (nat n) (py_sorted C)), ?ded)"
    using n unfolding calculate_on_set [OF C ne] Let_def k by simp
  have some: "?ded \<noteq> []" using n ne fin by simp
  obtain S0 where S0: "?ded = set_ranges S0" "S0 \<subseteq> C" "py_len S0 = n"
    using pinned_exact [OF C ne calc some] n by (auto simp: count_target_def)
  have p0: "parse_cpu_ranges ?ded = Inr S0"
    using ranges.dec_enc [OF cpu_ids_subset [OF C S0(2)]] S0(1) by simp
  show thesis
  proof (cases "policy = NON_PREEMPTIVE")
    case True
    obtain T where T: "stable_with (select_numa_cpus_smt_aware h) own C n = Inr T"
      using stable_total [OF sib fin] True by blast
    then have "validate_selection T C n = Inr ()"
      using smt.stable_exact [OF fin _ n(2)] n(1) by (simp add: validate_selection_Inr)
    moreover have "count_selection h policy own C n = Inr ((set_ranges (C - T), set_ranges T), T, n)"
      using n calc some p0 True T by (simp add: count_selection_def not_less)
    ultimately show thesis using that by blast
  next
    case False
    have "count_selection h policy own C n = Inr ((to_ranges (drop (nat n) (py_sorted C)), ?ded), S0, n)"
      using n calc some p0 False by (simp add: count_selection_def not_less)
    then show thesis using that S0 by (simp add: validate_selection_Inr)
  qed
qed

lemma allocate_count_total:
  assumes wf: "wf_ledger db" and E: "parse_cpu_ranges eligible = Inr E"
    and pool: "ensure_service_pool db s pool = Inr ()" and pol: "effective_policy db s requested = Inr policy"
    and own: "owned_by db s \<subseteq> E" and n: "0 < n" "n \<le> py_len (E - foreign_claims db s)"
    and chk: "\<And>S. S \<subseteq> E \<Longrightarrow> check S = Inr ()"
    and sib: "policy = NON_PREEMPTIVE \<Longrightarrow> siblings_readable h E"
  shows "\<exists>r db'. allocate_count h check s n eligible requested pool db = Inr (r, db')"
proof -
  let ?C = "E - foreign_claims db s"
  have C: "cpu_ids ?C" using parse_cpu_ranges_ids [OF E] by blast
  obtain texts S where sel: "count_selection h policy (owned_by db s) ?C n = Inr (texts, S, n)"
    and val: "validate_selection S ?C n = Inr ()"
  proof (rule count_selection_total [OF C n])
    show "siblings_readable h ?C" if "policy = NON_PREEMPTIVE" using siblings_subset [OF sib [OF that]] by blast
  qed
  note exact = count_selection_exact [OF C sel val]
  have "effective_policy db s (Some policy) = Inr policy" using pol by (auto simp: effective_policy_Inr)
  then obtain db' where "allocate_cores s (snd texts) (Some policy) pool db = Inr db'"
    using allocate_cores_total [OF wf pool _ exact(7)] foreign_disjoint [OF exact(2)] by blast
  moreover have "check_offline_claims db s E = Inr ()" using own wf by (simp add: check_offline_claims_def)
  moreover have "check S = Inr ()" using chk exact(2) by blast
  ultimately show ?thesis
    unfolding allocate_count_selects [OF wf E] using pool pol sel val by (simp del: validate_guards)
qed

section \<open>NUMA grants\<close>

lemma node_cpus_total:
  assumes "get_numa_node_cpus h = Inr nodes" "parse_cpu_ranges r = Inr E"
  shows "get_cpus_in_numa_node h node r = Inr (numa_node_set h node \<inter> E)"
  using assms by (simp add: get_cpus_in_numa_node_def numa_node_set_def)

lemma subtract_total:
  assumes wf: "wf_ledger db"
    and "owned_by db t \<inter> R \<noteq> {} \<Longrightarrow> check_requester db t R rq rp pool = Inr ()"
  shows "\<exists>db'. subtract_cpus_from_service t R rq rp pool db = Inr db'"
  using assms(2) wf_lookup [OF wf, of t]
  by (cases "map_of (allocations db) t"; cases "map_of (explicit_allocations db) t")
    (auto simp: subtract_cpus_from_service_def Let_def)

text \<open>The guard of a foreign reclamation only looks at the two claims involved.\<close>

definition may_ask :: "ledger \<Rightarrow> string \<Rightarrow> preemption_policy \<Rightarrow> cpu_pool_name \<Rightarrow> bool" where
  "may_ask L s policy pool \<longleftrightarrow>
     (\<forall>c. L s = Some c \<longrightarrow> cl_pool c = pool \<and> cl_policy c \<le> policy)"

lemma may_ask_iff:
  assumes "wf_ledger db"
  shows "may_ask (abs_ledger db) s policy pool \<longleftrightarrow>
    ensure_service_pool db s pool = Inr () \<and> effective_policy db s (Some policy) = Inr policy"
proof (cases "dict_has (allocations db) s")
  case True
  then show ?thesis
    by (cases policy; cases "dict_get (preemption_policies db) s LEGACY")
      (simp_all add: may_ask_def abs_ledger_def effective_policy_Inr less_eq_preemption_policy_def)
next
  case False
  then show ?thesis using unowned_absent(3) [OF wf_ledgerD(1) [OF assms] False]
    by (simp add: may_ask_def abs_ledger_def effective_policy_Inr)
qed

lemma reclaimable_abs:
  assumes "abs_ledger db t = abs_ledger db' t" "dict_has (allocations db) t"
  shows "reclaimable db t R policy pool \<longleftrightarrow> reclaimable db' t R policy pool"
proof -
  have "dict_has (allocations db') t" using assms by (metis abs_ledger_def option.distinct(1))
  then show ?thesis using assms by (simp add: abs_ledger_def reclaimable_def)
qed

lemma subtract_fold_total:
  assumes "wf_ledger db1" "may_ask (abs_ledger db1) s policy pool" "distinct (List.map fst ovs)"
    and "\<And>t R. (t, R) \<in> set ovs \<Longrightarrow> t \<noteq> s \<and> dict_has (allocations db1) t \<and>
      (R \<noteq> {} \<longrightarrow> reclaimable db1 t R policy pool)"
  shows "\<exists>db2. foldE (\<lambda>(owner, overlap).
    subtract_cpus_from_service owner overlap (Some s) (Some policy) pool) ovs db1 = Inr db2"
  using assms
proof (induction ovs arbitrary: db1)
  case (Cons ov ovs)
  obtain t R where ov: "ov = (t, R)" by (cases ov)
  have t: "t \<noteq> s" "dict_has (allocations db1) t" "R \<noteq> {} \<Longrightarrow> reclaimable db1 t R policy pool"
    using Cons.prems(4) [of t R] ov by simp_all
  have ask: "ensure_service_pool db1 s pool = Inr ()" "effective_policy db1 s (Some policy) = Inr policy"
    using Cons.prems(2) may_ask_iff [OF Cons.prems(1)] by blast+
  have "check_requester db1 t R (Some s) (Some policy) pool = Inr ()" if "owned_by db1 t \<inter> R \<noteq> {}"
    using that t ask validate_reclamation_iff [OF Cons.prems(1)]
    by (auto simp: check_requester_def simp del: validate_guards)
  then obtain db' where sub: "subtract_cpus_from_service t R (Some s) (Some policy) pool db1 = Inr db'"
    using subtract_total [OF Cons.prems(1)] by blast
  note abs = subtract_abs [OF Cons.prems(1) sub]
  have same: "abs_ledger db' u = abs_ledger db1 u" if "u \<noteq> t" for u
    using abs(2) that by (simp add: subtract_claim_def)
  have "\<exists>db2. foldE (\<lambda>(owner, overlap).
      subtract_cpus_from_service owner overlap (Some s) (Some policy) pool) ovs db' = Inr db2"
  proof (rule Cons.IH [OF abs(1)])
    show "may_ask (abs_ledger db') s policy pool"
      using Cons.prems(2) same [of s] t(1) by (simp add: may_ask_def)
    show "distinct (List.map fst ovs)" using Cons.prems(3) by simp
    fix u U assume u: "(u, U) \<in> set ovs"
    then have ne: "u \<noteq> t" using Cons.prems(3) ov by force
    have p: "u \<noteq> s" "dict_has (allocations db1) u" "U \<noteq> {} \<longrightarrow> reclaimable db1 u U policy pool"
      using Cons.prems(4) [of u U] u by simp_all
    have "dict_has (allocations db') u" using same [OF ne] p(2) by (metis abs_ledger_def option.distinct(1))
    then show "u \<noteq> s \<and> dict_has (allocations db') u \<and> (U \<noteq> {} \<longrightarrow> reclaimable db' u U policy pool)"
      using p reclaimable_abs [OF same [OF ne, symmetric] p(2)] by blast
  qed
  then show ?case using sub ov by simp
qed simp

lemma may_ask_shrunk: "may_ask L s policy pool \<Longrightarrow> may_ask (subtract_claim s R L) s policy pool"
  by (auto simp: may_ask_def subtract_claim_def bind_eq_Some_conv shrink_claim_def split: if_splits)

lemma apply_numa_total:
  assumes wf: "wf_ledger db" and el: "cpu_ids eligible"
    and pool: "ensure_service_pool db s pool = Inr ()" and pol: "effective_policy db s requested = Inr policy"
    and nodes: "get_numa_node_cpus h = Inr nodes" and new: "new \<subseteq> numa_node_set h node \<inter> eligible"
    and own: "owned_by db s \<subseteq> eligible" and chk: "check new = Inr ()"
    and recl: "\<And>t. t \<noteq> s \<Longrightarrow> owned_by db t \<inter> new \<noteq> {} \<Longrightarrow> reclaimable db t (owned_by db t \<inter> new) policy pool"
  shows "\<exists>db'. apply_numa_explicit_allocation h check s node new requested pool eligible db = Inr db'"
proof -
  let ?ovs = "List.map (\<lambda>owner. (owner, owned_by db owner \<inter> new))
      (List.filter (\<lambda>owner. owner \<noteq> s) (dict_keys (allocations db)))"
  let ?in = "numa_node_set h node \<inter> owned_by db s"
  have ovs: "foreign_overlaps db s new = Inr ?ovs"
    unfolding foreign_overlaps_def by (rule mapE_Inr) (simp add: wf)
  have ov: "t \<noteq> s \<and> dict_has (allocations db) t \<and> (R \<noteq> {} \<longrightarrow> reclaimable db t R policy pool)"
    if "(t, R) \<in> set ?ovs" for t R
    using that recl by (auto simp: dict_has_iff_keys)
  have val: "foldE (\<lambda>(owner, overlap) _. if overlap \<noteq> {} then validate_reclamation db owner overlap policy pool
      else Inr ()) xs () = Inr ()" if "set xs \<subseteq> set ?ovs" for xs
    using that
  proof (induction xs)
    case (Cons x xs)
    obtain t R where x: "x = (t, R)" by (cases x)
    then have "R \<noteq> {} \<longrightarrow> validate_reclamation db t R policy pool = Inr ()"
      using ov [of t R] Cons.prems by (simp add: validate_reclamation_iff [OF wf])
    then show ?case using Cons x by simp
  qed simp
  have elig: "get_cpus_in_numa_node h node (set_ranges eligible) = Inr (numa_node_set h node \<inter> eligible)"
    by (rule node_cpus_total [OF nodes ranges.dec_enc [OF el]])
  have in_node: "get_cpus_in_numa_node h node (set_ranges (owned_by db s)) = Inr ?in"
    by (rule node_cpus_total [OF nodes ranges.dec_enc [OF ranges.claim_of_ids]])
  have off: "check_offline_claims db s eligible = Inr ()" using own wf by (simp add: check_offline_claims_def)
  obtain db1 where sub: "subtract_cpus_from_service s ?in None None ISOLATED db = Inr db1"
    using subtract_total [OF wf, of s ?in None None ISOLATED] by (auto simp: check_requester_def)
  note abs = subtract_abs [OF wf sub]
  have same: "abs_ledger db1 t = abs_ledger db t" if "t \<noteq> s" for t
    using abs(2) that by (simp add: subtract_claim_def)
  have "effective_policy db s (Some policy) = Inr policy" using pol by (auto simp: effective_policy_Inr)
  then have ask: "may_ask (abs_ledger db1) s policy pool"
    using may_ask_iff [OF wf] pool may_ask_shrunk unfolding abs(2) by blast
  obtain db2 where "foldE (\<lambda>(owner, overlap).
      subtract_cpus_from_service owner overlap (Some s) (Some policy) pool) ?ovs db1 = Inr db2"
  proof (rule exE [OF subtract_fold_total [OF abs(1) ask]])
    show "distinct (List.map fst ?ovs)" by (rule foreign_overlaps_wf(2) [OF wf ovs])
    fix t R assume "(t, R) \<in> set ?ovs"
    note o = ov [OF this]
    then have "dict_has (allocations db1) t" using same [of t] by (metis abs_ledger_def option.distinct(1))
    then show "t \<noteq> s \<and> dict_has (allocations db1) t \<and> (R \<noteq> {} \<longrightarrow> reclaimable db1 t R policy pool)"
      using o reclaimable_abs [of db t db1 R policy pool] same [of t] by simp
  qed blast
  then show ?thesis
    unfolding apply_numa_explicit_allocation_def Let_def
    using pool pol elig new off ovs val [of ?ovs] wf in_node chk sub
    by (simp del: validate_guards)
qed

lemma allocate_numa_intro:
  assumes wf: "wf_ledger db" and el: "cpu_ids eligible" and n: "0 < n"
    and pol: "effective_policy db s requested = Inr policy" and pool: "ensure_service_pool db s pool = Inr ()"
    and nodes: "get_numa_node_cpus h = Inr nodes" and own: "owned_by db s \<subseteq> eligible"
    and sel: "numa_selection h policy (owned_by db s) (numa_candidates h db s node eligible policy pool) n = Inr S"
    and val: "validate_selection S (numa_candidates h db s node eligible policy pool) n = Inr ()"
    and ap: "apply_numa_explicit_allocation h check s node S (Some policy) pool eligible db = Inr db'"
  shows "allocate_numa_cores h check s node n requested pool eligible db = Inr ((set_ranges S, []), db')"
proof -
  let ?C = "numa_candidates h db s node eligible policy pool"
  have pol': "effective_policy db s (Some policy) = Inr policy" using pol by (auto simp: effective_policy_Inr)
  have "\<exists>rej. get_allocatable_numa_cpus h db s node eligible (Some policy) pool = Inr (?C, rej)"
    using node_cpus_total [OF nodes ranges.dec_enc [OF el]]
    by (simp add: get_allocatable_numa_cpus_def pol' owner_unavailable_fold [OF wf] numa_candidates_def
        del: list.set_map)
  then obtain rej where cand: "get_allocatable_numa_cpus h db s node eligible (Some policy) pool = Inr (?C, rej)" ..
  have "?C \<subseteq> eligible" by (auto simp: numa_candidates_def)
  then have "finite ?C" using el cpu_ids_finite finite_subset by blast
  then have "n \<le> py_len ?C" using val py_len_mono by (auto simp: validate_selection_Inr)
  moreover have "check_offline_claims db s eligible = Inr ()" using own wf by (simp add: check_offline_claims_def)
  ultimately show ?thesis
    using n pool pol cand sel val ap wf
    unfolding allocate_numa_cores_def numa_selection_def by (auto simp: select_stable_def simp del: validate_guards)
qed

lemma numa_selection_total:
  assumes "siblings_readable h C" "finite C" "0 < n" "n \<le> py_len C"
  obtains S where "numa_selection h policy own C n = Inr S" "S \<subseteq> C" "py_len S = n"
proof (cases "policy = NON_PREEMPTIVE")
  case True
  obtain S where "stable_with (select_numa_cpus_smt_aware h) own C n = Inr S"
    using stable_total [OF assms(1,2)] by blast
  then show thesis
    using that True smt.stable_exact [OF assms(2) _ assms(4)] assms(3) by (simp add: numa_selection_def)
next
  case False
  then show thesis
    using that select_total [OF assms(1,2)] smt_exact [OF assms(2) _ assms(4)] assms(3)
    by (fastforce simp: numa_selection_def)
qed

lemma allocate_numa_total:
  assumes wf: "wf_ledger db" and el: "cpu_ids eligible" and n: "0 < n"
    and pool: "ensure_service_pool db s pool = Inr ()" and pol: "effective_policy db s requested = Inr policy"
    and nodes: "get_numa_node_cpus h = Inr nodes" and own: "owned_by db s \<subseteq> eligible"
    and sib: "siblings_readable h eligible" and chk: "\<And>S. S \<subseteq> eligible \<Longrightarrow> check S = Inr ()"
    and fits: "n \<le> py_len (numa_candidates h db s node eligible policy pool)"
  shows "\<exists>S db'. allocate_numa_cores h check s node n requested pool eligible db = Inr ((set_ranges S, []), db')
    \<and> py_len S = n"
proof -
  let ?C = "numa_candidates h db s node eligible policy pool"
  have C: "?C \<subseteq> eligible" by (auto simp: numa_candidates_def)
  then have fin: "finite ?C" using el cpu_ids_finite finite_subset by blast
  have pol': "effective_policy db s (Some policy) = Inr policy" using pol by (auto simp: effective_policy_Inr)
  have sibC: "siblings_readable h ?C" by (rule siblings_subset [OF sib C])
  obtain S where sel: "numa_selection h policy (owned_by db s) ?C n = Inr S" and S: "S \<subseteq> ?C" "py_len S = n"
    by (rule numa_selection_total [OF sibC fin n fits])
  have val: "validate_selection S ?C n = Inr ()" using S by (simp add: validate_selection_Inr)
  have recl: "reclaimable db t (owned_by db t \<inter> S) policy pool" if t: "t \<noteq> s" "owned_by db t \<inter> S \<noteq> {}" for t
  proof -
    have "dict_has (allocations db) t" using t(2) claim_of_absent by blast
    then have "S \<inter> unavailable_to db policy pool t = {}"
      using S(1) t(1) by (auto simp: numa_candidates_def dict_has_iff_keys)
    then show ?thesis using t(2) by (auto simp: unavailable_to_def reclaimable_def split: if_splits)
  qed
  have "\<exists>db'. apply_numa_explicit_allocation h check s node S (Some policy) pool eligible db = Inr db'"
  proof (rule apply_numa_total [OF wf el pool pol' nodes _ own])
    show "S \<subseteq> numa_node_set h node \<inter> eligible" using S(1) by (auto simp: numa_candidates_def)
    show "check S = Inr ()" using S(1) C chk by blast
  qed (rule recl)
  then obtain db' where "apply_numa_explicit_allocation h check s node S (Some policy) pool eligible db = Inr db'" ..
  from allocate_numa_intro [OF wf el n pol pool nodes own sel val this] show ?thesis using S(2) by blast
qed

end
