(* ===== verification/Value_Errors.thy ===== *)
theory Value_Errors
  imports Daemon_System
begin

text \<open>
  Which exceptions the operations raise: every refusal of the ledger, of the pools and of the
  parsers is a \<open>ValueError\<close>, so the only corruption errors are those of reading the state file.
\<close>

section \<open>Composing\<close>

definition value_errors :: "'a result \<Rightarrow> bool" where
  "value_errors r \<longleftrightarrow> (\<forall>e. r = Inl e \<longrightarrow> is_value_error e)"

named_theorems refusals \<open>operations that raise only ValueError\<close>

lemma value_errorsD: "value_errors r \<Longrightarrow> r = Inl e \<Longrightarrow> is_value_error e"
  by (simp add: value_errors_def)

lemma value_errors_return [refusals]: "value_errors (Inr x)"
  and value_errors_raise [refusals]: "value_errors (Inl (ValueError m))"
  by (simp_all add: value_errors_def)

lemma value_errors_bind [refusals]:
  "value_errors r \<Longrightarrow> (\<And>x. r = Inr x \<Longrightarrow> value_errors (f x)) \<Longrightarrow> value_errors (bindE r f)"
  by (auto simp: value_errors_def bindE_eq_Inl)

lemma value_errors_raise_if [refusals]:
  "value_errors r \<Longrightarrow> value_errors (raise_if b (ValueError m) r)"
  by (simp add: value_errors_def raise_if_def)

lemma value_errors_if [refusals]:
  "(b \<Longrightarrow> value_errors r) \<Longrightarrow> (\<not> b \<Longrightarrow> value_errors q) \<Longrightarrow> value_errors (if b then r else q)"
  by simp

lemma value_errors_option [refusals]:
  "value_errors r \<Longrightarrow> (\<And>x. value_errors (f x)) \<Longrightarrow> value_errors (case y of None \<Rightarrow> r | Some x \<Rightarrow> f x)"
  by (cases y) auto

lemma value_errors_prod [refusals]:
  "(\<And>a b. value_errors (f a b)) \<Longrightarrow> value_errors (case p of (a, b) \<Rightarrow> f a b)"
  by (cases p) auto

lemma value_errors_prod_fun [refusals]:
  "(\<And>a b. value_errors (f a b x)) \<Longrightarrow> value_errors ((case p of (a, b) \<Rightarrow> f a b) x)"
  by (cases p) auto

lemma value_errors_mapE [refusals]: "(\<And>x. value_errors (f x)) \<Longrightarrow> value_errors (mapE f xs)"
  by (induction xs) (auto intro!: refusals)

lemma value_errors_foldE [refusals]: "(\<And>x s. value_errors (f x s)) \<Longrightarrow> value_errors (foldE f xs s)"
  by (induction xs arbitrary: s) (auto intro!: refusals)

section \<open>Parsing and topology\<close>

lemma int_refusals [refusals]: "value_errors (py_int s)"
  unfolding py_int_def by (intro refusals)

lemma unpack_refusals [refusals]: "value_errors (unpack_two_ints parts)"
  by (induction parts rule: unpack_two_ints.induct) (auto intro!: refusals)

lemma parse_part_refusals [refusals]: "value_errors (parse_part p)"
  unfolding parse_part_def by (intro refusals)

lemma parse_parts_refusals [refusals]: "value_errors (parse_parts ps S)"
  by (induction ps arbitrary: S) (auto intro!: refusals simp: Let_def)

lemma range_refusals [refusals]:
  "value_errors (parse_cpu_ranges t)" "value_errors (count_cpus_in_ranges t)"
  unfolding parse_cpu_ranges_def count_cpus_in_ranges_def by (intro refusals)+

lemma pin_refusals [refusals]: "value_errors (pin_parts ps S)"
  by (induction ps arbitrary: S) (auto intro!: refusals simp: pin_part_def)

lemma topology_refusals [refusals]:
  "value_errors (get_numa_node_cpus h)" "value_errors (get_cpus_in_numa_node h n t)"
  "value_errors (get_thread_siblings_map h S)" "value_errors (calculate_cpu_pinning t n)"
  unfolding get_numa_node_cpus_def get_cpus_in_numa_node_def get_thread_siblings_map_def
    calculate_cpu_pinning_def add_node_cpus_def siblings_entry_def Let_def
  by (intro refusals)+

lemma cpu_list_refusals [refusals]:
  "value_errors (parse_cpu_list t P b)" "value_errors (read_cpu_list h path)"
proof -
  have one: "value_errors (parse_component P c)" for P c
    unfolding parse_component_def Let_def by (intro refusals)
  have "value_errors (parse_components P cs S)" for P cs S
    by (induction cs arbitrary: S) (auto intro!: refusals one)
  then have list: "value_errors (parse_cpu_list t P b)" for t P b
    unfolding parse_cpu_list_def by (auto intro: refusals)
  show "value_errors (parse_cpu_list t P b)" "value_errors (read_cpu_list h path)"
    unfolding read_cpu_list_def by (intro refusals list)+
qed

section \<open>Pools\<close>

lemma snapshot_refusals [refusals]: "value_errors (pool_snapshot h provider allow)"
  using value_errorsD [OF cpu_list_refusals(2), of h online_cpus_path]
  unfolding pool_snapshot_def
  by (cases "read_cpu_list h online_cpus_path") (auto simp: value_errors_def)

lemma pool_refusals [refusals]:
  "value_errors (validate_claims provider claimed)" "value_errors (check_online h S)"
  "value_errors (select_pool pools pool)"
  unfolding validate_claims_def check_online_def select_pool_def Let_def by (intro refusals)+

section \<open>The ledger\<close>

lemma guard_refusals [refusals]:
  "value_errors (effective_policy db s p)" "value_errors (ensure_service_pool db s pool)"
  unfolding effective_policy_def ensure_service_pool_def Let_def by (intro refusals)+

lemma read_refusals [refusals]:
  "value_errors (get_service_allocation_set db s)" "value_errors (get_service_explicit_set db s)"
  "value_errors (get_available_cpus db t)" "value_errors (get_available_cpus_for_service db s t)"
  "value_errors (get_claimed_cpus db pool)" "value_errors (get_system_stats db t)"
  "value_errors (get_all_allocations db p)"
  unfolding get_service_allocation_set_def get_service_explicit_set_def get_available_cpus_def
    get_available_cpus_for_service_def get_claimed_cpus_def get_system_stats_def get_all_allocations_def
    snap_allocation_of_def Let_def
  by (intro refusals)+

lemma selection_refusals [refusals]:
  "value_errors (select_numa_cpus_smt_aware h C n)" "value_errors (validate_selection S C n)"
  "value_errors (select_stable h db s C n)"
  unfolding select_numa_cpus_smt_aware_def group_candidates_by_siblings_def validate_selection_def
    select_stable_def stable_with_def Let_def
  by (intro refusals)+

lemma change_refusals [refusals]:
  "value_errors (remove_service_allocation s db)" "value_errors (allocate_cores s t p pool db)"
  "value_errors (validate_reclamation db o' S q pool)" "value_errors (remove_allocation s pool db)"
  unfolding remove_service_allocation_def allocate_cores_def validate_reclamation_def remove_allocation_def Let_def
  by (intro refusals)+

lemma subtract_refusals [refusals]: "value_errors (subtract_cpus_from_service s S r p pool db)"
  unfolding subtract_cpus_from_service_def check_requester_def Let_def by (intro refusals)

lemma offline_refusals [refusals]: "value_errors (check_offline_claims db s E)"
  unfolding check_offline_claims_def by (intro refusals)

lemma count_refusals [refusals]: "value_errors (allocate_count h (check_online h') s n t p pool db)"
  unfolding allocate_count_def Let_def by (intro refusals)

lemma apply_numa_refusals [refusals]:
  "value_errors (apply_numa_explicit_allocation h (check_online h') s node S p pool E db)"
  unfolding apply_numa_explicit_allocation_def foreign_overlaps_def Let_def by (intro refusals)

lemma numa_refusals [refusals]:
  "value_errors (allocate_numa_cores h (check_online h') s node n p pool E db)"
  unfolding allocate_numa_cores_def get_allocatable_numa_cpus_def owner_unavailable_def Let_def
  by (intro refusals)

section \<open>The handlers' operations\<close>

lemma cores_in_refusals [refusals]: "value_errors (allocate_cores_in env cr provider snap db)"
  unfolding allocate_cores_in_def Let_def by (intro refusals)

lemma handler_refusals [refusals]:
  "value_errors (with_snapshot env provider allow (allocate_cores_in env cr provider) db)"
  "value_errors (with_snapshot env provider allow (allocate_percent_in env pr provider) db)"
  "value_errors (with_snapshot env provider allow (allocate_numa_in env nr provider) db)"
  "value_errors (list_response lr snap entries)"
  unfolding with_snapshot_def allocate_percent_in_def allocate_numa_in_def list_response_def Let_def
  by (intro refusals)+

end
