(* ===== verification/Load_Checks.thy ===== *)
theory Load_Checks
  imports Value_Errors
begin

text \<open>
  Loading the ledger as a sequence of checks: what can be wrong with the stored policies and pools,
  told from the stored document alone, and that \<^const>\<open>load_snapshot\<close> finds exactly that.
\<close>

section \<open>What is wrong with a stored document\<close>

text \<open>What a stored mapping holds, and what is wrong with it, if anything, in the order of the checks:
  not a mapping, a value that is none of the known ones, a name that owns no CPUs.\<close>

definition stored_items :: "doc \<Rightarrow> string \<Rightarrow> (string, json) dict" where
  "stored_items data key = (case map_of data key of Some (JObj items) \<Rightarrow> items | _ \<Rightarrow> [])"

definition metadata_fault :: "doc \<Rightarrow> string \<Rightarrow> string list \<Rightarrow> string \<Rightarrow> string \<Rightarrow> string \<Rightarrow> py_error option" where
  "metadata_fault data key known bad_mapping bad_value unowned =
     (case map_of data key of
        None \<Rightarrow> None
      | Some (JObj items) \<Rightarrow>
          if \<exists>(name, v) \<in> set items. v \<notin> JStr ` set known then Some (StateCorruptionError bad_value)
          else if \<exists>(name, v) \<in> set items. name \<notin> fst ` set (stored_items data ''allocations'')
          then Some (StateCorruptionError unowned)
          else None
      | Some _ \<Rightarrow> Some (StateCorruptionError bad_mapping))"

definition policy_fault :: "doc \<Rightarrow> py_error option" where
  "policy_fault data = metadata_fault data ''preemption_policies'' [''legacy'', ''non-preemptive'']
     ''Invalid preemption_policies mapping'' ''Invalid stored preemption policy''
     ''Preemption policy without owned CPUs''"

definition pool_fault :: "doc \<Rightarrow> py_error option" where
  "pool_fault data = metadata_fault data ''allocation_pools'' [''isolated'', ''general'']
     ''Invalid allocation_pools mapping'' ''Invalid stored CPU pool'' ''CPU pool without owned CPUs''"

lemma known_members:
  "json_member policy_of_value v \<noteq> None \<longleftrightarrow> v \<in> JStr ` set [''legacy'', ''non-preemptive'']"
  "json_member pool_of_value v \<noteq> None \<longleftrightarrow> v \<in> JStr ` set [''isolated'', ''general'']"
  by (auto simp: json_member_def policy_of_value_def pool_of_value_def split: json.splits)

lemma member_value:
  "json_member policy_of_value v = Some p \<Longrightarrow> JStr (policy_value p) = v"
  "json_member pool_of_value v = Some q \<Longrightarrow> JStr (pool_value q) = v"
  by (auto simp: json_member_def policy_of_value_def pool_of_value_def split: json.splits if_splits)

lemma decode_members_cases:
  assumes "\<And>v. json_member f v \<noteq> None \<longleftrightarrow> v \<in> JStr ` set known"
    and "\<And>v x. json_member f v = Some x \<Longrightarrow> JStr (g x) = v"
  shows "if \<exists>(name, v) \<in> set items. v \<notin> JStr ` set known
    then decode_members f m items = Inl (StateCorruptionError m)
    else \<exists>d. decode_members f m items = Inr d \<and> text_items g d = items"
proof (induction items)
  case (Cons p items)
  obtain name v where p: "p = (name, v)" by (cases p)
  show ?case
  proof (cases "json_member f v")
    case None
    then have "v \<notin> JStr ` set known" using assms(1) [of v] by simp
    then show ?thesis using None by (auto simp: p decode_members_def)
  next
    case (Some x)
    then have "v \<in> JStr ` set known" "JStr (g x) = v" using assms(1) [of v] assms(2) by auto
    then show ?thesis using Some Cons by (auto simp: p decode_members_def text_items_def split: if_splits)
  qed
qed (simp add: decode_members_def text_items_def)

lemma string_items_stored:
  "string_items (map_of data k) = List.map (\<lambda>(name, v). (name, json_str v)) (stored_items data k)"
  by (simp add: string_items_def stored_items_def split: option.split json.split)

lemma unowned_items:
  assumes "text_items g d = items"
    and "allocations db = List.map (\<lambda>(name, v). (name, json_str v)) owners"
  shows "unowned_names d db \<longleftrightarrow> (\<exists>(name, v) \<in> set items. name \<notin> fst ` set owners)"
proof -
  have names: "fst ` set items = fst ` set d" by (auto simp: assms(1) [symmetric] text_items_def image_image case_prod_unfold)
  have "dict_has (allocations db) name \<longleftrightarrow> name \<in> fst ` set owners" for name
    by (simp add: dict_has_def assms(2) map_of_eq_None_iff image_image case_prod_unfold)
  then have "unowned_names d db \<longleftrightarrow> (\<exists>name \<in> fst ` set items. name \<notin> fst ` set owners)"
    by (simp add: unowned_names_def names)
  moreover have "(\<exists>name \<in> fst ` set items. name \<notin> fst ` set owners) \<longleftrightarrow>
      (\<exists>(name, v) \<in> set items. name \<notin> fst ` set owners)"
    by (simp add: case_prod_unfold)
  ultimately show ?thesis by simp
qed

section \<open>Finding it\<close>

text \<open>Loading as the two checks of the metadata followed by the reading of the range texts.\<close>

definition owner_fields :: "doc \<Rightarrow> adb \<Rightarrow> bool" where
  "owner_fields data db \<longleftrightarrow>
     allocations db = List.map (\<lambda>(name, v). (name, json_str v)) (stored_items data ''allocations'') \<and>
     explicit_allocations db =
       List.map (\<lambda>(name, v). (name, json_str v)) (stored_items data ''explicit_allocations'')"

lemma load_pool_metadata_fault:
  assumes "owner_fields data db"
  shows "case pool_fault data of
      Some e \<Rightarrow> \<exists>db'. load_pool_metadata data db = (Inl e, db')
    | None \<Rightarrow> \<exists>ps. load_pool_metadata data db = (Inr (), db\<lparr>allocation_pools := ps\<rparr>) \<and>
        text_items pool_value ps = stored_items data ''allocation_pools''"
proof (cases "map_of data ''allocation_pools''")
  case None
  then show ?thesis
    by (simp add: pool_fault_def metadata_fault_def load_pool_metadata_def dict_get_def decode_members_def
        unowned_names_def text_items_def stored_items_def exI [of _ "[]"])
next
  case (Some j)
  show ?thesis
  proof (cases j)
    case (JObj items)
    let ?bad = "\<exists>(name, v) \<in> set items. v \<notin> JStr ` set [''isolated'', ''general'']"
    let ?unowned = "\<exists>(name, v) \<in> set items. name \<notin> fst ` set (stored_items data ''allocations'')"
    have items: "map_of data ''allocation_pools'' = Some (JObj items)" using Some JObj by simp
    note decoded = decode_members_cases [where g = pool_value, OF known_members(2) member_value(2),
        where items = items and m = "''Invalid stored CPU pool''"]
    show ?thesis
    proof (cases ?bad)
      case True
      then show ?thesis using decoded items
        by (simp add: pool_fault_def metadata_fault_def load_pool_metadata_def dict_get_def)
    next
      case False
      then obtain d where d: "decode_members pool_of_value ''Invalid stored CPU pool'' items = Inr d"
        "text_items pool_value d = items" using decoded by auto
      have "unowned_names d (db\<lparr>allocation_pools := d\<rparr>) \<longleftrightarrow> ?unowned"
        using assms by (intro unowned_items [OF d(2)]) (simp add: owner_fields_def)
      then show ?thesis using False items d
        by (cases ?unowned) (auto simp: pool_fault_def metadata_fault_def load_pool_metadata_def dict_get_def
            Let_def stored_items_def [of _ "''allocation_pools''"])
    qed
  qed (use Some in \<open>simp_all add: pool_fault_def metadata_fault_def load_pool_metadata_def dict_get_def\<close>)
qed

lemma load_snapshot_fault:
  shows "case policy_fault data of
      Some e \<Rightarrow> \<exists>db. load_snapshot data mem = (Inl e, db)
    | None \<Rightarrow> \<exists>db1. owner_fields data db1 \<and>
        text_items policy_value (preemption_policies db1) = stored_items data ''preemption_policies'' \<and>
        load_snapshot data mem = (case load_pool_metadata data db1 of
          (Inl e, db2) \<Rightarrow> (Inl e, db2) | (Inr _, db2) \<Rightarrow> load_cpu_sets db2)"
proof -
  define fields where "fields = (\<lambda>ps. mem\<lparr>preemption_policies := ps,
      allocations := string_items (map_of data ''allocations''),
      explicit_allocations := string_items (map_of data ''explicit_allocations'')\<rparr>)"
  have own: "owner_fields data (fields ps)" for ps
    by (simp add: owner_fields_def fields_def string_items_stored)
  show ?thesis
  proof (cases "map_of data ''preemption_policies''")
    case None
    have "owner_fields data (fields []) \<and>
        text_items policy_value (preemption_policies (fields [])) = stored_items data ''preemption_policies'' \<and>
        load_snapshot data mem = (case load_pool_metadata data (fields []) of
          (Inl e, db2) \<Rightarrow> (Inl e, db2) | (Inr _, db2) \<Rightarrow> load_cpu_sets db2)"
      using own [of "[]"] None
      by (simp add: load_snapshot_def dict_get_def decode_members_def unowned_names_def text_items_def
          stored_items_def Let_def fields_def)
    moreover have "policy_fault data = None" using None by (simp add: policy_fault_def metadata_fault_def)
    ultimately show ?thesis unfolding option.case by (auto simp: option.case intro: exI [of _ "fields []"])
  next
    case (Some j)
    show ?thesis
    proof (cases j)
      case (JObj items)
      let ?bad = "\<exists>(name, v) \<in> set items. v \<notin> JStr ` set [''legacy'', ''non-preemptive'']"
      let ?unowned = "\<exists>(name, v) \<in> set items. name \<notin> fst ` set (stored_items data ''allocations'')"
      have items: "map_of data ''preemption_policies'' = Some (JObj items)" using Some JObj by simp
      note decoded = decode_members_cases [where g = policy_value, OF known_members(1) member_value(1),
          where items = items and m = "''Invalid stored preemption policy''"]
      show ?thesis
      proof (cases ?bad)
        case True
        then show ?thesis using decoded items
          by (simp add: policy_fault_def metadata_fault_def load_snapshot_def dict_get_def)
      next
        case False
        then obtain d where d: "decode_members policy_of_value ''Invalid stored preemption policy'' items = Inr d"
          "text_items policy_value d = items" using decoded by auto
        have u: "unowned_names d (fields d) \<longleftrightarrow> ?unowned"
          using own by (intro unowned_items [OF d(2)]) (simp add: owner_fields_def)
        have run: "load_snapshot data mem = (if ?unowned
            then (Inl (StateCorruptionError ''Preemption policy without owned CPUs''), fields d)
            else case load_pool_metadata data (fields d) of
              (Inl e, db2) \<Rightarrow> (Inl e, db2) | (Inr _, db2) \<Rightarrow> load_cpu_sets db2)"
          using items d(1) u by (simp add: load_snapshot_def dict_get_def Let_def fields_def)
        have fault: "policy_fault data =
            (if ?unowned then Some (StateCorruptionError ''Preemption policy without owned CPUs'') else None)"
          using items False by (simp add: policy_fault_def metadata_fault_def)
        show ?thesis
        proof (cases ?unowned)
          case True
          then show ?thesis using run fault by simp
        next
          case False
          have "text_items policy_value (preemption_policies (fields d)) = stored_items data ''preemption_policies''"
            using items d(2) by (simp add: fields_def stored_items_def)
          then show ?thesis using run fault own [of d] False by auto
        qed
      qed
    qed (use Some in \<open>simp_all add: policy_fault_def metadata_fault_def load_snapshot_def dict_get_def\<close>)
  qed
qed

lemma add_claims_Inl: "add_claims d S = (Inl e, T) \<Longrightarrow> \<exists>name cores. (name, cores) \<in> set d \<and> parse_cpu_ranges cores = Inl e"
  by (induction d arbitrary: S) (auto split: sum.splits, blast+)

lemma load_cpu_sets_cases:
  assumes "load_cpu_sets db = (r, db')"
  shows "preemption_policies db' = preemption_policies db" "allocation_pools db' = allocation_pools db"
    "allocations db' = allocations db" "explicit_allocations db' = explicit_allocations db"
    "case r of
       Inr u \<Rightarrow> readable parse_cpu_ranges (allocations db) \<and> readable parse_cpu_ranges (explicit_allocations db) \<and>
         allocated_cpus db' = claims_union parse_cpu_ranges (allocations db) \<and>
         explicitly_allocated_cpus db' = claims_union parse_cpu_ranges (explicit_allocations db)
     | Inl e \<Rightarrow> \<exists>name cores. (name, cores) \<in> set (allocations db) \<union> set (explicit_allocations db) \<and>
         parse_cpu_ranges cores = Inl e"
  using assms add_claims_Inr [of "allocations db" "{}"] add_claims_Inr [of "explicit_allocations db" "{}"]
    add_claims_Inl [of "allocations db" "{}"] add_claims_Inl [of "explicit_allocations db" "{}"]
  by (auto simp: load_cpu_sets_def split: prod.splits sum.splits, blast)

end
