(* ===== verification/Claims_Ledger.thy ===== *)
theory Claims_Ledger
  imports Example_Host Ledger_History Ledger_Progress Load_Checks
begin

text \<open>
  Properties of the CPU ledger: its invariant over every history, the protection of claims, what
  each operation grants, takes and refuses, and the persistence of the ledger as JSON.
\<close>

section \<open>Histories\<close>

text \<open>C2: After any sequence of successful requests and resets from an empty ledger, the ledger is
  well-formed: no CPU has two owners, explicit CPUs are owned, every owner has CPUs, and the
  set of allocated CPUs is exactly the union of the claims.\<close>

theorem ledger_history_sound:
  assumes "ledger_history db"
  shows "wf_ledger db \<and> (\<forall>s t. s \<noteq> t \<longrightarrow> owned_by db s \<inter> owned_by db t = {}) \<and>
    (\<forall>s. explicit_by db s \<subseteq> owned_by db s) \<and> allocated_cpus db = (\<Union>s. owned_by db s) \<and>
    (\<forall>s. dict_has (allocations db) s \<longrightarrow> owned_by db s \<noteq> {})"
proof -
  have wf: "wf_ledger db" using history_wf [OF assms] .
  have "allocated_cpus db = (\<Union>s. owned_by db s)"
    by (rule table_ok_union [OF repr_okD(1) [OF wf_ledgerD(1) [OF wf]]])
  then show ?thesis using wf wf_disjoint [OF wf] wf_explicit [OF wf] wf_owned_ne [OF wf] by blast
qed

definition all_online :: online_check where
  "all_online S = Inr ()"

text \<open>Service \<open>a\<close> asks for three CPUs, then \<open>b\<close> for two CPUs of node 0.\<close>

definition after_count :: adb where
  "after_count = \<lparr>preemption_policies = [(''a'', LEGACY)], allocation_pools = [(''a'', ISOLATED)],
     allocations = [(''a'', ''0-2'')], allocated_cpus = {0, 1, 2}, explicit_allocations = [],
     explicitly_allocated_cpus = {}\<rparr>"

definition after_numa :: adb where
  "after_numa = \<lparr>preemption_policies = [(''a'', LEGACY), (''b'', LEGACY)],
     allocation_pools = [(''a'', ISOLATED), (''b'', ISOLATED)],
     allocations = [(''a'', ''2''), (''b'', ''0-1'')], allocated_cpus = {0, 1, 2},
     explicit_allocations = [(''b'', ''0-1'')], explicitly_allocated_cpus = {0, 1}\<rparr>"

lemma run_count:
  "allocate_count example_host all_online ''a'' 3 ''0-7'' None ISOLATED empty_adb = Inr ((''3-7'', ''0-2''), after_count)"
  by code_simp

lemma run_numa:
  "allocate_numa_cores example_host all_online ''b'' 0 2 None ISOLATED {0, 1, 2, 3, 4, 5, 6, 7} after_count
   = Inr ((''0-1'', []), after_numa)"
  by code_simp

lemma eight_cpus: "cpu_ids {0, 1, 2, 3, 4, 5, 6, 7}"
  by (simp add: cpu_ids_def)

lemma step_count: "ledger_step ''a'' ISOLATED empty_adb after_count"
  by (rule ledger_step.Counted [OF run_count])

lemma step_numa: "ledger_step ''b'' ISOLATED after_count after_numa"
  by (rule ledger_step.Placed [OF eight_cpus run_numa])

theorem ledger_history_sound_witness:
  "wf_ledger after_numa \<and> owned_by after_numa ''a'' \<inter> owned_by after_numa ''b'' = {}
    \<and> allocated_cpus after_numa = (\<Union>s. owned_by after_numa s)"
proof -
  have "ledger_history after_numa"
    by (rule Served [OF Served [OF Empty step_count] step_numa])
  from ledger_history_sound [OF this] show ?thesis by simp
qed

section \<open>Protection\<close>

text \<open>C1: A request of one service never changes the claim of another service that is
  non-preemptive or in another pool; of any other claim it may take CPUs, but never an explicit
  one, and owner, policy and pool stay.\<close>

theorem foreign_claims_protected:
  assumes "wf_ledger db" "ledger_step s pool db db'" "t \<noteq> s" "abs_ledger db t = Some c"
  shows "(cl_policy c = NON_PREEMPTIVE \<or> cl_pool c \<noteq> pool \<longrightarrow> abs_ledger db' t = Some c) \<and>
    (cl_explicit c \<noteq> {} \<longrightarrow> (\<exists>c'. abs_ledger db' t = Some c' \<and> cl_explicit c' = cl_explicit c \<and>
       cl_owned c' \<subseteq> cl_owned c \<and> cl_policy c' = cl_policy c \<and> cl_pool c' = cl_pool c))"
proof (intro conjI impI)
  note other = step_others [OF assms]
  show "abs_ledger db' t = Some c" if "cl_policy c = NON_PREEMPTIVE \<or> cl_pool c \<noteq> pool"
    using other that by auto
  assume ne: "cl_explicit c \<noteq> {}"
  show "\<exists>c'. abs_ledger db' t = Some c' \<and> cl_explicit c' = cl_explicit c \<and>
       cl_owned c' \<subseteq> cl_owned c \<and> cl_policy c' = cl_policy c \<and> cl_pool c' = cl_pool c"
    using other
  proof (elim disjE conjE exE)
    fix R assume R: "R \<inter> cl_explicit c = {}" "abs_ledger db' t = shrink_claim R c"
    have "cl_explicit c \<subseteq> cl_owned c"
      using ledger_ok_claim [OF wf_ledgerD(2) [OF assms(1)] assms(4)] by (simp add: claim_ok_def)
    then have "cl_owned c - R \<noteq> {}" "cl_explicit c - R = cl_explicit c" using R(1) ne by blast+
    then show ?thesis using R(2) by (auto simp: shrink_claim_def)
  qed blast
qed

theorem foreign_claims_protected_witness:
  "wf_ledger example_ledger \<and> (\<exists>db'. ledger_step ''c'' ISOLATED example_ledger db' \<and>
     abs_ledger db' ''b'' = abs_ledger example_ledger ''b'' \<and> abs_ledger example_ledger ''b'' \<noteq> None)"
proof -
  obtain r db' where run: "allocate_numa_cores example_host all_online ''c'' 1 2 None ISOLATED
      {0, 1, 2, 3, 4, 5, 6, 7} example_ledger = Inr (r, db')"
  proof -
    have "(case allocate_numa_cores example_host all_online ''c'' 1 2 None ISOLATED
      {0, 1, 2, 3, 4, 5, 6, 7} example_ledger of Inl e \<Rightarrow> False | Inr x \<Rightarrow> True)" by code_simp
    then show thesis using that by (auto split: sum.splits)
  qed
  have step: "ledger_step ''c'' ISOLATED example_ledger db'"
    by (rule ledger_step.Placed [OF eight_cpus run])
  have has: "dict_has (allocations example_ledger) ''b''"
    "dict_get (preemption_policies example_ledger) ''b'' LEGACY = NON_PREEMPTIVE" by code_simp+
  then obtain c where c: "abs_ledger example_ledger ''b'' = Some c" "cl_policy c = NON_PREEMPTIVE"
    by (simp add: abs_ledger_def)
  have "''b'' \<noteq> ''c''" by simp
  from foreign_claims_protected [OF example_ledger_wf step this c(1)] c(2)
  have "abs_ledger db' ''b'' = Some c" by blast
  then show ?thesis using example_ledger_wf step c(1) by auto
qed

text \<open>C13: While a service owns CPUs, a request for it in another pool never succeeds, and no request of any
  service moves its claim to another pool or weakens its policy: its own requests keep the pool and
  at least the policy, and a request of another service, also one that reclaims CPUs from it, leaves
  what remains of the claim in the same pool under the same policy.\<close>

theorem ownership_is_sticky:
  assumes "wf_ledger db" "ledger_step t pool db db'" "abs_ledger db s = Some c"
  shows "(t = s \<longrightarrow> cl_pool c = pool) \<and>
    (\<forall>c'. abs_ledger db' s = Some c' \<longrightarrow> cl_pool c' = cl_pool c \<and> cl_policy c \<le> cl_policy c' \<and>
       (t \<noteq> s \<longrightarrow> cl_policy c' = cl_policy c \<and> cl_owned c' \<subseteq> cl_owned c))"
proof (cases "t = s")
  case True
  then show ?thesis using step_own [OF assms(1) _ assms(3)] assms(2) by auto
next
  case False
  then show ?thesis
    using step_others [OF assms(1,2) _ assms(3)] by (auto simp: shrink_claim_def split: if_splits)
qed

theorem ownership_is_sticky_witness:
  "\<exists>c c' db'. abs_ledger example_ledger ''a'' = Some c \<and> ledger_step ''c'' ISOLATED example_ledger db' \<and>
     abs_ledger db' ''a'' = Some c' \<and> cl_owned c' \<subset> cl_owned c \<and> cl_pool c' = cl_pool c \<and>
     cl_policy c' = cl_policy c"
proof -
  let ?run = "allocate_numa_cores example_host all_online ''c'' 0 1 None ISOLATED
      {0, 1, 2, 3, 4, 5, 6, 7} example_ledger"
  have "case ?run of Inl e \<Rightarrow> False | Inr (r, db') \<Rightarrow>
      dict_has (allocations db') ''a'' \<and> owned_by db' ''a'' \<noteq> owned_by example_ledger ''a''" by code_simp
  then obtain r db' where run: "?run = Inr (r, db')" "dict_has (allocations db') ''a''"
    "owned_by db' ''a'' \<noteq> owned_by example_ledger ''a''" by (auto split: sum.splits)
  have "dict_has (allocations example_ledger) ''a''" by code_simp
  then obtain c where c: "abs_ledger example_ledger ''a'' = Some c" "cl_owned c = owned_by example_ledger ''a''"
    by (simp add: abs_ledger_def)
  obtain c' where c': "abs_ledger db' ''a'' = Some c'" "cl_owned c' = owned_by db' ''a''"
    using run(2) by (simp add: abs_ledger_def)
  note step = ledger_step.Placed [OF eight_cpus run(1)]
  have "''c'' \<noteq> ''a''" by simp
  with ownership_is_sticky [OF example_ledger_wf step c(1)] c'(1)
  have "cl_pool c' = cl_pool c" "cl_policy c' = cl_policy c" "cl_owned c' \<subseteq> cl_owned c" by blast+
  then show ?thesis using c c' run(3) step by blast
qed

section \<open>Allocation by count\<close>

text \<open>C8: A successful count request grants exactly the number asked for (the heuristic's number when
  the request is not positive), all eligible, owned by nobody else and passed by the final online
  check. The two texts are the granted and the remaining free eligible CPUs. The ledger changes
  by the requester's new claim alone, with the effective policy and the requested pool; a
  non-preemptive service that does not shrink keeps every CPU it has.\<close>

theorem count_allocation_effect:
  assumes "wf_ledger db" "parse_cpu_ranges eligible = Inr E"
    and "allocate_count h check s n eligible requested pool db = Inr ((shared, dedicated), db')"
  shows "\<exists>S policy. dedicated = set_ranges S \<and> shared = set_ranges (E - foreign_claims db s - S) \<and>
    S \<subseteq> E - foreign_claims db s \<and> py_len S = count_target (E - foreign_claims db s) n \<and>
    check S = Inr () \<and> effective_policy db s requested = Inr policy \<and>
    (policy = NON_PREEMPTIVE \<and> py_len (owned_by db s) \<le> py_len S \<longrightarrow> owned_by db s \<subseteq> S) \<and>
    wf_ledger db' \<and> abs_ledger db' = record_claim s S {} policy pool (abs_ledger db)"
  by (rule allocate_count_abs [OF assms]) blast

theorem count_allocation_effect_witness:
  "\<exists>S policy. ''0-2'' = set_ranges S \<and> ''3-7'' = set_ranges ({0..7} - foreign_claims empty_adb ''a'' - S) \<and>
    py_len S = 3 \<and> abs_ledger after_count = record_claim ''a'' S {} policy ISOLATED (abs_ledger empty_adb)"
proof -
  have "parse_cpu_ranges ''0-7'' = Inr {0, 1, 2, 3, 4, 5, 6, 7}" by code_simp
  moreover have "{0..7} = {0, 1, 2, 3, 4, 5, 6, 7 :: int}" by auto
  ultimately have "parse_cpu_ranges ''0-7'' = Inr {0..7}" by simp
  from count_allocation_effect [OF wf_empty this run_count]
  show ?thesis by (auto simp: count_target_def)
qed

text \<open>C26: A count request that fits succeeds: on a well-formed ledger, in the service's own pool and
  without weakening its policy, with its claims inside the eligible CPUs, a positive number of at
  most the eligible CPUs nobody else owns, readable sibling topology and CPUs that stay online.\<close>

theorem count_allocation_succeeds:
  assumes "wf_ledger db" "parse_cpu_ranges eligible = Inr E"
    and "ensure_service_pool db s pool = Inr ()" "effective_policy db s requested = Inr policy"
    and "owned_by db s \<subseteq> E" "0 < n" "n \<le> py_len (E - foreign_claims db s)"
    and "\<And>S. S \<subseteq> E \<Longrightarrow> check S = Inr ()" "siblings_readable h E"
  shows "\<exists>r db'. allocate_count h check s n eligible requested pool db = Inr (r, db')"
  using assms by (intro allocate_count_total) auto

theorem count_allocation_succeeds_witness:
  "\<exists>r db'. allocate_count example_host all_online ''a'' 6 ''0-7'' (Some NON_PREEMPTIVE) ISOLATED example_ledger
     = Inr (r, db')"
proof (rule count_allocation_succeeds [OF example_ledger_wf])
  show "parse_cpu_ranges ''0-7'' = Inr {0, 1, 2, 3, 4, 5, 6, 7}" by code_simp
  show "ensure_service_pool example_ledger ''a'' ISOLATED = Inr ()" by code_simp
  show "effective_policy example_ledger ''a'' (Some NON_PREEMPTIVE) = Inr NON_PREEMPTIVE" by code_simp
  show "owned_by example_ledger ''a'' \<subseteq> {0, 1, 2, 3, 4, 5, 6, 7}" by code_simp
  show "(6 :: int) \<le> py_len ({0, 1, 2, 3, 4, 5, 6, 7} - foreign_claims example_ledger ''a'')" by code_simp
  show "siblings_readable example_host {0, 1, 2, 3, 4, 5, 6, 7}"
  proof -
    have "\<forall>c \<in> {0, 1, 2, 3, 4, 5, 6, 7}. (case parse_cpu_ranges
        (read_file_strict example_host (thread_siblings_path c)) of Inl e \<Rightarrow> False | Inr S \<Rightarrow> True)"
      by code_simp
    then show ?thesis unfolding siblings_readable_def by (auto split: sum.splits)
  qed
qed (simp_all add: all_online_def)

section \<open>Allocation from a NUMA node\<close>

text \<open>C6: A NUMA request for a positive number either returns no CPUs and leaves the ledger alone,
  because fewer candidates are left than asked for, or grants exactly that number of eligible CPUs
  of the node that no other service holds explicitly, non-preemptively or in another pool: the
  requester gives up its other CPUs of the node and owns the granted ones explicitly, and every
  other owner loses exactly the granted CPUs it had.\<close>

theorem numa_allocation_effect:
  assumes "wf_ledger db" "cpu_ids eligible" "0 < n"
    and "allocate_numa_cores h check s node n requested pool eligible db = Inr ((cores, rejected), db')"
  shows "\<exists>policy. effective_policy db s requested = Inr policy \<and>
    (cores = [] \<and> db' = db \<and> py_len (numa_candidates h db s node eligible policy pool) < n \<or>
     (\<exists>S. cores = set_ranges S \<and> S \<subseteq> numa_candidates h db s node eligible policy pool \<and> py_len S = n \<and>
        check S = Inr () \<and> wf_ledger db' \<and> abs_ledger db' =
          numa_grant s (numa_node_set h node \<inter> owned_by db s) S policy pool (abs_ledger db)))"
  by (rule allocate_numa_abs [OF assms]) blast+

theorem numa_allocation_effect_witness:
  "\<exists>S policy. ''0-1'' = set_ranges S \<and> py_len S = 2 \<and> abs_ledger after_numa =
     numa_grant ''b'' (numa_node_set example_host 0 \<inter> owned_by after_count ''b'') S policy ISOLATED (abs_ledger after_count)"
proof -
  have "wf_ledger after_count" by code_simp
  from numa_allocation_effect [OF this eight_cpus _ run_numa] show ?thesis by auto
qed

text \<open>C27: A NUMA request succeeds as soon as the node has enough candidates: then exactly the
  requested number of CPUs is granted.\<close>

theorem numa_allocation_succeeds:
  assumes "wf_ledger db" "cpu_ids eligible" "0 < n"
    and "ensure_service_pool db s pool = Inr ()" "effective_policy db s requested = Inr policy"
    and "get_numa_node_cpus h = Inr nodes" "owned_by db s \<subseteq> eligible" "siblings_readable h eligible"
    and "\<And>S. S \<subseteq> eligible \<Longrightarrow> check S = Inr ()"
    and "n \<le> py_len (numa_candidates h db s node eligible policy pool)"
  shows "\<exists>S db'. allocate_numa_cores h check s node n requested pool eligible db = Inr ((set_ranges S, []), db')
    \<and> py_len S = n"
  by (rule allocate_numa_total [OF assms])

theorem numa_allocation_succeeds_witness:
  "\<exists>S db'. allocate_numa_cores example_host all_online ''c'' 1 3 None ISOLATED {0, 1, 2, 3, 4, 5, 6, 7} example_ledger
     = Inr ((set_ranges S, []), db') \<and> py_len S = 3"
proof (rule numa_allocation_succeeds [OF example_ledger_wf eight_cpus])
  show "ensure_service_pool example_ledger ''c'' ISOLATED = Inr ()" by code_simp
  show "effective_policy example_ledger ''c'' None = Inr LEGACY" by code_simp
  show "get_numa_node_cpus example_host = Inr [(0, {0, 1, 2, 3}), (1, {4, 5, 6, 7})]" by code_simp
  show "owned_by example_ledger ''c'' \<subseteq> {0, 1, 2, 3, 4, 5, 6, 7}" by code_simp
  show "siblings_readable example_host {0, 1, 2, 3, 4, 5, 6, 7}"
  proof -
    have "\<forall>c \<in> {0, 1, 2, 3, 4, 5, 6, 7}. (case parse_cpu_ranges
        (read_file_strict example_host (thread_siblings_path c)) of Inl e \<Rightarrow> False | Inr S \<Rightarrow> True)"
      by code_simp
    then show ?thesis unfolding siblings_readable_def by (auto split: sum.splits)
  qed
  show "3 \<le> py_len (numa_candidates example_host example_ledger ''c'' 1 {0, 1, 2, 3, 4, 5, 6, 7} LEGACY ISOLATED)"
    by code_simp
qed (simp_all add: all_online_def)

section \<open>Release\<close>

text \<open>C28: A release in the service's pool always succeeds, reports whether the service owned CPUs and
  removes its claim with policy and pool; a NUMA release gives up exactly its CPUs of the node.
  Nobody else is affected by either.\<close>

theorem release_effect:
  assumes "wf_ledger db" "ensure_service_pool db s pool = Inr ()"
  shows "(\<exists>db'. remove_allocation s pool db = Inr (dict_has (allocations db) s, db') \<and> wf_ledger db' \<and>
      abs_ledger db' = release_claim s (abs_ledger db)) \<and>
    (\<forall>nodes. get_numa_node_cpus h = Inr nodes \<longrightarrow>
      (\<exists>db'. allocate_numa_cores h check s node (- 1) requested pool eligible db = Inr (([], []), db') \<and>
        wf_ledger db' \<and>
        abs_ledger db' = subtract_claim s (numa_node_set h node \<inter> owned_by db s) (abs_ledger db)))"
proof (intro conjI allI impI)
  obtain b db' where run: "remove_allocation s pool db = Inr (b, db')"
    using remove_allocation_total [OF assms] by blast
  then show "\<exists>db'. remove_allocation s pool db = Inr (dict_has (allocations db) s, db') \<and> wf_ledger db' \<and>
      abs_ledger db' = release_claim s (abs_ledger db)"
    using remove_allocation_Inr [OF assms(1) run] by blast
  fix nodes assume nodes: "get_numa_node_cpus h = Inr nodes"
  have "parse_cpu_ranges (dict_get (allocations db) s []) = Inr (owned_by db s)"
    using repr_readable(1) [OF wf_ledgerD(1) [OF assms(1)]] ranges.dec_dict_get by blast
  note in_node = node_cpus_total [OF nodes this, of node]
  obtain db1 where "subtract_cpus_from_service s (numa_node_set h node \<inter> owned_by db s) None None ISOLATED db = Inr db1"
    using subtract_total [OF assms(1), of s "numa_node_set h node \<inter> owned_by db s" None None ISOLATED]
    by (auto simp: check_requester_def)
  then have run: "allocate_numa_cores h check s node (- 1) requested pool eligible db = Inr (([], []), db1)"
    using in_node assms(2) by (simp add: allocate_numa_cores_def del: validate_guards)
  then show "\<exists>db'. allocate_numa_cores h check s node (- 1) requested pool eligible db = Inr (([], []), db') \<and>
        wf_ledger db' \<and> abs_ledger db' = subtract_claim s (numa_node_set h node \<inter> owned_by db s) (abs_ledger db)"
    using numa_release_abs(2,3) [OF assms(1) run] by blast
qed

theorem release_effect_witness:
  "\<exists>db'. remove_allocation ''b'' ISOLATED example_ledger = Inr (True, db') \<and>
     abs_ledger db' = release_claim ''b'' (abs_ledger example_ledger)"
proof -
  have "ensure_service_pool example_ledger ''b'' ISOLATED = Inr ()" by code_simp
  moreover have "dict_has (allocations example_ledger) ''b''" by code_simp
  ultimately show ?thesis using release_effect [OF example_ledger_wf] by fastforce
qed

section \<open>Reclaiming\<close>

text \<open>C12: Taking CPUs from another owner succeeds exactly when the requester asks in its own pool with a
  policy it may have and every guard of the reclamation holds; it then removes exactly these CPUs
  from the owner, who disappears with policy and pool when nothing is left.\<close>

theorem reclaim_refines:
  assumes "wf_ledger db" "s \<noteq> t" "owned_by db t \<inter> R \<noteq> {}"
  shows "(\<exists>db'. subtract_cpus_from_service t R (Some s) requested pool db = Inr db') =
      (ensure_service_pool db s pool = Inr () \<and>
       (\<exists>policy. effective_policy db s requested = Inr policy \<and> reclaimable db t R policy pool)) \<and>
    (\<forall>db'. subtract_cpus_from_service t R (Some s) requested pool db = Inr db' \<longrightarrow>
       wf_ledger db' \<and> abs_ledger db' = subtract_claim t R (abs_ledger db))"
proof (intro conjI allI impI)
  have guard: "check_requester db t R (Some s) requested pool = Inr () \<longleftrightarrow>
      ensure_service_pool db s pool = Inr () \<and>
      (\<exists>policy. effective_policy db s requested = Inr policy \<and> reclaimable db t R policy pool)"
    using assms(2) by (auto simp: check_requester_def bindE_eq_Inr validate_reclamation_iff [OF assms(1)]
        simp del: validate_guards)
  have "check_requester db t R (Some s) requested pool = Inr ()"
    if "subtract_cpus_from_service t R (Some s) requested pool db = Inr db'" for db'
  proof -
    have "dict_has (allocations db) t" using assms(3) claim_of_absent by blast
    then obtain cores where "map_of (allocations db) t = Some cores" "parse_cpu_ranges cores = Inr (owned_by db t)"
      using wf_lookup(1) [OF assms(1)] by (auto simp: dict_has_def)
    then show ?thesis using that assms(3) by (auto simp: subtract_cpus_from_service_def)
  qed
  then show "(\<exists>db'. subtract_cpus_from_service t R (Some s) requested pool db = Inr db') =
      (ensure_service_pool db s pool = Inr () \<and>
       (\<exists>policy. effective_policy db s requested = Inr policy \<and> reclaimable db t R policy pool))"
    using guard subtract_total [OF assms(1)] by blast
  fix db' assume "subtract_cpus_from_service t R (Some s) requested pool db = Inr db'"
  then show "wf_ledger db'" "abs_ledger db' = subtract_claim t R (abs_ledger db)"
    using subtract_abs [OF assms(1)] by blast+
qed

theorem reclaim_refines_witness:
  "(\<exists>db'. subtract_cpus_from_service ''a'' {0} (Some ''c'') None ISOLATED example_ledger = Inr db' \<and>
     abs_ledger db' = subtract_claim ''a'' {0} (abs_ledger example_ledger)) \<and>
   \<not> (\<exists>db'. subtract_cpus_from_service ''b'' {4} (Some ''c'') None ISOLATED example_ledger = Inr db')"
proof -
  have "owned_by example_ledger ''a'' \<inter> {0} \<noteq> {}" "owned_by example_ledger ''b'' \<inter> {4} \<noteq> {}" by code_simp+
  note r = reclaim_refines [OF example_ledger_wf _ this(1), of "''c''" None ISOLATED]
    reclaim_refines [OF example_ledger_wf _ this(2), of "''c''" None ISOLATED]
  have ok: "ensure_service_pool example_ledger ''c'' ISOLATED = Inr ()"
    "effective_policy example_ledger ''c'' None = Inr LEGACY"
    "reclaimable example_ledger ''a'' {0} LEGACY ISOLATED" "\<not> reclaimable example_ledger ''b'' {4} LEGACY ISOLATED"
    by code_simp+
  have "\<exists>db'. subtract_cpus_from_service ''a'' {0} (Some ''c'') None ISOLATED example_ledger = Inr db'"
    using r(1) ok(1-3) by simp
  moreover have "\<not> (\<exists>db'. subtract_cpus_from_service ''b'' {4} (Some ''c'') None ISOLATED example_ledger = Inr db')"
    using r(2) ok(2,4) by simp
  ultimately show ?thesis using r(1) by auto
qed

section \<open>Persistence\<close>

text \<open>C22: Saving a well-formed ledger as JSON with sorted keys and loading the section again gives the
  ledger back with its dictionaries in key order: the same claims, policies and pools.\<close>

theorem ledger_survives_json:
  assumes "wf_ledger db"
  shows "load_snapshot (dump_load (snapshot db)) mem = (Inr (), sorted_adb db) \<and>
    wf_ledger (sorted_adb db) \<and> abs_ledger (sorted_adb db) = abs_ledger db \<and>
    allocated_cpus (sorted_adb db) = allocated_cpus db"
  using load_snapshot_dumped sorted_wf sorted_abs wf_ledgerD(1) [OF assms] assms by (simp add: sorted_adb_def)

theorem ledger_survives_json_witness:
  "load_snapshot (dump_load (snapshot example_ledger)) empty_adb = (Inr (), sorted_adb example_ledger)
    \<and> abs_ledger (sorted_adb example_ledger) = abs_ledger example_ledger"
  using ledger_survives_json [OF example_ledger_wf] by blast

text \<open>C36: Loading makes its checks in order, and each rejection raises its own error. Stored policies that are
  not a mapping, a value that is no known policy, a policy of a name that owns nothing, and the same of
  the stored pools, raise the corruption error with the message of that check. Only when all of them
  pass, and then with every stored entry loaded, are the range texts read: the load succeeds if and
  only if all of them parse, and the CPU sets are the unions of the claims; the first that does not
  parse lets the parser's \<open>ValueError\<close> out, not the corruption error.\<close>

theorem load_checks_metadata:
  assumes "load_snapshot data mem = (r, db)"
  shows "case policy_fault data of
      Some e \<Rightarrow> r = Inl e
    | None \<Rightarrow> (case pool_fault data of
        Some e \<Rightarrow> r = Inl e
      | None \<Rightarrow>
          text_items policy_value (preemption_policies db) = stored_items data ''preemption_policies'' \<and>
          text_items pool_value (allocation_pools db) = stored_items data ''allocation_pools'' \<and>
          owner_fields data db \<and>
          (r = Inr () \<longleftrightarrow> readable parse_cpu_ranges (allocations db) \<and>
             readable parse_cpu_ranges (explicit_allocations db)) \<and>
          (case r of
             Inr u \<Rightarrow> allocated_cpus db = claims_union parse_cpu_ranges (allocations db) \<and>
               explicitly_allocated_cpus db = claims_union parse_cpu_ranges (explicit_allocations db)
           | Inl e \<Rightarrow> (\<exists>message. e = ValueError message) \<and>
               (\<exists>name cores. (name, cores) \<in> set (allocations db) \<union> set (explicit_allocations db) \<and>
         parse_cpu_ranges cores = Inl e)))"
proof (cases "policy_fault data")
  case None
  then obtain db1 where db1: "owner_fields data db1"
      "text_items policy_value (preemption_policies db1) = stored_items data ''preemption_policies''"
      "load_snapshot data mem = (case load_pool_metadata data db1 of
          (Inl e, db2) \<Rightarrow> (Inl e, db2) | (Inr _, db2) \<Rightarrow> load_cpu_sets db2)"
    using load_snapshot_fault [of data mem] by auto
  note pools = load_pool_metadata_fault [OF db1(1)]
  show ?thesis
  proof (cases "pool_fault data")
    case no_fault: None
    then obtain ps where ps: "load_pool_metadata data db1 = (Inr (), db1\<lparr>allocation_pools := ps\<rparr>)"
      "text_items pool_value ps = stored_items data ''allocation_pools''" using pools by auto
    then have sets: "load_cpu_sets (db1\<lparr>allocation_pools := ps\<rparr>) = (r, db)" using assms db1(3) by simp
    note loaded = load_cpu_sets_cases [OF sets]
    have unread: "\<not> (readable parse_cpu_ranges (allocations db) \<and> readable parse_cpu_ranges (explicit_allocations db))
        \<and> (\<exists>message. e = ValueError message)" if failed: "r = Inl e" for e
    proof
      obtain name cores where cores: "(name, cores) \<in> set (allocations db) \<union> set (explicit_allocations db)"
        "parse_cpu_ranges cores = Inl e" using loaded(5) failed loaded(3,4) by auto
      then show "\<not> (readable parse_cpu_ranges (allocations db) \<and> readable parse_cpu_ranges (explicit_allocations db))"
        by (fastforce simp: readable_def)
      have "is_value_error e" by (rule value_errorsD [OF range_refusals(1) cores(2)])
      then show "\<exists>message. e = ValueError message" by (cases e) simp_all
    qed
    show ?thesis
    proof (cases r)
      case (Inl e)
      then show ?thesis
        using None no_fault loaded ps(2) db1(1,2) unread [OF Inl] by (simp add: owner_fields_def)
    next
      case (Inr u)
      then show ?thesis
        using None no_fault loaded ps(2) db1(1,2) by (simp add: owner_fields_def)
    qed
  qed (use assms None db1(3) pools in auto)
qed (use assms load_snapshot_fault [of data mem] in auto)

theorem load_checks_metadata_witness:
  "(\<exists>db. load_snapshot [(''preemption_policies'', JObj [(''a'', JStr ''legacy'')])] empty_adb
     = (Inl (StateCorruptionError ''Preemption policy without owned CPUs''), db)) \<and>
   (\<exists>db. load_snapshot [(''allocations'', JObj [(''a'', JStr ''0'')]), (''allocation_pools'', JObj [(''a'', JNull)])]
     empty_adb = (Inl (StateCorruptionError ''Invalid stored CPU pool''), db)) \<and>
   (\<exists>m db. load_snapshot [(''allocations'', JObj [(''a'', JStr ''3-1'')])] empty_adb = (Inl (ValueError m), db))"
proof (intro conjI)
  let ?owned = "[(''preemption_policies'', JObj [(''a'', JStr ''legacy'')])]"
  let ?null = "[(''allocations'', JObj [(''a'', JStr ''0'')]), (''allocation_pools'', JObj [(''a'', JNull)])]"
  let ?range = "[(''allocations'', JObj [(''a'', JStr ''3-1'')])]"
  obtain r db where run: "load_snapshot ?owned empty_adb = (r, db)" by fastforce
  have "policy_fault ?owned = Some (StateCorruptionError ''Preemption policy without owned CPUs'')" by code_simp
  then show "\<exists>db. load_snapshot ?owned empty_adb
     = (Inl (StateCorruptionError ''Preemption policy without owned CPUs''), db)"
    using load_checks_metadata [OF run] run by simp
  obtain r db where run: "load_snapshot ?null empty_adb = (r, db)" by fastforce
  have "policy_fault ?null = None" "pool_fault ?null = Some (StateCorruptionError ''Invalid stored CPU pool'')"
    by code_simp+
  then show "\<exists>db. load_snapshot ?null empty_adb = (Inl (StateCorruptionError ''Invalid stored CPU pool''), db)"
    using load_checks_metadata [OF run] run by simp
  obtain r db where run: "load_snapshot ?range empty_adb = (r, db)" by fastforce
  have clean: "policy_fault ?range = None" "pool_fault ?range = None" by code_simp+
  have "\<not> readable parse_cpu_ranges (List.map (\<lambda>(name, v). (name, json_str v)) (stored_items ?range ''allocations''))"
    by code_simp
  then have "r \<noteq> Inr ()" using load_checks_metadata [OF run] clean by (auto simp: owner_fields_def)
  then obtain e where "r = Inl e" by (cases r) auto
  then show "\<exists>m db. load_snapshot ?range empty_adb = (Inl (ValueError m), db)"
    using load_checks_metadata [OF run] clean run by auto
qed

section \<open>Reports\<close>

text \<open>What the ledger reports of a well-formed state: the claimed CPUs of a pool are those owned by
  the services of this pool, the statistics count the eligible CPUs nobody owns, the size of a
  claim is the number of CPUs owned, and the free CPUs of a service are the eligible ones no
  other service owns.\<close>

theorem reports_agree:
  assumes "wf_ledger db" "cpu_ids E"
  shows "get_claimed_cpus db None = Inr (allocated_cpus db) \<and>
    get_claimed_cpus db (Some pool) = Inr (\<Union> (owned_by db ` {s. service_pool db s = pool})) \<and>
    get_system_stats db (set_ranges E) = Inr \<lparr>stat_total_available_cpus = py_len E,
      stat_total_allocated_cpus = py_len (allocated_cpus db),
      stat_remaining_available_cpus = py_len (E - allocated_cpus db),
      stat_total_allocations = int (length (allocations db))\<rparr> \<and>
    get_snap_allocation_count db s = Inr (py_len (owned_by db s)) \<and>
    get_available_cpus_for_service db s (set_ranges E) = Inr (py_sorted (E - foreign_claims db s))"
proof -
  have absent: "owned_by db s = {}" if "\<not> dict_has (allocations db) s" for s
    by (rule unowned_absent(1) [OF wf_ledgerD(1) [OF assms(1)] that])
  note claimed_cpus_wf [OF assms(1)]
  moreover have "get_snap_allocation_count db s = Inr (py_len (owned_by db s))"
    using wf_lookup(1) [OF assms(1), of s] absent [of s]
    by (cases "map_of (allocations db) s") (auto simp: get_snap_allocation_count_def dict_has_def py_len_def)
  ultimately show ?thesis
    using available_for_service [OF assms(1) ranges.dec_enc [OF assms(2)]] ranges.dec_enc [OF assms(2)]
    by (simp add: get_system_stats_def)
qed

theorem reports_agree_witness:
  "get_claimed_cpus example_ledger None = Inr {0, 1, 4} \<and>
   get_snap_allocation_count example_ledger ''a'' = Inr (py_len (owned_by example_ledger ''a''))"
proof -
  have "allocated_cpus example_ledger = {0, 1, 4}" by (simp add: example_ledger_def)
  then show ?thesis using reports_agree [OF example_ledger_wf, of "{}"] by (simp add: cpu_ids_def)
qed

end
