(* ===== verification/Store_Progress.thy ===== *)
theory Store_Progress
  imports Store_Sections
begin

text \<open>
  When the operations of the state store succeed: without failing system calls a transaction on an
  open and readable store returns.
\<close>

lemma wp_syscall_calm: "fates s = [] \<Longrightarrow> wp (syscall f) Q E C s \<longleftrightarrow> Q () (f s)"
  by (simp add: wp_def syscall_def)

lemmas store_ops = transaction_section_def atomic_write_def write_temp_def replace_file_def remove_temp_def
  set_uncertain_def sync_directory_def write_mark_def write_lock_def release_lock_def locked_def
  check_health_def read_unlocked_def
  closing_def sync_lock_def

lemma calm_commit:
  assumes "fates s = []" "\<not> blocked s" "doc_of (state_file s) = Some d" "section_content n d = Inr c"
    and "update c = Inr (r, x)"
  shows "\<exists>t. transaction_section n update now s = (Ret x, t) \<and>
    state_file t = Json (JObj (dump_load (new_document now n d r))) \<and> durable t \<and> \<not> blocked t \<and> \<not> lock_held t"
proof -
  have on_disk: "state_file s = Missing \<and> d = [] \<or> state_file s = Json (JObj d)"
    using assms(3) by (auto simp: doc_of_def parse_state_def split: disk_file.splits json.splits)
  have "wp (transaction_section n update now)
    (\<lambda>y t. y = x \<and> state_file t = Json (JObj (dump_load (new_document now n d r))) \<and> durable t \<and>
       \<not> blocked t \<and> \<not> lock_held t) (\<lambda>e t. False) (\<lambda>t. False) s"
    using on_disk assms(1,2,4,5)
    by (elim disjE conjE)
      (simp_all add: store_ops store_simps wp_syscall_calm parse_state_def blocked_def durable_def new_document_def
        maybe_files_def)
  then show ?thesis by (auto simp: wp_def split: prod.splits outcome.splits)
qed

end
