(* ===== verification/Claims_Store.thy ===== *)
theory Claims_Store
  imports Example_Host Store_Progress
begin

text \<open>
  Properties of the state store under failing system calls, dying processes and losses of power:
  atomicity of a transaction, the latch that blocks writes after an uncertain commit, recovery,
  and success when nothing fails.
\<close>

section \<open>A blocked store\<close>

lemma wp_blocked:
  assumes "blocked s"
  shows "wp (locked (then_io check_health k)) (\<lambda>_ _. False) (\<lambda>e. untouched s) (untouched s) s"
proof -
  have "wp (then_io check_health k) (\<lambda>_ _. False) (\<lambda>e. untouched s) (untouched s) t" if "untouched s t" for t
    unfolding wp_then
    by (rule wp_mono [OF wp_check_health_untouched [OF that]]) (use assms in \<open>auto simp: blocked_def\<close>)
  then have "wp (locked (then_io check_health k)) (\<lambda>_ t. False \<and> \<not> lock_held t)
      (\<lambda>e t. untouched s t \<and> \<not> lock_held t) (untouched s) s"
    by (rule wp_locked) auto
  then show ?thesis by (rule wp_mono) auto
qed

lemma blocked_run:
  assumes "blocked s" "locked (then_io check_health k) s = (out, t)"
  shows "untouched s t \<and> (\<forall>x. out \<noteq> Ret x)"
  using wp_blocked [OF assms(1), of k] assms(2) by (cases out) (simp_all add: wp_def)

text \<open>C31: While the latch of the process is set or the lock file carries the mark, no write of any kind
  returns: it raises, or the process dies, and the state file with everything a loss of power may
  leave of it is untouched.\<close>

theorem blocked_store_refuses_writes:
  assumes "blocked s"
  shows "(\<forall>out t. transaction_section n update now s = (out, t) \<longrightarrow> untouched s t \<and> (\<forall>x. out \<noteq> Ret x)) \<and>
    (\<forall>out t. write_all data now s = (out, t) \<longrightarrow> untouched s t \<and> out \<noteq> Ret ()) \<and>
    (\<forall>out t. update_section n replacement now s = (out, t) \<longrightarrow> untouched s t \<and> out \<noteq> Ret ())"
proof -
  note refused = blocked_run [OF assms]
  show ?thesis
    unfolding write_all_def update_section_def transaction_section_def atomic_write_def
    by (intro conjI allI impI; drule refused) simp_all
qed

definition marked_store :: store where
  "marked_store = example_store\<lparr>lock_bytes := uncertain_mark, maybe_lock_data := [uncertain_mark],
     lock_linked := True\<rparr>"

theorem blocked_store_refuses_writes_witness:
  "\<exists>out t. write_all [] ''now'' marked_store = (out, t) \<and> untouched marked_store t \<and> out \<noteq> Ret ()"
proof -
  have "blocked marked_store" by code_simp
  moreover obtain out t where "write_all [] ''now'' marked_store = (out, t)" by fastforce
  ultimately show ?thesis using blocked_store_refuses_writes by blast
qed

section \<open>Atomicity\<close>

text \<open>C3: A transaction on a section, whatever system calls fail and wherever the process dies: if it
  returns, the update was applied to the content on disk and the result is durable, under an open
  lock; if it raises, the file is the old one, or it is the new one, the error is the uncertain
  commit and the latch is set; if the process dies, the file is the old or the new one. Every
  content a loss of power may leave is an old one or the new one.\<close>

theorem transaction_is_atomic:
  assumes "store_ok s" "keeps_docs (section_of n) s update"
    and "transaction_section n update now s = (out, t)"
  shows "store_ok t \<and> set (maybe_files t) \<subseteq> insert (state_file t) (set (maybe_files s)) \<and>
    (case out of
       Ret x \<Rightarrow> (\<exists>data. txn_effect n update now s data x \<and> state_file t = Json (JObj (dump_load data))) \<and>
         durable t \<and> \<not> blocked t \<and> \<not> blocked s \<and> \<not> lock_held t
     | Raise e \<Rightarrow> \<not> lock_held t \<and> (state_file t = state_file s \<or>
         latch t \<and> e = StateUncertainError ''State commit uncertain; recover storage before mutating'' \<and>
         (\<exists>data x. txn_effect n update now s data x \<and> state_file t = Json (JObj (dump_load data))))
     | Crash \<Rightarrow> state_file t = state_file s \<or>
         (\<exists>data x. txn_effect n update now s data x \<and> state_file t = Json (JObj (dump_load data))))"
proof -
  note rule = wp_transaction_section [OF assms(1,2), of now]
  show ?thesis
  proof (cases out)
    case (Ret x)
    then show ?thesis using wp_RetD [OF rule, of x t] assms(3)
      by (auto simp: committed_def durable_def blocked_def)
  next
    case (Raise e)
    then have r: "(kept s t \<or> (\<exists>data x. txn_effect n update now s data x \<and> write_raised data s e t)) \<and> \<not> lock_held t"
      using wp_RaiseD [OF rule, of e t] assms(3) by simp
    then show ?thesis using Raise by (fastforce simp: kept_def write_raised_def replaced_def)
  next
    case Crash
    then have "kept s t \<or> (\<exists>data x. txn_effect n update now s data x \<and> write_interrupted data s t)"
      using wp_CrashD [OF rule, of t] assms(3) by simp
    then show ?thesis using Crash by (fastforce simp: kept_def write_interrupted_def replaced_def)
  qed
qed

text \<open>The directory sync after the rename fails: its second call is the nineteenth of the transaction.\<close>

definition failing_store :: store where
  "failing_store = example_store\<lparr>fates := replicate 18 Done @ [Fails]\<rparr>"

theorem transaction_is_atomic_witness:
  "\<exists>t m. transaction_section ''allocations_db'' (\<lambda>c. Inr ([], ())) ''now'' failing_store
     = (Raise (StateUncertainError m), t) \<and> latch t \<and> store_ok t \<and> \<not> lock_held t \<and>
     state_file t \<noteq> state_file failing_store"
proof -
  let ?run = "transaction_section ''allocations_db'' (\<lambda>c. Inr ([], ())) ''now'' failing_store"
  have "case ?run of (Raise (StateUncertainError m), t) \<Rightarrow> latch t \<and> state_file t \<noteq> state_file failing_store
      | _ \<Rightarrow> False"
    by code_simp
  then obtain m t where t: "?run = (Raise (StateUncertainError m), t)" "latch t"
      "state_file t \<noteq> state_file failing_store"
    by (auto split: prod.splits outcome.splits py_error.splits)
  have "store_ok failing_store" by code_simp
  moreover have "keeps_docs (section_of ''allocations_db'') failing_store (\<lambda>c. Inr ([], ()))"
    by (simp add: keeps_docs_def doc_ok_def)
  ultimately show ?thesis using transaction_is_atomic [OF _ _ t(1)] t by auto
qed

section \<open>Losing power\<close>

lemma wp_write_all:
  assumes "store_ok s" "doc_ok (stamp now data)"
  shows "wp (write_all data now) (\<lambda>_ t. store_ok t) (\<lambda>e t. store_ok t) store_ok s"
proof -
  have ok: "write_raised d s e t \<Longrightarrow> store_ok t" "write_interrupted d s t \<Longrightarrow> store_ok t"
    "committed d t \<Longrightarrow> store_ok t" for d s e t
    by (auto simp: write_raised_def write_interrupted_def kept_def replaced_def committed_def)
  have keep: "untouched s t \<Longrightarrow> store_ok t" for t using untouched_fields(6) [of s t] assms(1) by simp
  have "wp (atomic_write (stamp now data)) (\<lambda>_ t. store_ok t) (\<lambda>e t. store_ok t) store_ok t"
    if "untouched s t" for t
    using wp_atomic_write [OF keep [OF that] assms(2)] by (rule wp_mono) (auto intro: ok)
  then have "wp (write_all data now) (\<lambda>_ t. store_ok t \<and> \<not> lock_held t) (\<lambda>e t. store_ok t \<and> \<not> lock_held t) store_ok s"
    unfolding write_all_def by (rule wp_locked) (use keep in \<open>simp_all\<close>)
  then show ?thesis by (rule wp_mono) auto
qed

text \<open>C9: The state file never silently goes back: whatever the write, its faults and its outcome, when
  power is lost afterwards the store is blocked, or the file is the one the process last saw.\<close>

theorem power_loss_never_rolls_back:
  assumes "store_ok s"
    and "(\<exists>out. keeps_docs (section_of n) s update \<and> transaction_section n update now s = (out, t)) \<or>
      (\<exists>out. doc_ok (stamp now data) \<and> write_all data now s = (out, t)) \<or>
      (\<exists>out. recover s = (out, t))"
    and "f \<in> set (maybe_files t)" "l \<in> set (maybe_locks t)"
  shows "blocked (power_loss f l t) \<or> f = state_file t"
proof -
  have "store_ok t"
    using assms(2)
  proof (elim disjE exE conjE)
    fix out assume "keeps_docs (section_of n) s update" "transaction_section n update now s = (out, t)"
    then show ?thesis using transaction_outcome [OF assms(1)]
      by (metis kept_def replaced_def)
  next
    fix out assume "doc_ok (stamp now data)" "write_all data now s = (out, t)"
    then show ?thesis using wp_write_all [OF assms(1), of now data]
      by (cases out) (simp_all add: wp_def)
  next
    fix out assume "recover s = (out, t)"
    then show ?thesis using wp_recover [OF assms(1)] by (cases out) (auto simp: wp_def recovered_def kept_def)
  qed
  then show ?thesis using unblocked_power_loss assms(3,4) by blast
qed

theorem power_loss_never_rolls_back_witness:
  "\<exists>out t f. transaction_section ''allocations_db'' (\<lambda>c. Inr ([], ())) ''now''
      (example_store\<lparr>fates := replicate 17 Done @ [Dies]\<rparr>) = (out, t) \<and>
     f \<in> set (maybe_files t) \<and> f \<noteq> state_file t \<and> (\<forall>l \<in> set (maybe_locks t). blocked (power_loss f l t))"
proof -
  let ?s = "example_store\<lparr>fates := replicate 17 Done @ [Dies]\<rparr>"
  let ?run = "transaction_section ''allocations_db'' (\<lambda>c. Inr ([], ())) ''now'' ?s"
  have old: "case ?run of (out, t) \<Rightarrow> state_file ?s \<in> set (maybe_files t) \<and> state_file ?s \<noteq> state_file t"
    by code_simp
  obtain out t where run: "?run = (out, t)" by fastforce
  have ok: "store_ok ?s" by code_simp
  have kd: "keeps_docs (section_of ''allocations_db'') ?s (\<lambda>c. Inr ([], ()))"
    by (simp add: keeps_docs_def doc_ok_def)
  have f: "state_file ?s \<in> set (maybe_files t)" "state_file ?s \<noteq> state_file t" using old run by simp_all
  have "blocked (power_loss (state_file ?s) l t)" if "l \<in> set (maybe_locks t)" for l
    using power_loss_never_rolls_back [OF ok _ f(1) that, of "''allocations_db''" "\<lambda>c. Inr ([], ())" "''now''" "[]"]
      kd run f(2) by auto
  then show ?thesis using run f by blast
qed

section \<open>Recovery\<close>

text \<open>C33: Recovery never changes the state file. When it returns, the file is readable and durable and the
  store accepts writes again, also after a loss of power; when it raises, a blocked store stays
  blocked; unless the process dies, the lock is released.\<close>

theorem recovery_unblocks:
  assumes "store_ok s" "recover s = (out, t)"
  shows "store_ok t \<and> state_file t = state_file s \<and>
    (case out of
       Ret u \<Rightarrow> durable t \<and> doc_of (state_file t) \<noteq> None \<and> \<not> lock_held t \<and> \<not> blocked t \<and>
         (\<forall>f \<in> set (maybe_files t). \<forall>l \<in> set (maybe_locks t). f = state_file t \<and> \<not> blocked (power_loss f l t))
     | Raise e \<Rightarrow> \<not> lock_held t \<and> (blocked s \<longrightarrow> blocked t)
     | Crash \<Rightarrow> True)"
proof (cases out)
  case (Ret u)
  then have r: "(recovered s t \<and> doc_of (state_file s) \<noteq> None) \<and> \<not> lock_held t"
    using wp_RetD [OF wp_recover [OF assms(1)], of u t] assms(2) by simp
  then show ?thesis using Ret
    by (auto simp: recovered_def kept_def durable_def power_loss_def restart_def blocked_def)
next
  case (Raise e)
  then show ?thesis using wp_RaiseD [OF wp_recover [OF assms(1)], of e t] assms(2) by (simp add: kept_def)
next
  case Crash
  then show ?thesis using wp_CrashD [OF wp_recover [OF assms(1)], of t] assms(2) by (simp add: kept_def)
qed

text \<open>Neither the contents of the file nor its entry are durable.\<close>

definition uncertain_store :: store where
  "uncertain_store = example_store\<lparr>lock_bytes := uncertain_mark, maybe_lock_data := [uncertain_mark],
     lock_linked := True, maybe_data := [state_file example_store, Garbage], maybe_entries := [Missing]\<rparr>"

theorem recovery_unblocks_witness:
  "blocked uncertain_store \<and> (\<exists>t. recover uncertain_store = (Ret (), t) \<and> durable t \<and> \<not> blocked t)"
proof -
  have "case recover uncertain_store of (Ret u, t) \<Rightarrow> True | _ \<Rightarrow> False" by code_simp
  then obtain t where t: "recover uncertain_store = (Ret (), t)" by (auto split: prod.splits outcome.splits)
  have "store_ok uncertain_store" "blocked uncertain_store" by code_simp+
  then show ?thesis using recovery_unblocks [OF _ t] t by auto
qed

section \<open>When nothing fails\<close>

text \<open>On an open, readable store whose system calls all succeed, a transaction whose update accepts the
  content returns, and the document on disk is the old one with the section replaced and stamped.\<close>

theorem calm_transaction_commits:
  assumes "fates s = []" "\<not> blocked s" "doc_of (state_file s) = Some d" "section_content n d = Inr c"
    and "update c = Inr (r, x)"
  shows "\<exists>t. transaction_section n update now s = (Ret x, t) \<and>
    state_file t = Json (JObj (dump_load (new_document now n d r))) \<and> durable t \<and> \<not> blocked t \<and> \<not> lock_held t"
  using assms by (rule calm_commit)

theorem calm_transaction_commits_witness:
  "\<exists>t. transaction_section ''hugepages_db'' (\<lambda>c. Inr ([(''allocations'', JObj [])], True)) ''now'' example_store
     = (Ret True, t) \<and> durable t \<and> \<not> blocked t"
proof -
  obtain d where d: "doc_of (state_file example_store) = Some d" "section_content ''hugepages_db'' d = Inr []"
  proof -
    have "case doc_of (state_file example_store) of None \<Rightarrow> False
      | Some d \<Rightarrow> section_content ''hugepages_db'' d = Inr []" by code_simp
    then show thesis using that by (auto split: option.splits)
  qed
  have "fates example_store = []" "\<not> blocked example_store" by code_simp+
  from calm_transaction_commits [OF this d, of "\<lambda>c. Inr ([(''allocations'', JObj [])], True)" _ True "''now''"]
  show ?thesis by blast
qed

end
