(* ===== verification/Hugepage_Capacity.thy ===== *)
theory Hugepage_Capacity
  imports Daemon_Handler
begin

text \<open>
  What the capacity check of a hugepage request is about: the count the stored table records for a
  service, node and size, the pages recorded on a node by all services, and the kernel's counts
  overlaid with them. \<^const>\<open>get_hugepages_context\<close> answers with exactly these.
\<close>

section \<open>The recorded pages of a node\<close>

definition recorded_count :: "hugepage_table \<Rightarrow> string \<Rightarrow> int \<Rightarrow> int \<Rightarrow> int" where
  "recorded_count t service_name node_id size_kb =
     (case recorded t service_name node_id size_kb of None \<Rightarrow> 0 | Some n \<Rightarrow> n)"

definition pages_recorded :: "hugepage_table \<Rightarrow> int \<Rightarrow> int \<Rightarrow> int" where
  "pages_recorded t node_id size_kb = (\<Sum>svc \<in> fst ` set t. recorded_count t svc node_id size_kb)"

definition entry_total :: "int \<Rightarrow> int \<Rightarrow> hugepage_allocation_entry list \<Rightarrow> int" where
  "entry_total node_id size_kb es = sum_list (List.map hp_count (List.filter (same_key node_id size_kb) es))"

lemma entry_total_find:
  assumes "distinct (List.map (\<lambda>e. (hp_node_id e, hp_size_kb e)) es)"
  shows "entry_total n k es = (case List.find (same_key n k) es of None \<Rightarrow> 0 | Some e \<Rightarrow> hp_count e)"
  using assms
proof (induction es)
  case (Cons e es)
  have "entry_total n k es = 0" if "same_key n k e"
  proof -
    have "\<not> same_key n k d" if "d \<in> set es" for d
    proof -
      have "(hp_node_id d, hp_size_kb d) \<in> (\<lambda>e. (hp_node_id e, hp_size_kb e)) ` set es" using that by blast
      then show ?thesis using Cons.prems \<open>same_key n k e\<close> by (auto simp: same_key_def)
    qed
    then show ?thesis by (simp add: entry_total_def)
  qed
  then show ?case using Cons by (auto simp: entry_total_def)
qed (simp add: entry_total_def)

lemma node_total_append: "node_total (xs @ ys) k = node_total xs k + node_total ys k"
  by (simp add: node_total_def)

lemma node_entries_Cons:
  "node_entries n ((svc, es) # t) =
     List.map (\<lambda>e. \<lparr>nha_service_name = svc, nha_size_kb = hp_size_kb e, nha_count = hp_count e\<rparr>)
       (List.filter (\<lambda>e. hp_node_id e = n) es) @ node_entries n t"
  by (simp add: node_entries_def)

lemma node_total_service:
  "node_total (List.map (\<lambda>e. \<lparr>nha_service_name = svc, nha_size_kb = hp_size_kb e, nha_count = hp_count e\<rparr>)
     (List.filter (\<lambda>e. hp_node_id e = n) es)) k = entry_total n k es"
  by (induction es) (auto simp: node_total_def entry_total_def same_key_def)

lemma recorded_count_Cons:
  assumes "table_sound ((svc, es) # t)"
  shows "recorded_count ((svc, es) # t) svc' n k = (if svc' = svc then entry_total n k es else recorded_count t svc' n k)"
proof -
  have "distinct (List.map (\<lambda>e. (hp_node_id e, hp_size_kb e)) es)"
    using assms by (simp add: table_sound_def entries_ok_def)
  then show ?thesis
    by (simp add: recorded_count_def recorded_def dict_get_def entry_total_find split: option.split)
qed

lemma table_sound_tail: "table_sound (x # t) \<Longrightarrow> table_sound t"
  by (simp add: table_sound_def)

lemma node_total_recorded: "table_sound t \<Longrightarrow> node_total (node_entries n t) k = pages_recorded t n k"
proof (induction t)
  case (Cons x t)
  obtain svc es where x: "x = (svc, es)" by (cases x)
  have fresh: "svc \<notin> fst ` set t" using Cons.prems x by (simp add: table_sound_def)
  have "(\<Sum>s \<in> fst ` set t. recorded_count (x # t) s n k) = (\<Sum>s \<in> fst ` set t. recorded_count t s n k)"
    using fresh recorded_count_Cons [OF Cons.prems [unfolded x]] x by (intro sum.cong) auto
  then have "pages_recorded (x # t) n k = entry_total n k es + pages_recorded t n k"
    using fresh recorded_count_Cons [OF Cons.prems [unfolded x]] x by (simp add: pages_recorded_def)
  then show ?case
    using Cons.IH [OF table_sound_tail [OF Cons.prems]]
    by (simp add: x node_entries_Cons node_total_append node_total_service)
qed (simp add: node_entries_def node_total_def pages_recorded_def)

lemma find_node_entries:
  assumes "table_sound t"
  shows "existing_count svc k (node_entries n t) = recorded_count t svc n k"
  using assms
proof (induction t)
  case (Cons x t)
  obtain s es where x: "x = (s, es)" by (cases x)
  let ?P = "\<lambda>i. nha_service_name i = svc \<and> nha_size_kb i = k"
  let ?own = "List.map (\<lambda>e. \<lparr>nha_service_name = s, nha_size_kb = hp_size_kb e, nha_count = hp_count e\<rparr>)
       (List.filter (\<lambda>e. hp_node_id e = n) es)"
  have other: "List.find ?P ?own = None" if "s \<noteq> svc" using that by (induction es) auto
  have own: "map_option nha_count (List.find ?P ?own) = map_option hp_count (List.find (same_key n k) es)"
    if "s = svc" using that by (induction es) (auto simp: same_key_def)
  have absent: "svc \<notin> fst ` set t \<Longrightarrow> List.find ?P (node_entries n t) = None" for t :: hugepage_table
    by (force simp: find_None_iff node_entries_def)
  have "distinct (List.map (\<lambda>e. (hp_node_id e, hp_size_kb e)) es)" and fresh: "s \<notin> fst ` set t"
    using Cons.prems x by (auto simp: table_sound_def entries_ok_def)
  note total = entry_total_find [OF this(1), of n k]
  have "existing_count svc k (node_entries n (x # t)) =
      (case List.find ?P ?own of None \<Rightarrow> existing_count svc k (node_entries n t) | Some i \<Rightarrow> nha_count i)"
    by (simp add: x node_entries_Cons existing_count_def find_append split: option.split)
  then show ?case
    using Cons.IH [OF table_sound_tail [OF Cons.prems]] recorded_count_Cons [OF Cons.prems [unfolded x], of svc n k]
      other own total absent [of t] fresh x
    by (cases "s = svc") (auto simp: existing_count_def split: option.splits)
qed (simp add: existing_count_def node_entries_def recorded_count_def recorded_def dict_get_def)

section \<open>What the summary reports\<close>

lemma str_int_eq: "str_int a = str_int b \<longleftrightarrow> a = b"
proof -
  have minus: "str_nat n \<noteq> CHR ''-'' # w" for n w
  proof
    assume "str_nat n = CHR ''-'' # w"
    then show False using str_nat_digits [of n] by (simp add: is_digit_def)
  qed
  have inject: "str_nat m = str_nat n \<Longrightarrow> m = n" for m n
  proof -
    assume "str_nat m = str_nat n"
    then have "Some (int m) = Some (int n)" by (metis read_unsigned_str_nat)
    then show "m = n" by simp
  qed
  have "a = b" if "str_int a = str_int b"
  proof (cases "a < 0"; cases "b < 0")
    assume "a < 0" "b < 0"
    then have "nat (- a) = nat (- b)" using that by (intro inject) (simp add: str_int_def)
    then show ?thesis using \<open>a < 0\<close> \<open>b < 0\<close> by linarith
  next
    assume "\<not> a < 0" "\<not> b < 0"
    then have "nat a = nat b" using that by (intro inject) (simp add: str_int_def)
    then show ?thesis using \<open>\<not> a < 0\<close> \<open>\<not> b < 0\<close> by linarith
  next
    assume "a < 0" "\<not> b < 0"
    then have "str_nat (nat b) = CHR ''-'' # str_nat (nat (- a))" using that by (simp add: str_int_def)
    then show ?thesis using minus by blast
  next
    assume "\<not> a < 0" "b < 0"
    then have "str_nat (nat a) = CHR ''-'' # str_nat (nat (- b))" using that by (simp add: str_int_def)
    then show ?thesis using minus by blast
  qed
  then show ?thesis by blast
qed

text \<open>The kernel's counts of a size, overlaid with what is recorded for the node.\<close>

definition tracked_pages :: "hugepage_table \<Rightarrow> int \<Rightarrow> string \<Rightarrow> int" where
  "tracked_pages t node_id key = dict_get (tracked_per_size (node_allocations (node_entries node_id t))) key 0"

text \<open>An invariant of a loop over a session, for the runs that return.\<close>

lemma fold_s_Ret:
  assumes "fold_s f xs a m s = (Ret b, m', s')" "I a s"
    and "\<And>x a m s b m' s'. x \<in> set xs \<Longrightarrow> I a s \<Longrightarrow> f x a m s = (Ret b, m', s') \<Longrightarrow> I b s'"
  shows "I b s'"
  using assms
proof (induction xs arbitrary: a m s)
  case (Cons x xs)
  obtain c m1 s1 where 1: "f x a m s = (Ret c, m1, s1)" "fold_s f xs c m1 s1 = (Ret b, m', s')"
    using Cons.prems(1) by (auto elim: bind_s_RetE)
  have "I c s1" using Cons.prems(3) [OF _ Cons.prems(2) 1(1)] by simp
  then show ?case
  proof (rule Cons.IH [OF 1(2)])
    fix y d m s e m' s' assume "y \<in> set xs" "I d s" "f y d m s = (Ret e, m', s')"
    then show "I e s'" using Cons.prems(3) [of y d s m e m' s'] by simp
  qed
qed simp

definition node_report :: "host \<Rightarrow> hugepage_table \<Rightarrow> string \<Rightarrow> node_hugepages_info \<Rightarrow> bool" where
  "node_report h t key info \<longleftrightarrow> (\<exists>node_dir \<in> set (list_node_dirs h). key = ''node'' @ str_int (node_number node_dir) \<and>
     (nhi_capacity info = [] \<or>
      info = node_info (get_node_hugepage_sizes h (node_base @ ''/'' @ node_dir @ ''/hugepages''))
        (node_allocations (node_entries (node_number node_dir) t))))"

lemma list_for_node_Ret:
  assumes "list_allocations_for_node to_int n m s = (Ret items, m', s')"
  shows "stored_table to_int s = Some m' \<and> items = node_entries n m' \<and> untouched s s'"
  using assms unfolding list_allocations_for_node_def by (auto elim!: bind_s_RetE dest: hp_load_Ret)

lemma add_node_report:
  assumes "add_node h to_int node_dir nodes m s = (Ret nodes', m', s')" "node_dir \<in> set (list_node_dirs h)"
    and "stored_table to_int s = Some t" "\<And>key info. map_of nodes key = Some info \<Longrightarrow> node_report h t key info"
    and "map_of nodes' key = Some info"
  shows "node_report h t key info"
proof -
  let ?key = "''node'' @ str_int (node_number node_dir)"
  let ?dir = "node_base @ ''/'' @ node_dir @ ''/hugepages''"
  obtain new where new: "nodes' = dict_set ?key new nodes" "nhi_capacity new = [] \<or>
      new = node_info (get_node_hugepage_sizes h ?dir) (node_allocations (node_entries (node_number node_dir) t))"
  proof (cases "path_exists h ?dir")
    case False
    then have "nodes' = dict_set ?key \<lparr>nhi_capacity = [], nhi_allocations = []\<rparr> nodes"
      using assms(1) by (simp add: add_node_def Let_def)
    then show thesis by (rule that) simp
  next
    case True
    then obtain allocs m1 s1 where a: "get_node_allocations to_int (node_number node_dir) m s = (Ret allocs, m1, s1)"
      "nodes' = dict_set ?key (node_info (get_node_hugepage_sizes h ?dir) allocs) nodes"
      using assms(1) unfolding add_node_def Let_def by (auto elim!: bind_s_RetE)
    then obtain items m2 s2 where "list_allocations_for_node to_int (node_number node_dir) m s = (Ret items, m2, s2)"
      "allocs = node_allocations items"
      unfolding get_node_allocations_def by (auto elim!: bind_s_RetE)
    then show thesis using that a(2) list_for_node_Ret assms(3) by fastforce
  qed
  show ?thesis
  proof (cases "key = ?key")
    case True
    then have "info = new" using assms(5) new(1) by simp
    then show ?thesis using new(2) True assms(2) unfolding node_report_def by blast
  qed (use assms(4,5) new(1) in simp)
qed

lemma add_node_reads: "reads_only (add_node h to_int node_dir nodes)"
  unfolding add_node_def get_node_allocations_def list_allocations_for_node_def Let_def
  by (auto intro!: reads_only_bind hp_load_reads) (simp add: reads_only_def)

lemma summary_reports:
  assumes "get_memory_summary h to_int m s = (Ret (None, nodes), m', s')" "stored_table to_int s = Some t"
    and "map_of nodes key = Some info"
  shows "node_report h t key info" "untouched s s'"
proof -
  have run: "get_numa_hugepages_info h to_int m s = (Ret nodes, m', s')"
    using assms(1) by (auto simp: get_memory_summary_def try_s_def bind_s_def split: prod.splits outcome.splits)
  let ?I = "\<lambda>nodes s'. (\<forall>key info. map_of nodes key = Some info \<longrightarrow> node_report h t key info) \<and> untouched s s'"
  have "?I nodes s'"
  proof (rule fold_s_Ret [OF run [unfolded get_numa_hugepages_info_def], of ?I])
    show "?I [] s" by simp
  next
    fix x a m1 s1 b m2 s2
    assume x: "x \<in> set (sort_key node_number (list_node_dirs h))" and I: "?I a s1"
      and step: "add_node h to_int x a m1 s1 = (Ret b, m2, s2)"
    have "stored_table to_int s1 = Some t"
      using untouched_fields(1) [of s s1] I assms(2) by (simp add: stored_table_def)
    then have "map_of b key = Some info \<Longrightarrow> node_report h t key info" for key info
      using add_node_report [OF step] x I by auto
    then show "?I b s2" using I untouched_trans reads_onlyD [OF add_node_reads step] by blast
  qed
  then show "node_report h t key info" "untouched s s'" using assms(3) by auto
qed

text \<open>The answer of the check's two questions.\<close>

lemma context_answer:
  assumes "get_hugepages_context env svc n k m s = (Ret (Inr (free, existing)), m', s')"
    and "stored_table (env_to_int env) s = Some t" "table_sound t"
  shows "existing = recorded_count t svc n k \<and>
    (\<exists>node_dir key st. node_dir \<in> set (list_node_dirs (env_host env)) \<and> node_number node_dir = n \<and>
       (key, st) \<in> set (get_node_hugepage_sizes (env_host env) (node_base @ ''/'' @ node_dir @ ''/hugepages'')) \<and>
       ue_size (capacity_entry (key, st)) = k \<and> free = hs_free (overlay_stats (tracked_pages t n key) st))"
proof -
  obtain nodes info e m1 s1 items m2 s2 where 1: "get_memory_summary (env_host env) (env_to_int env) m s = (Ret (None, nodes), m1, s1)"
    "map_of nodes (''node'' @ str_int n) = Some info" "List.find (\<lambda>e. ue_size e = k) (nhi_capacity info) = Some e"
    "list_allocations_for_node (env_to_int env) n m1 s1 = (Ret items, m2, s2)"
    "free = ue_free e" "existing = existing_count svc k items"
    using assms(1) unfolding get_hugepages_context_def
    by (auto elim!: bind_s_RetE split: option.splits prod.splits)
  note rep = summary_reports [OF 1(1) assms(2) 1(2)]
  have "stored_table (env_to_int env) s1 = Some t"
    using untouched_fields(1) [OF rep(2)] assms(2) by (simp add: stored_table_def)
  then have "items = node_entries n t" using list_for_node_Ret [OF 1(4)] by simp
  then have ex: "existing = recorded_count t svc n k" using 1(6) find_node_entries [OF assms(3)] by simp
  have e: "e \<in> set (nhi_capacity info)" "ue_size e = k" using 1(3) by (auto simp: find_Some_iff)
  obtain node_dir where d: "node_dir \<in> set (list_node_dirs (env_host env))" "node_number node_dir = n"
    "info = node_info (get_node_hugepage_sizes (env_host env) (node_base @ ''/'' @ node_dir @ ''/hugepages''))
        (node_allocations (node_entries n t))"
    using rep(1) e(1) by (auto simp: node_report_def str_int_eq)
  then obtain key st where "(key, st) \<in> set (get_node_hugepage_sizes (env_host env) (node_base @ ''/'' @ node_dir @ ''/hugepages''))"
    "e = capacity_entry (key, overlay_stats (tracked_pages t n key) st)"
    using e(1) by (auto simp: node_info_def Let_def tracked_pages_def)
  then show ?thesis using ex d(1,2) e(2) 1(5) by (fastforce simp: capacity_entry_def)
qed

section \<open>The free pages, from the kernel's counts and the records\<close>

lemma tracked_pages_recorded:
  assumes "table_sound t"
  shows "tracked_pages t n (str_int k) = pages_recorded t n k"
proof -
  let ?f = "\<lambda>(svc, e). dict_get e (str_int k) 0"
  have sum: "sum_list (List.map ?f (fold add_node_allocation items d)) = sum_list (List.map ?f d) + node_total items k"
    if "alloc_dicts_ok d" for items d
    using that
    by (induction items arbitrary: d)
      (auto simp: node_total_def add_node_allocation_total add_node_allocation_ok str_int_eq)
  have ok: "alloc_dicts_ok (node_allocations (node_entries n t))" by (rule node_allocations_total(1))
  then have "List.map (\<lambda>(svc, d). dict_total d (str_int k)) (node_allocations (node_entries n t))
      = List.map ?f (node_allocations (node_entries n t))"
    by (auto simp: alloc_dicts_ok_def dict_total_get)
  moreover have nil: "alloc_dicts_ok []" by (simp add: alloc_dicts_ok_def)
  moreover have "sum_list (List.map ?f (node_allocations (node_entries n t))) = pages_recorded t n k"
    using sum [OF nil, of "node_entries n t"] node_total_recorded [OF assms]
    by (simp add: node_allocations_def)
  ultimately show ?thesis unfolding tracked_pages_def tracked_sum by (simp only:)
qed

lemma sizes_consistent:
  assumes "(key, st) \<in> set (get_node_hugepage_sizes h dir)"
  shows "hs_used st = max (hs_total st - hs_free st) 0"
proof -
  define ok where "ok = (\<lambda>sizes :: (string, hugepage_stats) dict.
      \<forall>(key, st) \<in> set sizes. hs_used st = max (hs_total st - hs_free st) 0)"
  have step: "ok (add_size h dir entry sizes)" if "ok sizes" for entry sizes
    using that process_entry_consistent [of h "dir @ ''/'' @ entry"] set_dict_set
    by (fastforce simp: ok_def add_size_def split: option.splits)
  have loop: "ok (fold (add_size h dir) entries sizes)" if "ok sizes" for entries sizes
    using that by (induction entries arbitrary: sizes) (simp_all add: step)
  have nil: "ok []" by (simp add: ok_def)
  have "ok (get_node_hugepage_sizes h dir)"
    using loop [OF nil] nil by (cases "dir_entries h dir") (simp_all add: get_node_hugepage_sizes_def)
  then show ?thesis using assms by (auto simp: ok_def)
qed

lemma overlay_free_le: "hs_free (overlay_stats tracked st) \<le> max 0 (hs_free st)"
  by (auto simp: overlay_stats_def Let_def)

text \<open>What is left of the kernel's pages of a size after the larger of the kernel's use and the records.\<close>

definition pages_left :: "hugepage_stats \<Rightarrow> int \<Rightarrow> int" where
  "pages_left st tracked = max 0 (hs_total st - max (hs_total st - hs_free st) tracked)"

lemma overlay_left:
  assumes "(key, st) \<in> set (get_node_hugepage_sizes h dir)" "0 \<le> hs_free st" "hs_free st \<le> hs_total st"
  shows "hs_free (overlay_stats tracked st) = pages_left st tracked"
proof -
  have "hs_used st = hs_total st - hs_free st" using sizes_consistent [OF assms(1)] assms(3) by simp
  then show ?thesis using overlay_free(1) [OF assms(2,3)] by (simp add: pages_left_def)
qed

end
