(* ===== verification/Claims_Hugepages.thy ===== *)
theory Claims_Hugepages
  imports Example_Host Hugepage_Capacity Store_Progress
begin

text \<open>
  Properties of the hugepage records and of the capacity report: what a record operation changes,
  how the table survives JSON, what is reported as free, and what the hugepage handlers grant.
\<close>

section \<open>Records\<close>

lemma upsert_stored:
  assumes "reads_ints to_int" "pages_sound to_int s"
    and "upsert_allocation to_int now svc n k cnt m s = (Ret u, m', s')"
  obtains t t' where "durable s'" "stored_table to_int s = Some t" "stored_table to_int s' = Some t'"
    and "recorded m' = recorded t'"
    and "\<forall>svc' n' k'. recorded t' svc' n' k' =
      (if svc' = svc \<and> n' = n \<and> k' = k then Some cnt else recorded t svc' n' k')"
proof -
  obtain t where t: "durable s'" "stored_table to_int s = Some t" "m' = upsert_entry svc n k cnt t"
    "table_sound m'" "stored_table to_int s' = Some (sort_key fst m')"
    using hp_transaction_Ret [OF assms(1,2) keeps_table_operations(1) assms(3) [unfolded upsert_allocation_def]]
    by auto
  show thesis
    by (rule that [OF t(1,2,5) recorded_sorted [OF t(4), symmetric]])
      (simp add: recorded_sorted [OF t(4)]; simp add: t(3) recorded_upsert)
qed

lemma remove_stored:
  assumes "reads_ints to_int" "pages_sound to_int s"
    and "remove_allocation_for_key to_int now svc n k m s = (Ret b, m', s')"
  obtains t t' where "durable s'" "stored_table to_int s = Some t" "stored_table to_int s' = Some t'"
    and "recorded m' = recorded t'" and "b = (recorded t svc n k \<noteq> None)"
    and "\<forall>svc' n' k'. recorded t' svc' n' k' =
      (if svc' = svc \<and> n' = n \<and> k' = k then None else recorded t svc' n' k')"
proof -
  obtain t where t: "durable s'" "stored_table to_int s = Some t" "remove_entry svc n k t = (b, m')"
    "table_sound m'" "stored_table to_int s' = Some (sort_key fst m')"
    using hp_transaction_Ret [OF assms(1,2) keeps_table_operations(2) assms(3) [unfolded remove_allocation_for_key_def]]
    by auto
  have op: "b = (recorded t svc n k \<noteq> None)" "m' = snd (remove_entry svc n k t)"
    using remove_entry_found [of svc n k t] t(3) by simp_all
  show thesis
    by (rule that [OF t(1,2,5) recorded_sorted [OF t(4), symmetric] op(1)])
      (simp add: recorded_sorted [OF t(4)]; simp add: op(2) recorded_remove)
qed

text \<open>C30: Setting a record that returns has stored, durably, the given count under service, node and size,
  and nothing else; removing one that returns tells whether it existed, and afterwards it does not
  exist while all others do.\<close>

theorem hugepage_records_change_one_key:
  assumes "reads_ints to_int" "pages_sound to_int s"
  shows "(upsert_allocation to_int now svc n k cnt m s = (Ret u, m', s') \<longrightarrow>
      (\<exists>t t'. durable s' \<and> stored_table to_int s = Some t \<and> stored_table to_int s' = Some t' \<and>
        recorded m' = recorded t' \<and>
        (\<forall>svc' n' k'. recorded t' svc' n' k' =
           (if svc' = svc \<and> n' = n \<and> k' = k then Some cnt else recorded t svc' n' k')))) \<and>
    (remove_allocation_for_key to_int now svc n k m s = (Ret b, m', s') \<longrightarrow>
      (\<exists>t t'. durable s' \<and> stored_table to_int s = Some t \<and> stored_table to_int s' = Some t' \<and>
        recorded m' = recorded t' \<and> b = (recorded t svc n k \<noteq> None) \<and>
        (\<forall>svc' n' k'. recorded t' svc' n' k' =
           (if svc' = svc \<and> n' = n \<and> k' = k then None else recorded t svc' n' k'))))"
proof (intro conjI impI)
  assume "upsert_allocation to_int now svc n k cnt m s = (Ret u, m', s')"
  then show "\<exists>t t'. durable s' \<and> stored_table to_int s = Some t \<and> stored_table to_int s' = Some t' \<and>
        recorded m' = recorded t' \<and>
        (\<forall>svc' n' k'. recorded t' svc' n' k' =
           (if svc' = svc \<and> n' = n \<and> k' = k then Some cnt else recorded t svc' n' k'))"
    by (rule upsert_stored [OF assms]) blast
next
  assume "remove_allocation_for_key to_int now svc n k m s = (Ret b, m', s')"
  then show "\<exists>t t'. durable s' \<and> stored_table to_int s = Some t \<and> stored_table to_int s' = Some t' \<and>
        recorded m' = recorded t' \<and> b = (recorded t svc n k \<noteq> None) \<and>
        (\<forall>svc' n' k'. recorded t' svc' n' k' =
           (if svc' = svc \<and> n' = n \<and> k' = k then None else recorded t svc' n' k'))"
    by (rule remove_stored [OF assms]) blast
qed

lemma example_pages_sound: "pages_sound example_to_int example_store"
  using example_store_sound by (simp add: store_sound_def)

theorem hugepage_records_change_one_key_witness:
  "\<exists>m' s' t'. upsert_allocation example_to_int ''now'' ''a'' 0 2048 4 [] example_store = (Ret (), m', s') \<and>
     stored_table example_to_int s' = Some t' \<and> recorded t' ''a'' 0 2048 = Some 4"
proof -
  have "case upsert_allocation example_to_int ''now'' ''a'' 0 2048 4 [] example_store of
      (Ret u, m', s') \<Rightarrow> True | _ \<Rightarrow> False" by code_simp
  then obtain m' s' where run: "upsert_allocation example_to_int ''now'' ''a'' 0 2048 4 [] example_store
      = (Ret (), m', s')"
    by (auto split: prod.splits outcome.splits)
  from hugepage_records_change_one_key [OF example_to_int_reads example_pages_sound, THEN conjunct1,
      rule_format, OF this] run
  show ?thesis by auto
qed

text \<open>A sound table saved into the section and loaded again is the same table with its services in
  key order.\<close>

theorem hugepage_table_roundtrip:
  assumes "reads_ints to_int" "table_sound t" "dict_ok data"
  shows "restore_allocations to_int (dump_load (dict_set ''allocations'' (table_json t) data)) = sort_key fst t \<and>
    recorded (sort_key fst t) = recorded t"
  using restore_saved [OF reads_intsD [OF assms(1)] assms(2,3)] recorded_sorted [OF assms(2)] by blast

definition example_table :: hugepage_table where
  "example_table = [(''b'', [\<lparr>hp_node_id = 0, hp_size_kb = 2048, hp_count = 4\<rparr>,
     \<lparr>hp_node_id = 1, hp_size_kb = 2048, hp_count = 2\<rparr>]),
     (''a'', [\<lparr>hp_node_id = 0, hp_size_kb = 1048576, hp_count = 1\<rparr>])]"

theorem hugepage_table_roundtrip_witness:
  "restore_allocations example_to_int (dump_load [(''allocations'', table_json example_table)])
     = sort_key fst example_table"
proof -
  have "table_sound example_table" by code_simp
  from hugepage_table_roundtrip [OF example_to_int_reads this, of "[]"] show ?thesis by simp
qed

section \<open>The report\<close>

text \<open>C39: For a size whose kernel counts are consistent, the report gives the kernel's total and, as free,
  what is left of it after the larger of the kernel's use and the pages recorded on the node for
  this size; never a negative number.\<close>

theorem reported_free_pages:
  assumes "(str_int k, st) \<in> set sizes" "0 \<le> k" "\<forall>i \<in> set items. 0 \<le> nha_size_kb i"
    and "0 \<le> hs_free st" "hs_free st \<le> hs_total st" "hs_used st = hs_total st - hs_free st"
  shows "\<lparr>ue_total = hs_total st, ue_free = max 0 (hs_total st - max (hs_used st) (node_total items k)),
      ue_size = k\<rparr> \<in> set (nhi_capacity (node_info sizes (node_allocations items)))"
proof -
  let ?tracked = "dict_get (tracked_per_size (node_allocations items)) (str_int k) 0"
  have tr: "?tracked = node_total items k" by (rule node_allocations_total(2) [OF assms(3,2)])
  have size: "read_int (str_int k) = Some k"
    using py_int_str_int [OF assms(2)] by (auto simp: py_int_def split: option.splits)
  have "capacity_entry (str_int k, overlay_stats ?tracked st) =
      \<lparr>ue_total = hs_total st, ue_free = max 0 (hs_total st - max (hs_used st) (node_total items k)), ue_size = k\<rparr>"
    using overlay_free [OF assms(4-6), of ?tracked] unfolding tr by (simp add: capacity_entry_def size)
  then show ?thesis using assms(1) by (force simp: node_info_def Let_def)
qed

theorem reported_free_pages_witness:
  "\<lparr>ue_total = 10, ue_free = 6, ue_size = 2048\<rparr> \<in> set (nhi_capacity (node_info
     [(''2048'', \<lparr>hs_total = 10, hs_free = 8, hs_used = 2, hs_surplus = 0\<rparr>)]
     (node_allocations [\<lparr>nha_service_name = ''a'', nha_size_kb = 2048, nha_count = 4\<rparr>])))"
proof -
  let ?st = "\<lparr>hs_total = 10, hs_free = 8, hs_used = 2, hs_surplus = 0\<rparr>"
  let ?items = "[\<lparr>nha_service_name = ''a'', nha_size_kb = 2048, nha_count = 4\<rparr>]"
  have key: "(str_int 2048, ?st) \<in> set [(''2048'', ?st)]" by code_simp
  have "node_total ?items 2048 = 4" by (simp add: node_total_def)
  then show ?thesis using reported_free_pages [OF key, of ?items] by simp
qed

section \<open>Requests\<close>

lemma bind_s_Ret_iff:
  "bind_s f g m s = (Ret x, m', s') \<longleftrightarrow>
   (\<exists>y m1 s1. f m s = (Ret y, m1, s1) \<and> g y m1 s1 = (Ret x, m', s'))"
  by (auto simp: bind_s_def split: prod.splits outcome.splits)

text \<open>A handler's success has passed the capacity check and recorded the count.\<close>

lemma hugepages_success:
  assumes "ahr_hugepages_requested r \<noteq> - 1"
    and "handle_allocate_hugepages env r m s = (Ret (HugepagesResponse resp), m', s')"
  obtains m1 s1 where "check_hugepage_capacity env r m s = (Ret None, m1, s1)"
    and "upsert_allocation (env_to_int env) (env_now env) (ahr_service_name r) (ahr_node_id r) (ahr_size_kb r)
      (ahr_hugepages_requested r) m1 s1 = (Ret (), m', s')"
    and "hpr_hugepages_requested resp = ahr_hugepages_requested r"
proof -
  have "bind_s (check_hugepage_capacity env r) (\<lambda>refusal.
            case refusal of
              Some m \<Rightarrow> return_s (ErrorResponse m)
            | None \<Rightarrow>
                bind_s (upsert_allocation (env_to_int env) (env_now env) (ahr_service_name r)
                          (ahr_node_id r) (ahr_size_kb r) (ahr_hugepages_requested r)) (\<lambda>_.
                  return_s (hugepages_response r
                    (''Successfully set allocation request to '' @ str_int (ahr_hugepages_requested r)
                       @ '' hugepages'')))) m s = (Ret (HugepagesResponse resp), m', s')"
    using assms unfolding handle_allocate_hugepages_def try_s_def
    by (auto simp: return_s_def split: prod.splits outcome.splits if_splits)
  then show thesis
    using that
    by (auto simp: bind_s_Ret_iff [of "check_hugepage_capacity env r"] bind_s_Ret_iff [of "upsert_allocation _ _ _ _ _ _"]
        return_s_def hugepages_response_def split: option.splits)
qed

text \<open>What passing the check says.\<close>

lemma check_passes:
  assumes "0 < ahr_hugepages_requested r" "check_hugepage_capacity env r m s = (Ret None, m', s')"
  shows "\<exists>free existing. get_hugepages_context env (ahr_service_name r) (ahr_node_id r) (ahr_size_kb r) m s
      = (Ret (Inr (free, existing)), m', s') \<and>
    (ahr_hugepages_requested r \<le> existing \<or> ahr_hugepages_requested r - existing \<le> free)"
proof -
  obtain y m2 s2 where y: "get_hugepages_context env (ahr_service_name r) (ahr_node_id r) (ahr_size_kb r) m s
      = (Ret y, m2, s2)"
    using assms unfolding check_hugepage_capacity_def by (auto simp: bind_s_Ret_iff)
  show ?thesis
    using assms y unfolding check_hugepage_capacity_def
    by (cases y) (auto simp: bind_s_Ret_iff return_s_def Let_def split: if_splits)
qed

text \<open>C29: A positive hugepage request that is answered with success has been recorded exactly as asked,
  durably, and the pages it adds to what the stored table recorded for this very service, node and
  size were free: no more than the kernel reports free in a directory of this node, and, where the
  kernel's counts are consistent, no more than its total less the larger of its own use and the
  pages all services have recorded on the node.\<close>

theorem hugepage_grant_fits:
  assumes "reads_ints (env_to_int env)" "pages_sound (env_to_int env) s" "0 < ahr_hugepages_requested r"
    and "handle_allocate_hugepages env r m s = (Ret (HugepagesResponse resp), m', s')"
  shows "\<exists>t t' free node_dir key st. stored_table (env_to_int env) s = Some t \<and>
    (ahr_hugepages_requested r \<le> recorded_count t (ahr_service_name r) (ahr_node_id r) (ahr_size_kb r) \<or>
     ahr_hugepages_requested r - recorded_count t (ahr_service_name r) (ahr_node_id r) (ahr_size_kb r) \<le> free) \<and>
    node_dir \<in> set (list_node_dirs (env_host env)) \<and> node_number node_dir = ahr_node_id r \<and>
    (key, st) \<in> set (get_node_hugepage_sizes (env_host env) (node_base @ ''/'' @ node_dir @ ''/hugepages'')) \<and>
    ue_size (capacity_entry (key, st)) = ahr_size_kb r \<and> free \<le> max 0 (hs_free st) \<and>
    (key = str_int (ahr_size_kb r) \<and> 0 \<le> hs_free st \<and> hs_free st \<le> hs_total st \<longrightarrow>
       free = pages_left st (pages_recorded t (ahr_node_id r) (ahr_size_kb r))) \<and>
    stored_table (env_to_int env) s' = Some t' \<and> durable s' \<and>
    recorded t' (ahr_service_name r) (ahr_node_id r) (ahr_size_kb r) = Some (ahr_hugepages_requested r) \<and>
    hpr_hugepages_requested resp = ahr_hugepages_requested r"
proof -
  let ?svc = "ahr_service_name r" and ?n = "ahr_node_id r" and ?k = "ahr_size_kb r"
  have ne: "ahr_hugepages_requested r \<noteq> - 1" using assms(3) by simp
  obtain m1 s1 where chk: "check_hugepage_capacity env r m s = (Ret None, m1, s1)"
    and up: "upsert_allocation (env_to_int env) (env_now env) ?svc ?n ?k (ahr_hugepages_requested r) m1 s1
      = (Ret (), m', s')"
    and resp: "hpr_hugepages_requested resp = ahr_hugepages_requested r"
    by (rule hugepages_success [OF ne assms(4)])
  from check_passes [OF assms(3) chk] obtain free existing where
    ctx: "get_hugepages_context env ?svc ?n ?k m s = (Ret (Inr (free, existing)), m1, s1)"
    and fits: "ahr_hugepages_requested r \<le> existing \<or> ahr_hugepages_requested r - existing \<le> free" by blast
  have reads: "untouched s s1" by (rule reads_onlyD [OF capacity_reads chk])
  obtain t t' where t: "durable s'" "stored_table (env_to_int env) s1 = Some t" "stored_table (env_to_int env) s' = Some t'"
    "recorded t' ?svc ?n ?k = Some (ahr_hugepages_requested r)"
    using upsert_stored [OF assms(1) untouched_pages [OF reads assms(2)] up] by (metis (full_types))
  have old: "stored_table (env_to_int env) s = Some t"
    using t(2) untouched_fields(1) [OF reads] by (simp add: stored_table_def)
  have sound: "table_sound t" by (rule stored_table_sound [OF assms(2) old])
  from context_answer [OF ctx old sound] obtain node_dir key st where
    c: "existing = recorded_count t ?svc ?n ?k" "node_dir \<in> set (list_node_dirs (env_host env))"
      "node_number node_dir = ?n" "ue_size (capacity_entry (key, st)) = ?k"
      "(key, st) \<in> set (get_node_hugepage_sizes (env_host env) (node_base @ ''/'' @ node_dir @ ''/hugepages''))"
      "free = hs_free (overlay_stats (tracked_pages t ?n key) st)" by blast
  have "free \<le> max 0 (hs_free st)" using c(6) overlay_free_le by simp
  moreover have "key = str_int ?k \<and> 0 \<le> hs_free st \<and> hs_free st \<le> hs_total st \<longrightarrow>
       free = pages_left st (pages_recorded t ?n ?k)"
    using overlay_left [OF c(5)] tracked_pages_recorded [OF sound] c(6) by simp
  ultimately show ?thesis using old fits c(1-5) t(1,3,4) resp by blast
qed

text \<open>The example host with ten pages of 2 MiB on node 0, eight of them free.\<close>

definition pages_host :: host where
  "pages_host = \<lparr>file_text = map_of
       [(''/sys/devices/system/node/node0/hugepages/hugepages-2048kB/nr_hugepages'', ''10''),
        (''/sys/devices/system/node/node0/hugepages/hugepages-2048kB/free_hugepages'', ''8'')],
     dir_entries = map_of [(''/sys/devices/system/node'', [''node0'']),
       (''/sys/devices/system/node/node0/hugepages'', [''hugepages-2048kB''])],
     path_exists = (\<lambda>p. p \<noteq> ''/sys/devices/system/node/node0/hugepages/hugepages-2048kB/surplus_hugepages'')\<rparr>"

definition pages_env :: env where
  "pages_env = example_env\<lparr>env_host := pages_host\<rparr>"

lemma pages_env_reads: "reads_ints (env_to_int pages_env)"
  using example_to_int_reads by (simp add: pages_env_def example_env_def)

text \<open>Service \<open>a\<close> has recorded three pages on the node and \<open>b\<close> four: two more for \<open>a\<close> fit into the three left.\<close>

definition pages_document :: doc where
  "pages_document = [(''hugepages_db'', JObj [(''allocations'', table_json
     [(''a'', [\<lparr>hp_node_id = 0, hp_size_kb = 2048, hp_count = 3\<rparr>]),
      (''b'', [\<lparr>hp_node_id = 0, hp_size_kb = 2048, hp_count = 4\<rparr>])])])]"

definition pages_store :: store where
  "pages_store = (fresh_store ''state.json'')\<lparr>state_file := Json (JObj (dump_load pages_document)),
     maybe_data := [Json (JObj (dump_load pages_document))]\<rparr>"

lemma pages_store_sound: "pages_sound example_to_int pages_store"
proof -
  have files: "maybe_files pages_store = [state_file pages_store]"
    by (simp add: pages_store_def fresh_store_def maybe_files_def)
  have "store_ok pages_store" by code_simp
  moreover have "case section_of ''hugepages_db'' (state_file pages_store) of None \<Rightarrow> False
      | Some c \<Rightarrow> hp_content_sound example_to_int c" by code_simp
  ultimately show ?thesis
    by (simp add: pages_sound_def hugepage_section.contents_satisfy_def files split: option.splits)
qed

theorem hugepage_grant_fits_witness:
  "\<exists>resp m' s' t'. handle_allocate_hugepages pages_env (hugepages_request ''a'' 5) [] pages_store
     = (Ret (HugepagesResponse resp), m', s') \<and>
     stored_table example_to_int s' = Some t' \<and> recorded t' ''a'' 0 2048 = Some 5"
proof -
  have "case handle_allocate_hugepages pages_env (hugepages_request ''a'' 5) [] pages_store of
      (Ret (HugepagesResponse resp), m', s') \<Rightarrow> True | _ \<Rightarrow> False" by code_simp
  then obtain resp m' s' where run: "handle_allocate_hugepages pages_env (hugepages_request ''a'' 5) [] pages_store
      = (Ret (HugepagesResponse resp), m', s')"
    by (auto split: prod.splits outcome.splits epa_response.splits)
  have env: "env_to_int pages_env = example_to_int" by (simp add: pages_env_def example_env_def)
  have req: "ahr_hugepages_requested (hugepages_request ''a'' 5) = 5"
    "ahr_service_name (hugepages_request ''a'' 5) = ''a''" "ahr_node_id (hugepages_request ''a'' 5) = 0"
    "ahr_size_kb (hugepages_request ''a'' 5) = 2048" by (simp_all add: hugepages_request_def)
  show ?thesis
    using hugepage_grant_fits [OF pages_env_reads _ _ run] pages_store_sound run unfolding env req by auto
qed

text \<open>On an open store whose system calls succeed, setting a record returns.\<close>

lemma calm_upsert:
  assumes "fates s = []" "\<not> blocked s" "stored_table to_int s = Some t"
  shows "\<exists>m' s'. upsert_allocation to_int now svc n k cnt m s = (Ret (), m', s')"
proof -
  obtain d c where d: "doc_of (state_file s) = Some d" "section_content ''hugepages_db'' d = Inr c"
    using assms(3) by (auto simp: stored_table_def section_of_Some)
  obtain cand doc where "hp_update to_int (\<lambda>t. ((), upsert_entry svc n k cnt t)) c = Inr (doc, (), cand)"
    by (simp add: hp_update_def)
  from calm_commit [where update = "hp_update to_int (\<lambda>t. ((), upsert_entry svc n k cnt t))", OF assms(1,2) d this]
  obtain s' where
    "transaction_section ''hugepages_db'' (hp_update to_int (\<lambda>t. ((), upsert_entry svc n k cnt t))) now s
      = (Ret ((), cand), s')" by blast
  then show ?thesis by (simp add: upsert_allocation_def hp_transaction_def)
qed

text \<open>C40: The capacity check is skipped for a negative number of hugepages. Such a request other than -1
  passes the validation of requests, and on an open store whose system calls succeed it is answered
  with success and recorded as it is, whatever the host's nodes, sizes and free pages are, also
  when the host has none of them.\<close>

theorem negative_hugepages_are_recorded:
  assumes "reads_ints (env_to_int env)" "pages_sound (env_to_int env) s" "ahr_hugepages_requested r < - 1"
    and "fates s = []" "\<not> blocked s" "stored_table (env_to_int env) s = Some t"
  shows "validate_hugepages_requested (ahr_hugepages_requested r) = Inr (ahr_hugepages_requested r) \<and>
    (\<exists>resp m' s' t'. handle_allocate_hugepages env r m s = (Ret (HugepagesResponse resp), m', s') \<and>
      hpr_allocation_successful resp \<and> stored_table (env_to_int env) s' = Some t' \<and>
      (\<forall>svc n k. recorded t' svc n k = (if svc = ahr_service_name r \<and> n = ahr_node_id r \<and> k = ahr_size_kb r
         then Some (ahr_hugepages_requested r) else recorded t svc n k)))"
proof -
  let ?svc = "ahr_service_name r" and ?n = "ahr_node_id r" and ?k = "ahr_size_kb r" and ?c = "ahr_hugepages_requested r"
  obtain m' s' where up: "upsert_allocation (env_to_int env) (env_now env) ?svc ?n ?k ?c m s = (Ret (), m', s')"
    using calm_upsert [OF assms(4,5,6)] by blast
  have "check_hugepage_capacity env r = return_s None" using assms(3) by (simp add: check_hugepage_capacity_def)
  then have run: "\<exists>resp. handle_allocate_hugepages env r m s = (Ret (HugepagesResponse resp), m', s') \<and>
      hpr_allocation_successful resp"
    using up assms(3)
    by (simp add: handle_allocate_hugepages_def try_s_def bind_s_def return_s_def hugepages_response_def)
  obtain t0 t' where t: "stored_table (env_to_int env) s = Some t0" "stored_table (env_to_int env) s' = Some t'"
    "\<forall>svc n k. recorded t' svc n k = (if svc = ?svc \<and> n = ?n \<and> k = ?k then Some ?c else recorded t0 svc n k)"
    using upsert_stored [OF assms(1,2) up] by (metis (full_types))
  have "validate_hugepages_requested ?c = Inr ?c" using assms(3) by (simp add: validate_hugepages_requested_def)
  then show ?thesis using run t assms(6) by auto
qed

text \<open>The example host has no hugepages at all.\<close>

theorem negative_hugepages_are_recorded_witness:
  "(case get_numa_hugepages_info example_host example_to_int [] example_store of
     (Ret nodes, m', s') \<Rightarrow> list_all (\<lambda>(key, info). nhi_capacity info = []) nodes | _ \<Rightarrow> False) \<and>
   (\<exists>resp m' s' t'. handle_allocate_hugepages example_env (hugepages_request ''a'' (- 5)) [] example_store
     = (Ret (HugepagesResponse resp), m', s') \<and> hpr_allocation_successful resp \<and>
     stored_table example_to_int s' = Some t' \<and> recorded t' ''a'' 0 2048 = Some (- 5))"
proof
  have env: "env_to_int example_env = example_to_int" by (simp add: example_env_def)
  have req: "ahr_hugepages_requested (hugepages_request ''a'' (- 5)) = - 5"
    "ahr_service_name (hugepages_request ''a'' (- 5)) = ''a''" "ahr_node_id (hugepages_request ''a'' (- 5)) = 0"
    "ahr_size_kb (hugepages_request ''a'' (- 5)) = 2048" by (simp_all add: hugepages_request_def)
  have "fates example_store = []" "\<not> blocked example_store" by code_simp+
  moreover have "case stored_table example_to_int example_store of None \<Rightarrow> False | Some t \<Rightarrow> True" by code_simp
  then obtain t where "stored_table example_to_int example_store = Some t" by (auto split: option.splits)
  ultimately show "\<exists>resp m' s' t'. handle_allocate_hugepages example_env (hugepages_request ''a'' (- 5)) [] example_store
     = (Ret (HugepagesResponse resp), m', s') \<and> hpr_allocation_successful resp \<and>
     stored_table example_to_int s' = Some t' \<and> recorded t' ''a'' 0 2048 = Some (- 5)"
    using negative_hugepages_are_recorded [of example_env example_store "hugepages_request ''a'' (- 5)", unfolded env req]
      example_to_int_reads example_pages_sound by fastforce
  show "(case get_numa_hugepages_info example_host example_to_int [] example_store of
     (Ret nodes, m', s') \<Rightarrow> list_all (\<lambda>(key, info). nhi_capacity info = []) nodes | _ \<Rightarrow> False)" by code_simp
qed

text \<open>The hugepage and memory handlers never raise, whatever fails underneath: every exception, the
  corruption of the state included, becomes an error answer.\<close>

theorem hugepage_handlers_never_raise:
  "fst (handle_allocate_hugepages env r m s) \<noteq> Raise e \<and> fst (handle_get_memory_info env g m s) \<noteq> Raise e"
proof -
  have never: "fst (try_s f (\<lambda>e. return_s (h e)) m s) \<noteq> Raise e"
    for f and h :: "py_error \<Rightarrow> epa_response" and m :: hugepage_table
    by (auto simp: try_s_def return_s_def split: prod.splits outcome.splits)
  show ?thesis unfolding handle_allocate_hugepages_def handle_get_memory_info_def Let_def
    by (intro conjI never)
qed

end
