(* ===== verification/Calm_Runs.thy ===== *)
theory Calm_Runs
  imports Value_Errors Store_Progress
begin

text \<open>
  The daemon when no system call fails: on a sound store every session of a database returns or
  raises an exception other than corruption, so every request is answered and the daemon starts.
\<close>

section \<open>The store\<close>

primrec corruption :: "py_error \<Rightarrow> bool" where
  "corruption (ValueError m) = False"
| "corruption (StateCorruptionError m) = True"
| "corruption (StateUncertainError m) = False"
| "corruption (OSError m) = False"
| "corruption (OtherError m) = False"

lemma value_error_no_corruption: "is_value_error e \<Longrightarrow> \<not> corruption e"
  by (cases e) auto

lemma section_on_disk:
  assumes "section_of n (state_file s) = Some c"
  obtains "state_file s = Missing" "section_content n [] = Inr c"
  | d where "state_file s = Json (JObj d)" "section_content n d = Inr c"
  using assms unfolding section_of_Some doc_of_def
  by (auto split: disk_file.splits json.splits)

lemma calm_read:
  assumes "fates s = []" "section_of n (state_file s) = Some c"
  shows "\<exists>t. read_section n s = (Ret c, t) \<and> fates t = []"
proof -
  have "wp (read_section n) (\<lambda>x t. x = c \<and> fates t = []) (\<lambda>e t. False) (\<lambda>t. False) s"
    using assms(2)
    by (rule section_on_disk)
      (simp_all add: read_section_def store_ops store_simps wp_syscall_calm assms(1) parse_state_def)
  then show ?thesis by (auto simp: wp_def split: prod.splits outcome.splits)
qed

lemma calm_transaction_section:
  assumes "fates s = []" "section_of n (state_file s) = Some c"
  shows "\<exists>out t. transaction_section n u now s = (out, t) \<and> fates t = [] \<and>
    (out = Raise uncertain_commit \<or> (\<exists>e. u c = Inl e \<and> out = Raise e) \<or> (\<exists>r x. u c = Inr (r, x) \<and> out = Ret x))"
proof -
  let ?Q = "\<lambda>out t. fates t = [] \<and>
    (out = Raise uncertain_commit \<or> (\<exists>e. u c = Inl e \<and> out = Raise e) \<or> (\<exists>r x. u c = Inr (r, x) \<and> out = Ret x))"
  have "wp (transaction_section n u now) (\<lambda>x. ?Q (Ret x)) (\<lambda>e. ?Q (Raise e)) (\<lambda>t. False) s"
    using assms(2)
    by (rule section_on_disk; cases "u c")
      (auto simp: store_ops store_simps wp_syscall_calm assms(1) parse_state_def split: prod.split)
  then show ?thesis by (auto simp: wp_def split: prod.splits outcome.splits)
qed

section \<open>Sessions\<close>

text \<open>On a sound store without failing system calls the session ends, without a corruption error.\<close>

definition calm :: "(json \<Rightarrow> int option) \<Rightarrow> ('m, 'a) session \<Rightarrow> bool" where
  "calm to_int f \<longleftrightarrow> (\<forall>m s. store_sound to_int s \<longrightarrow> fates s = [] \<longrightarrow>
     (case f m s of
        (Ret x, m', s') \<Rightarrow> store_sound to_int s' \<and> fates s' = []
      | (Raise e, m', s') \<Rightarrow> \<not> corruption e \<and> store_sound to_int s' \<and> fates s' = []
      | (Crash, m', s') \<Rightarrow> False))"

named_theorems calm_intros \<open>sessions that end on a sound store\<close>

lemma calmI:
  assumes "keeps_store to_int f"
    and "\<And>m s. store_sound to_int s \<Longrightarrow> fates s = [] \<Longrightarrow>
      \<exists>out m' s'. f m s = (out, m', s') \<and> fates s' = [] \<and> (case out of Ret x \<Rightarrow> True | Raise e \<Rightarrow> \<not> corruption e | Crash \<Rightarrow> False)"
  shows "calm to_int f"
  unfolding calm_def
proof (intro allI impI)
  fix m s assume s: "store_sound to_int s" "fates s = []"
  from assms(2) [OF this, of m] obtain out m' s' where run: "f m s = (out, m', s')" "fates s' = []"
    "case out of Ret x \<Rightarrow> True | Raise e \<Rightarrow> \<not> corruption e | Crash \<Rightarrow> False" by blast
  moreover have "store_sound to_int s'" by (rule keeps_storeD [OF assms(1) s(1) run(1)])
  ultimately show "case f m s of
        (Ret x, m', s') \<Rightarrow> store_sound to_int s' \<and> fates s' = []
      | (Raise e, m', s') \<Rightarrow> \<not> corruption e \<and> store_sound to_int s' \<and> fates s' = []
      | (Crash, m', s') \<Rightarrow> False" by (cases out) auto
qed

lemma calmE:
  assumes "calm to_int f" "store_sound to_int s" "fates s = []"
  obtains x m' s' where "f m s = (Ret x, m', s')" "store_sound to_int s'" "fates s' = []"
  | e m' s' where "f m s = (Raise e, m', s')" "\<not> corruption e" "store_sound to_int s'" "fates s' = []"
proof -
  obtain out m' s' where run: "f m s = (out, m', s')" using prod_cases3 by blast
  have "case f m s of
        (Ret x, m', s') \<Rightarrow> store_sound to_int s' \<and> fates s' = []
      | (Raise e, m', s') \<Rightarrow> \<not> corruption e \<and> store_sound to_int s' \<and> fates s' = []
      | (Crash, m', s') \<Rightarrow> False"
    by (rule assms(1) [unfolded calm_def, rule_format, OF assms(2,3)])
  then show thesis using that run by (cases out) simp_all
qed

lemma calm_return [calm_intros]: "calm to_int (return_s x)"
  and calm_raise [calm_intros]: "\<not> corruption e \<Longrightarrow> calm to_int (raise_s e)"
  by (auto simp: calm_def)

lemma calm_lift [calm_intros]: "value_errors r \<Longrightarrow> calm to_int (lift_s r)"
  by (cases r) (auto simp: calm_def value_errors_def value_error_no_corruption)

lemma calm_bind [calm_intros]:
  assumes "calm to_int f" "\<And>x. calm to_int (g x)"
  shows "calm to_int (bind_s f g)"
  unfolding calm_def
proof (intro allI impI)
  fix m s assume s: "store_sound to_int s" "fates s = []"
  show "case bind_s f g m s of
        (Ret x, m', s') \<Rightarrow> store_sound to_int s' \<and> fates s' = []
      | (Raise e, m', s') \<Rightarrow> \<not> corruption e \<and> store_sound to_int s' \<and> fates s' = []
      | (Crash, m', s') \<Rightarrow> False"
  proof (rule calmE [OF assms(1) s, of m], goal_cases)
    case (1 x m' s')
    then show ?case using assms(2) [of x] by (simp add: bind_s_def calm_def)
  qed (simp add: bind_s_def)
qed

lemma calm_try [calm_intros]:
  assumes "calm to_int f" "\<And>e. calm to_int (h e)"
  shows "calm to_int (try_s f h)"
  unfolding calm_def
proof (intro allI impI)
  fix m s assume s: "store_sound to_int s" "fates s = []"
  show "case try_s f h m s of
        (Ret x, m', s') \<Rightarrow> store_sound to_int s' \<and> fates s' = []
      | (Raise e, m', s') \<Rightarrow> \<not> corruption e \<and> store_sound to_int s' \<and> fates s' = []
      | (Crash, m', s') \<Rightarrow> False"
  proof (rule calmE [OF assms(1) s, of m], goal_cases)
    case (2 e m' s')
    then show ?case using assms(2) [of e] by (simp add: try_s_def calm_def)
  qed (simp add: try_s_def)
qed

lemma calm_fold [calm_intros]: "(\<And>x a. calm to_int (f x a)) \<Longrightarrow> calm to_int (fold_s f xs a)"
  by (induction xs arbitrary: a) (auto intro!: calm_intros)

section \<open>The two databases\<close>

lemma sound_ledger_content:
  assumes "store_sound to_int s"
  obtains c db where "section_of ''allocations_db'' (state_file s) = Some c"
    "\<And>mem. load_snapshot c mem = (Inr (), db)" "wf_ledger db"
proof -
  have "state_file s \<in> set (maybe_files s)" using store_ok_visible [OF store_sound_ok [OF assms]] .
  from sound_file_ledger [OF assms this] obtain c db where
    "section_of ''allocations_db'' (state_file s) = Some c" "ledger_in c = Some db" "wf_ledger db" by blast
  then show thesis using that load_snapshot_fresh by (metis ledger_in_Some)
qed

lemma calm_load:
  assumes "store_sound to_int s" "fates s = []"
  shows "\<exists>db t. load_from_store mem s = (Ret (), db, t) \<and> fates t = [] \<and> wf_ledger db \<and> stored_ledger s = Some db"
proof -
  obtain c db where c: "section_of ''allocations_db'' (state_file s) = Some c"
    "\<And>mem. load_snapshot c mem = (Inr (), db)" "wf_ledger db" using sound_ledger_content [OF assms(1)] by blast
  obtain t where "read_section ''allocations_db'' s = (Ret c, t)" "fates t = []"
    using calm_read [OF assms(2) c(1)] by blast
  then show ?thesis using c by (auto simp: load_from_store_def stored_ledger_def ledger_in_Some)
qed

lemma calm_fresh_read [calm_intros]:
  assumes "\<And>db. value_errors (f db)"
  shows "calm to_int (fresh_read f)"
proof (rule calmI [OF keeps_store_reads [OF fresh_read_reads]])
  fix m s assume s: "store_sound to_int s" "fates s = []"
  obtain db t where "load_from_store m s = (Ret (), db, t)" "fates t = []"
    using calm_load [OF s, of m] by blast
  then show "\<exists>out m' s'. fresh_read f m s = (out, m', s') \<and> fates s' = [] \<and>
      (case out of Ret x \<Rightarrow> True | Raise e \<Rightarrow> \<not> corruption e | Crash \<Rightarrow> False)"
    using value_errorsD [OF assms, of db] value_error_no_corruption
    by (cases "f db") (auto simp: fresh_read_def)
qed

lemma calm_transaction [calm_intros]:
  assumes "keeps_ledger operation" "\<And>db. value_errors (operation db)"
  shows "calm to_int (transaction operation now)"
proof (rule calmI [OF keeps_store_transaction [OF assms(1)]])
  fix m s assume s: "store_sound to_int s" "fates s = []"
  obtain c db where c: "section_of ''allocations_db'' (state_file s) = Some c"
    "\<And>mem. load_snapshot c mem = (Inr (), db)" "wf_ledger db" using sound_ledger_content [OF s(1)] by blast
  have upd: "txn_update operation c = bindE (operation db) (\<lambda>(x, db'). Inr (snapshot db', x, db'))"
    using c(2) by (simp add: txn_update_def)
  obtain out t where t: "transaction_section ''allocations_db'' (txn_update operation) now s = (out, t)" "fates t = []"
    and out: "out = Raise uncertain_commit \<or> (\<exists>e. txn_update operation c = Inl e \<and> out = Raise e) \<or>
      (\<exists>r x. txn_update operation c = Inr (r, x) \<and> out = Ret x)"
    using calm_transaction_section [OF s(2) c(1), of "txn_update operation" now] by blast
  note sound = ledger_section_sound [OF s(1) assms(1) t(1)]
  have reload: "\<exists>db' u. load_from_store m t = (Ret (), db', u) \<and> fates u = []"
    using calm_load [OF sound t(2), of m] by blast
  from out show "\<exists>out m' s'. transaction operation now m s = (out, m', s') \<and> fates s' = [] \<and>
      (case out of Ret x \<Rightarrow> True | Raise e \<Rightarrow> \<not> corruption e | Crash \<Rightarrow> False)"
  proof (elim disjE exE conjE)
    assume o: "out = Raise uncertain_commit"
    then show ?thesis using reload t o by (auto simp: transaction_def uncertain_commit_def)
  next
    fix e assume o: "out = Raise e" "txn_update operation c = Inl e"
    then have "operation db = Inl e" by (auto simp: upd bindE_eq_Inl)
    then have "\<not> corruption e" using value_errorsD [OF assms(2)] value_error_no_corruption by blast
    then show ?thesis using reload t o(1) by (auto simp: transaction_def)
  next
    fix r x assume o: "out = Ret x" "txn_update operation c = Inr (r, x)"
    then obtain y db' where x: "x = (y, db')" "operation db = Inr (y, db')" by (auto simp: upd)
    then have "wf_ledger db'" using keeps_ledgerD [OF assms(1) c(3)] by blast
    then have "load_snapshot (snapshot db') m = (Inr (), db')" by (simp add: load_snapshot_snapshot wf_ledgerD)
    then show ?thesis using t o(1) x by (auto simp: transaction_def)
  qed
qed

lemma calm_hp_load:
  assumes "store_sound to_int s" "fates s = []"
  shows "\<exists>table t. hp_load to_int m s = (Ret (), table, t) \<and> fates t = [] \<and> table_sound table"
proof -
  have "state_file s \<in> set (maybe_files s)" using store_ok_visible [OF store_sound_ok [OF assms(1)]] .
  from sound_file_table [OF assms(1) this] obtain c where
    c: "section_of ''hugepages_db'' (state_file s) = Some c" "table_sound (restore_allocations to_int c)" by blast
  obtain t where "read_section ''hugepages_db'' s = (Ret c, t)" "fates t = []"
    using calm_read [OF assms(2) c(1)] by blast
  then show ?thesis using c by (auto simp: hp_load_def)
qed

lemma calm_hp_loads [calm_intros]: "calm to_int (hp_load to_int)"
proof (rule calmI [OF keeps_store_reads [OF hp_load_reads]])
  fix m s assume s: "store_sound to_int s" "fates s = []"
  show "\<exists>out m' s'. hp_load to_int m s = (out, m', s') \<and> fates s' = [] \<and>
      (case out of Ret x \<Rightarrow> True | Raise e \<Rightarrow> \<not> corruption e | Crash \<Rightarrow> False)"
    using calm_hp_load [OF s, of m] by auto
qed

lemma calm_hp_transaction [calm_intros]:
  assumes "reads_ints to_int" "keeps_table operation"
  shows "calm to_int (hp_transaction to_int operation now)"
proof (rule calmI [OF keeps_store_hp [OF assms]])
  fix m s assume s: "store_sound to_int s" "fates s = []"
  have "state_file s \<in> set (maybe_files s)" using store_ok_visible [OF store_sound_ok [OF s(1)]] .
  from sound_file_table [OF s(1) this] obtain c where
    c: "section_of ''hugepages_db'' (state_file s) = Some c" by blast
  obtain x table where op: "operation (restore_allocations to_int c) = (x, table)" by fastforce
  obtain out t where t: "transaction_section ''hugepages_db'' (hp_update to_int operation) now s = (out, t)" "fates t = []"
    and out: "out = Raise uncertain_commit \<or> out = Ret (x, table)"
    using calm_transaction_section [OF s(2) c, of "hp_update to_int operation" now] op
    by (auto simp: hp_update_def)
  obtain table' u where "hp_load to_int m t = (Ret (), table', u)" "fates u = []"
    using calm_hp_load [OF pages_section_sound [OF assms(1) s(1) assms(2) t(1)] t(2), of m] by blast
  then show "\<exists>out m' s'. hp_transaction to_int operation now m s = (out, m', s') \<and> fates s' = [] \<and>
      (case out of Ret x \<Rightarrow> True | Raise e \<Rightarrow> \<not> corruption e | Crash \<Rightarrow> False)"
    using t out by (auto simp: hp_transaction_def bind_s_def uncertain_commit_def)
qed

section \<open>The handlers\<close>

lemma calm_cores:
  "calm to_int (handle_allocate_cores env pools cr)"
  "calm to_int (handle_allocate_cores_percent env pools pr)"
  "calm to_int (handle_allocate_numa_cores env pools nr)"
  unfolding handle_allocate_cores_def handle_allocate_cores_percent_def handle_allocate_numa_cores_def
  by (intro calm_intros refusals handlers_keep)+

lemma calm_list: "calm to_int (handle_list_allocations env pools lr)"
  unfolding handle_list_allocations_def by (intro calm_intros refusals)

lemma calm_node_list [calm_intros]: "calm to_int (list_allocations_for_node to_int n)"
  unfolding list_allocations_for_node_def
  by (rule calm_bind [OF calm_hp_loads]) (auto simp: calm_def)

lemma calm_summary [calm_intros]: "calm to_int (get_memory_summary h to_int)"
proof -
  have "calm to_int (add_node h to_int d nodes)" for d nodes
    unfolding add_node_def get_node_allocations_def Let_def by (auto intro!: calm_intros)
  then show ?thesis
    unfolding get_memory_summary_def get_numa_hugepages_info_def by (intro calm_intros)
qed

lemma calm_context [calm_intros]: "calm (env_to_int env) (get_hugepages_context env svc n k)"
  unfolding get_hugepages_context_def by (auto intro!: calm_intros split: option.split)

lemma calm_memory: "calm (env_to_int env) (handle_get_memory_info env gr)"
  unfolding handle_get_memory_info_def Let_def by (auto intro!: calm_intros split: option.split)

lemma calm_hugepages:
  assumes "reads_ints (env_to_int env)"
  shows "calm (env_to_int env) (handle_allocate_hugepages env hr)"
  unfolding handle_allocate_hugepages_def check_hugepage_capacity_def remove_allocation_for_key_def
    upsert_allocation_def Let_def
  by (auto intro!: calm_intros assms keeps_table_operations split: option.split sum.split)

section \<open>Requests\<close>

text \<open>An outcome of a handler that ended on a sound store.\<close>

definition ended :: "(json \<Rightarrow> int option) \<Rightarrow> 'a outcome \<times> world \<Rightarrow> bool" where
  "ended to_int r \<longleftrightarrow> store_sound to_int (w_store (snd r)) \<and> fates (w_store (snd r)) = [] \<and>
     (case fst r of Ret x \<Rightarrow> True | Raise e \<Rightarrow> \<not> corruption e | Crash \<Rightarrow> False)"

lemma ended_map: "ended to_int r \<Longrightarrow> ended to_int (map_outcome f r)"
  by (auto simp: ended_def map_outcome_def split: prod.splits outcome.splits)

lemma ended_ledger:
  assumes "calm to_int f" "store_sound to_int (w_store w)" "fates (w_store w) = []"
  shows "ended to_int (on_ledger f w)"
  by (rule calmE [OF assms, of "w_ledger w"]) (simp_all add: ended_def on_ledger_def)

lemma ended_hugepages:
  assumes "calm to_int f" "store_sound to_int (w_store w)" "fates (w_store w) = []"
  shows "ended to_int (on_hugepages f w)"
  by (rule calmE [OF assms, of "w_hugepages w"]) (simp_all add: ended_def on_hugepages_def)

lemma ended_request:
  assumes "reads_ints (env_to_int env)" "store_sound (env_to_int env) (w_store w)" "fates (w_store w) = []"
  shows "ended (env_to_int env) (run_request env pools req w)"
  unfolding run_request_def
  by (cases req)
    (simp_all add: ended_map ended_ledger [OF _ assms(2,3)] ended_hugepages [OF _ assms(2,3)]
      calm_cores calm_list calm_memory calm_hugepages [OF assms(1)])

text \<open>What the JSON decoder and the models may raise.\<close>

definition decoding_ok :: "env \<Rightarrow> (string \<Rightarrow> json result) \<Rightarrow> bool" where
  "decoding_ok env decode \<longleftrightarrow> (\<forall>data e. decode data = Inl e \<longrightarrow> \<not> corruption e) \<and>
     (\<forall>a obj e. env_parse_obj env a obj = Inl e \<longrightarrow> \<not> corruption e)"

lemma ended_dispatch:
  assumes "reads_ints (env_to_int env)" "store_sound (env_to_int env) (w_store w)" "fates (w_store w) = []"
    and "decoding_ok env decode"
  shows "ended (env_to_int env) (dispatch env pools (decode data) w)"
  using assms ended_request [OF assms(1-3)]
  by (auto simp: dispatch_def Let_def ended_def decoding_ok_def no_attribute_get_def
      split: sum.split json.split option.split)

lemma calm_answer:
  assumes "reads_ints (env_to_int env)" "store_sound (env_to_int env) (w_store w)" "fates (w_store w) = []"
    and "decoding_ok env decode"
  shows "\<exists>r w'. handle_daemon_request env pools (decode data) w = (Ret r, w') \<and> fates (w_store w') = []"
proof -
  obtain out w1 where d: "dispatch env pools (decode data) w = (out, w1)" by fastforce
  then have e: "ended (env_to_int env) (out, w1)" using ended_dispatch [OF assms] by metis
  have "calm (env_to_int env) (fresh_read (\<lambda>db. get_all_allocations db None))"
    by (intro calm_intros refusals)
  from ended_ledger [OF this] have "ended (env_to_int env)
      (on_ledger (fresh_read (\<lambda>db. get_all_allocations db None)) w1)"
    using e by (simp add: ended_def)
  then have "\<exists>r w'. log_allocations response w1 = (Ret r, w') \<and> fates (w_store w') = []" for response
    by (auto simp: log_allocations_def ended_def split: prod.splits outcome.splits)
  then show ?thesis
    using d e by (auto simp: handle_daemon_request_def ended_def split: outcome.splits py_error.splits)
qed

lemma calm_outside_call: "fates (w_store w) = [] \<Longrightarrow> outside_call w = (Ret (), w)"
  by (simp add: outside_call_def on_store_def syscall_def)

lemma bind_h_Ret: "f w = (Ret x, w') \<Longrightarrow> bind_h f g w = g x w'"
  by (simp add: bind_h_def)

lemma calm_serve:
  assumes "reads_ints (env_to_int env)" "store_sound (env_to_int env) (w_store w)" "fates (w_store w) = []"
    and "decoding_ok env decode"
  shows "\<exists>r w'. serve_connection decode env pools arrived w = (Ret r, w') \<and> (r = None \<longleftrightarrow> arrived = [])"
proof (cases "arrived = []")
  case True
  then show ?thesis
    by (simp add: serve_connection_def bind_h_Ret calm_outside_call assms(3) return_h_def)
next
  case False
  obtain r w' where r: "handle_daemon_request env pools (decode (take 1024 arrived)) w = (Ret r, w')"
    "fates (w_store w') = []" using calm_answer [OF assms] by blast
  then show ?thesis using False
    by (simp add: serve_connection_def bind_h_Ret calm_outside_call assms(3) Let_def r(1)
        return_h_def)
qed

text \<open>Under any faults: which exceptions leave the handling of a message.\<close>

lemma handled_errors: "handle_daemon_request env pools req w = (Raise e, w') \<Longrightarrow> corruption e"
  by (auto simp: handle_daemon_request_def log_allocations_def split: prod.splits outcome.splits py_error.splits)

section \<open>Starting\<close>

lemma calm_start:
  assumes "store_sound to_int (w_store w)" "fates (w_store w) = []"
  shows "\<exists>w'. start_daemon to_int w = (Ret (), w') \<and> table_sound (w_hugepages w') \<and> fates (w_store w') = []"
proof -
  obtain db t where l: "load_from_store (w_ledger w) (w_store w) = (Ret (), db, t)" "fates t = []"
    using calm_load [OF assms] by blast
  have dir: "on_store ensure_dir v = (Ret (), v)" if "fates (w_store v) = []" for v
    using calm_outside_call [OF that] by (simp add: outside_call_def ensure_dir_def)
  have "store_sound to_int t" by (rule untouched_store_sound [OF load_from_store_untouched [OF l(1)] assms(1)])
  from calm_hp_load [OF this l(2)] obtain table u where
    h: "hp_load to_int (w_hugepages w) t = (Ret (), table, u)" "fates u = []" "table_sound table" by blast
  have load: "on_ledger load_from_store w = (Ret (), w\<lparr>w_ledger := db, w_store := t\<rparr>)"
    using l by (simp add: on_ledger_def)
  show ?thesis
    using h l(2) by (simp add: start_daemon_def bind_h_Ret dir assms(2) load on_hugepages_def)
qed

text \<open>The startup check reads each pool's claims, which a loaded ledger always has.\<close>

lemma fresh_read_calm:
  assumes "store_sound to_int s" "fates s = []" "\<And>db. wf_ledger db \<Longrightarrow> \<exists>x. f db = Inr x"
  shows "\<exists>x m' s'. fresh_read f m s = (Ret x, m', s') \<and> store_sound to_int s' \<and> fates s' = []"
proof -
  obtain db t where l: "load_from_store m s = (Ret (), db, t)" "fates t = []" "wf_ledger db"
    using calm_load [OF assms(1,2), of m] by blast
  moreover have "store_sound to_int t"
    by (rule untouched_store_sound [OF load_from_store_untouched [OF l(1)] assms(1)])
  ultimately show ?thesis using assms(3) [OF l(3)] by (auto simp: fresh_read_def)
qed

lemma calm_startup_report:
  assumes "store_sound to_int s" "fates s = []"
  shows "\<exists>report m' s'. validate_startup_pool pools m s = (Ret report, m', s') \<and> fates s' = []"
proof -
  have claimed: "\<exists>x. get_claimed_cpus db p = Inr x" if "wf_ledger db" for db p
    using claimed_cpus_wf [OF that] by (cases p) auto
  obtain I m1 s1 where 1: "fresh_read (\<lambda>db. get_claimed_cpus db (Some ISOLATED)) m s = (Ret I, m1, s1)"
      "store_sound to_int s1" "fates s1 = []" 
    using fresh_read_calm [of to_int s "\<lambda>db. get_claimed_cpus db (Some ISOLATED)" m] assms claimed by blast
  obtain G m2 s2 where 2: "fresh_read (\<lambda>db. get_claimed_cpus db (Some GENERAL)) m1 s1 = (Ret G, m2, s2)" "fates s2 = []"
    using fresh_read_calm [OF 1(2,3), of "\<lambda>db. get_claimed_cpus db (Some GENERAL)" m1] claimed by blast
  show ?thesis unfolding validate_startup_pool_def enum_cpu_pool_name_def
    by (simp add: bind_s_def 1(1) 2)
qed

lemma calm_open_socket: "fates (w_store w) = [] \<Longrightarrow> open_socket stale w = (Ret (), w)"
  by (simp add: open_socket_def bind_h_Ret calm_outside_call return_h_def bind_h_def)

lemma calm_boot:
  assumes "store_sound to_int s" "fates s = []"
  shows "\<exists>w. boot to_int h snapctl_get stale (new_world s) = (Ret (load_startup_pool h snapctl_get), w) \<and>
    stored_ledger s = Some (w_ledger w) \<and> wf_ledger (w_ledger w) \<and> table_sound (w_hugepages w)"
proof -
  have s: "store_sound to_int (w_store (new_world s))" "fates (w_store (new_world s)) = []"
    using assms by (simp_all add: new_world_def)
  obtain w where w: "start_daemon to_int (new_world s) = (Ret (), w)" "table_sound (w_hugepages w)"
    "fates (w_store w) = []" using calm_start [OF s] by blast
  have u: "untouched s (w_store w)" using world_readsD [OF start_reads w(1)] by (simp add: new_world_def)
  have snd: "store_sound to_int (w_store w)" by (rule untouched_store_sound [OF u assms(1)])
  let ?pools = "load_startup_pool h snapctl_get"
  obtain report m' s' where v: "validate_startup_pool ?pools (w_ledger w) (w_store w) = (Ret report, m', s')"
    "fates s' = []" using calm_startup_report [OF snd w(3)] by blast
  have ls: "ledgers_sound (w_store w)" using snd by (simp add: store_sound_def)
  have st: "stored_ledger (w_store w) = Some m'" by (rule validate_startup_Ret(1) [OF ls v(1)])
  moreover have "stored_ledger (w_store w) = stored_ledger s"
    using untouched_fields(1) [OF u] by (simp add: stored_ledger_def)
  moreover have check: "on_ledger (validate_startup_pool ?pools) w = (Ret report, w\<lparr>w_ledger := m', w_store := s'\<rparr>)"
    using v(1) by (simp add: on_ledger_def)
  have "boot to_int h snapctl_get stale (new_world s) = (Ret ?pools, w\<lparr>w_ledger := m', w_store := s'\<rparr>)"
    using v(2)
    by (simp add: boot_def bind_h_Ret w(1) Let_def check calm_open_socket return_h_def)
  ultimately show ?thesis using w(2) stored_wf [OF ls st] by simp
qed

end
