(* ===== verification/Section_Views.thy ===== *)
theory Section_Views
  imports Daemon_System
begin

text \<open>
  What a request leaves alone: the CPU requests do not change the recorded hugepages, the hugepage
  requests do not change the ledger, whatever fails underneath.
\<close>

section \<open>Views of the store\<close>

text \<open>The abstract contents of the two sections.\<close>

definition pages_view :: "(json \<Rightarrow> int option) \<Rightarrow> store \<Rightarrow> (string \<Rightarrow> int \<Rightarrow> int \<Rightarrow> int option) option" where
  "pages_view to_int s = map_option recorded (stored_table to_int s)"

definition ledger_view :: "store \<Rightarrow> ledger option" where
  "ledger_view s = map_option abs_ledger (stored_ledger s)"

lemma views_untouched:
  "untouched s t \<Longrightarrow> pages_view to_int t = pages_view to_int s"
  "untouched s t \<Longrightarrow> ledger_view t = ledger_view s"
  using untouched_fields [of s t]
  by (simp_all add: pages_view_def ledger_view_def stored_table_def stored_ledger_def)

lemma pages_view_rewritten:
  assumes "store_sound to_int s"
    and "section_of ''hugepages_db'' (state_file t) = section_of ''hugepages_db'' (state_file s) \<or>
      section_of ''hugepages_db'' (state_file t) = map_option dump_load (section_of ''hugepages_db'' (state_file s))"
  shows "pages_view to_int t = pages_view to_int s"
proof (cases "section_of ''hugepages_db'' (state_file s)")
  case None
  then show ?thesis using assms(2) by (auto simp: pages_view_def stored_table_def)
next
  case (Some c)
  then have "hp_content_sound to_int c"
    using pages_sound_content assms(1) by (auto simp: store_sound_def)
  then show ?thesis using assms(2) Some recorded_sorted
    by (auto simp: pages_view_def stored_table_def hp_content_sound_def)
qed

lemma ledger_view_rewritten:
  assumes "store_sound to_int s"
    and "section_of ''allocations_db'' (state_file t) = section_of ''allocations_db'' (state_file s) \<or>
      section_of ''allocations_db'' (state_file t) = map_option dump_load (section_of ''allocations_db'' (state_file s))"
  shows "ledger_view t = ledger_view s"
proof -
  obtain c db where c: "section_of ''allocations_db'' (state_file s) = Some c" "ledger_in c = Some db"
    using sound_file_ledger [OF assms(1) store_ok_visible [OF store_sound_ok [OF assms(1)]]] by blast
  have "state_file s \<in> set (maybe_files s)" using store_ok_visible [OF store_sound_ok [OF assms(1)]] .
  then have "sound_content c"
    using c assms(1) by (auto simp: store_sound_def ledgers_sound_def claim_section.contents_satisfy_def)
  then have "wf_ledger db" "ledger_in (dump_load c) = Some (sorted_adb db)" using c by (auto simp: sound_content_def)
  then show ?thesis using assms(2) c sorted_abs wf_ledgerD
    by (auto simp: ledger_view_def stored_ledger_def)
qed

section \<open>Sessions that leave a view\<close>

definition leaves :: "(json \<Rightarrow> int option) \<Rightarrow> (store \<Rightarrow> 'x) \<Rightarrow> ('m, 'a) session \<Rightarrow> bool" where
  "leaves to_int view f \<longleftrightarrow> (\<forall>m s out m' s'. store_sound to_int s \<longrightarrow> f m s = (out, m', s') \<longrightarrow>
     store_sound to_int s' \<and> view s' = view s)"

lemma leavesD:
  "leaves to_int view f \<Longrightarrow> store_sound to_int s \<Longrightarrow> f m s = (out, m', s') \<Longrightarrow>
   store_sound to_int s' \<and> view s' = view s"
  by (auto simp: leaves_def)

lemma leaves_reads:
  assumes "reads_only f" "\<And>s t. untouched s t \<Longrightarrow> view t = view s"
  shows "leaves to_int view f"
  unfolding leaves_def using reads_store_sound [OF assms(1)] reads_onlyD [OF assms(1)] assms(2) by blast

lemma leaves_bind:
  assumes "leaves to_int view f" "\<And>x. leaves to_int view (g x)"
  shows "leaves to_int view (bind_s f g)"
  unfolding leaves_def
proof (intro allI impI)
  fix m s out m' s' assume s: "store_sound to_int s" and run: "bind_s f g m s = (out, m', s')"
  obtain o1 m1 s1 where f: "f m s = (o1, m1, s1)" using prod_cases3 by blast
  then have s1: "store_sound to_int s1 \<and> view s1 = view s" by (rule leavesD [OF assms(1) s])
  show "store_sound to_int s' \<and> view s' = view s"
  proof (cases o1)
    case (Ret x)
    then have "g x m1 s1 = (out, m', s')" using run f by (simp add: bind_s_def)
    then show ?thesis using leavesD [OF assms(2)] s1 by metis
  qed (use run f s1 in \<open>auto simp: bind_s_def\<close>)
qed

lemma leaves_try:
  assumes "leaves to_int view f" "\<And>e. leaves to_int view (h e)"
  shows "leaves to_int view (try_s f h)"
  unfolding leaves_def
proof (intro allI impI)
  fix m s out m' s' assume s: "store_sound to_int s" and run: "try_s f h m s = (out, m', s')"
  obtain o1 m1 s1 where f: "f m s = (o1, m1, s1)" using prod_cases3 by blast
  then have s1: "store_sound to_int s1 \<and> view s1 = view s" by (rule leavesD [OF assms(1) s])
  show "store_sound to_int s' \<and> view s' = view s"
  proof (cases o1)
    case (Raise e)
    then have "h e m1 s1 = (out, m', s')" using run f by (simp add: try_s_def)
    then show ?thesis using leavesD [OF assms(2)] s1 by metis
  qed (use run f s1 in \<open>auto simp: try_s_def\<close>)
qed

lemma leaves_transaction:
  assumes "keeps_ledger operation"
  shows "leaves to_int (pages_view to_int) (transaction operation now)"
  unfolding leaves_def
proof (intro allI impI conjI)
  fix m s out m' s' assume s: "store_sound to_int s" and run: "transaction operation now m s = (out, m', s')"
  show "store_sound to_int s'" by (rule transaction_store_sound [OF s assms run])
  obtain o1 s1 where sec: "transaction_section ''allocations_db'' (txn_update operation) now s = (o1, s1)"
    by fastforce
  have ls: "ledgers_sound s" "store_ok s" using s by (auto simp: store_sound_def ledgers_sound_def)
  have v: "pages_view to_int s1 = pages_view to_int s"
    by (rule pages_view_rewritten [OF s claim_section.txn_other_visible
          [OF ls(2) ledgers_sound_docs [OF ls(1) assms] sec]])
  show "pages_view to_int s' = pages_view to_int s"
  proof (cases o1)
    case (Raise e)
    obtain o2 m2 s2 where l: "load_from_store m s1 = (o2, m2, s2)" using prod_cases3 by blast
    then have "s' = s2" using run sec Raise by (auto simp: transaction_def split: outcome.splits)
    then show ?thesis using views_untouched(1) [OF load_from_store_untouched [OF l]] v by simp
  qed (use run sec v in \<open>auto simp: transaction_def split: prod.splits sum.splits\<close>)
qed

lemma leaves_hp_transaction:
  assumes "reads_ints to_int" "keeps_table operation"
  shows "leaves to_int ledger_view (hp_transaction to_int operation now)"
  unfolding leaves_def
proof (intro allI impI conjI)
  fix m s out m' s' assume s: "store_sound to_int s" and run: "hp_transaction to_int operation now m s = (out, m', s')"
  show "store_sound to_int s'" by (rule hp_transaction_store_sound [OF assms(1) s assms(2) run])
  obtain o1 s1 where sec: "transaction_section ''hugepages_db'' (hp_update to_int operation) now s = (o1, s1)"
    by fastforce
  have ps: "pages_sound to_int s" "store_ok s" using s by (auto simp: store_sound_def pages_sound_def)
  have v: "ledger_view s1 = ledger_view s"
    by (rule ledger_view_rewritten [OF s hugepage_section.txn_other_visible
          [OF ps(2) hp_update_docs [OF ps(1) assms(2)] sec]])
  have reads: "reads_only (bind_s (hp_load to_int) (\<lambda>_. raise_s e))" for e
    using hp_load_reads by blast
  show "ledger_view s' = ledger_view s"
  proof (cases o1)
    case (Raise e)
    then have "bind_s (hp_load to_int) (\<lambda>_. raise_s e) m s1 = (out, m', s')"
      using run sec by (simp add: hp_transaction_def)
    then show ?thesis using views_untouched(2) [OF reads_onlyD [OF reads]] v by metis
  qed (use run sec v in \<open>auto simp: hp_transaction_def\<close>)
qed

section \<open>The handlers\<close>

lemmas reads_pages = leaves_reads [OF _ views_untouched(1)]
lemmas reads_ledger = leaves_reads [OF _ views_untouched(2)]

lemma pool_transaction_leaves:
  assumes "\<And>p. keeps_ledger (g p)"
  shows "leaves to_int (pages_view to_int) (bind_s (lift_s r) (\<lambda>p. transaction (g p) now))"
  by (intro leaves_bind [OF reads_pages [OF reads_only_lift]] leaves_transaction assms)

lemma cpu_handlers_leave:
  "leaves to_int (pages_view to_int) (handle_allocate_cores env pools cr)"
  "leaves to_int (pages_view to_int) (handle_allocate_cores_percent env pools pr)"
  "leaves to_int (pages_view to_int) (handle_allocate_numa_cores env pools nr)"
  unfolding handle_allocate_cores_def handle_allocate_cores_percent_def handle_allocate_numa_cores_def
  by (rule pool_transaction_leaves, rule handlers_keep)+

lemma hugepage_handler_leaves:
  assumes "reads_ints (env_to_int env)"
  shows "leaves (env_to_int env) ledger_view (handle_allocate_hugepages env r)"
proof -
  have upsert: "leaves (env_to_int env) ledger_view (upsert_allocation (env_to_int env) now svc n k c)" for now svc n k c
    unfolding upsert_allocation_def by (intro leaves_hp_transaction assms keeps_table_operations)
  have remove: "leaves (env_to_int env) ledger_view (remove_allocation_for_key (env_to_int env) now svc n k)" for now svc n k
    unfolding remove_allocation_for_key_def by (intro leaves_hp_transaction assms keeps_table_operations)
  have ret: "leaves (env_to_int env) ledger_view (return_s x)" for x :: epa_response
    by (intro reads_ledger) blast
  show ?thesis
    unfolding handle_allocate_hugepages_def
    by (intro leaves_try)
      (auto intro!: leaves_bind upsert remove ret reads_ledger [OF capacity_reads] split: option.splits)
qed

text \<open>Whether a request is about CPUs.\<close>

primrec about_cpus :: "epa_request \<Rightarrow> bool" where
  "about_cpus (CoresRequest r) = True"
| "about_cpus (PercentRequest r) = True"
| "about_cpus (NumaRequest r) = True"
| "about_cpus (ListRequest r) = True"
| "about_cpus (MemoryRequest r) = False"
| "about_cpus (HugepagesRequest r) = False"

lemma on_ledger_leaves:
  assumes "leaves to_int view f" "store_sound to_int (w_store w)" "map_outcome g (on_ledger f w) = (out, w')"
  shows "view (w_store w') = view (w_store w)"
proof -
  obtain out0 where "on_ledger f w = (out0, w')" using map_outcome_world [OF assms(3)] ..
  then show ?thesis using leavesD [OF assms(1,2)] by (auto simp: on_ledger_def split: prod.splits)
qed

lemma on_hugepages_leaves:
  assumes "leaves to_int view f" "store_sound to_int (w_store w)" "on_hugepages f w = (out, w')"
  shows "view (w_store w') = view (w_store w)"
  using leavesD [OF assms(1,2)] assms(3) by (auto simp: on_hugepages_def split: prod.splits)

lemma cpu_request_leaves_pages:
  assumes "store_sound to_int (w_store w)" "run_request env pools req w = (out, w')" "about_cpus req"
  shows "pages_view to_int (w_store w') = pages_view to_int (w_store w)"
proof -
  note ledger = on_ledger_leaves [OF _ assms(1)]
  show ?thesis
    using assms(2,3) ledger [OF cpu_handlers_leave(1)] ledger [OF cpu_handlers_leave(2)]
      ledger [OF cpu_handlers_leave(3)] ledger [OF reads_pages [OF list_handler_reads]]
    by (cases req) (auto simp: run_request_def)
qed

lemma page_request_leaves_ledger:
  assumes "reads_ints (env_to_int env)" "store_sound (env_to_int env) (w_store w)"
    and "run_request env pools req w = (out, w')" "\<not> about_cpus req"
  shows "ledger_view (w_store w') = ledger_view (w_store w)"
proof -
  note pages = on_hugepages_leaves [OF _ assms(2)]
  show ?thesis
    using assms(3,4) pages [OF hugepage_handler_leaves [OF assms(1)]] pages [OF reads_ledger [OF memory_info_reads]]
    by (cases req) (auto simp: run_request_def)
qed

end
