(* ===== verification/Response_Types.thy ===== *)
theory Response_Types
  imports Calm_Runs Section_Views
begin

text \<open>
  Which answers belong to which request: a typing of answers by requests, and that the handlers
  respect it.
\<close>

section \<open>The typing\<close>

definition part_of :: "int \<Rightarrow> int \<Rightarrow> bool" where
  "part_of free whole \<longleftrightarrow> 0 \<le> free \<and> free \<le> whole"

inductive responds :: "epa_request \<Rightarrow> epa_response \<Rightarrow> bool" where
  cores: "responds (CoresRequest r) (CoresResponse res)"
    if "cores_pool res = acr_pool r" "cores_service_name res = acr_service_name r"
      "cores_num_of_cores res = (if acr_num_of_cores r = - 1 then 0 else acr_num_of_cores r)"
      "count_cpus_in_ranges (cores_allocated_cores res) = Inr (cores_cores_allocated res)"
      "part_of (cores_remaining_available_cpus res) (cores_total_available_cpus res)"
| percent: "responds (PercentRequest r) (PercentResponse res)"
    if "percent_pool res = apr_pool r" "percent_service_name res = apr_service_name r"
      "count_cpus_in_ranges (percent_allocated_cores res) = Inr (percent_cores_allocated_count res)"
      "part_of (percent_remaining_available_cpus res) (percent_total_available_cpus res)"
| numa: "responds (NumaRequest r) (NumaResponse res)"
    if "numa_pool res = anr_pool r" "numa_service_name res = anr_service_name r"
      "numa_numa_node res = anr_numa_node r" "numa_num_of_cores res = anr_num_of_cores r"
      "anr_num_of_cores r \<noteq> 0"
      "part_of (numa_remaining_available_cpus res) (numa_total_available_cpus res)"
| list: "responds (ListRequest r) (ListResponse res)"
    if "list_pool res = lar_pool r" "\<forall>e \<in> set (list_allocations_entries res). sa_pool e = lar_pool r"
      "list_total_allocations res = int (length (list_allocations_entries res))"
      "part_of (list_remaining_available_cpus res) (list_total_available_cpus res)"
| memory: "responds (MemoryRequest r) (MemoryResponse res)"
    if "mir_service_name res = (case gmr_service_name r of None \<Rightarrow> [] | Some s \<Rightarrow> s)"
| hugepages: "responds (HugepagesRequest r) (HugepagesResponse res)"
    if "hpr_service_name res = ahr_service_name r" "hpr_hugepages_requested res = ahr_hugepages_requested r"
      "hpr_node_id res = ahr_node_id r" "hpr_size_kb res = ahr_size_kb r" "hpr_allocation_successful res"
| no_memory: "responds (MemoryRequest r) (ErrorResponse m)"
| no_hugepages: "responds (HugepagesRequest r) (ErrorResponse m)"

inductive_cases responds_coresE: "responds (CoresRequest r) response"
  and responds_errorE: "responds req (ErrorResponse m)"

text \<open>Only requests about memory answer an error by themselves.\<close>

lemma responds_error: "responds req (ErrorResponse m) \<Longrightarrow> \<not> about_cpus req"
  by (erule responds_errorE) simp_all

section \<open>The operations\<close>

lemma stats_part_of:
  "get_system_stats db t = Inr stats \<Longrightarrow>
     part_of (stat_remaining_available_cpus stats) (stat_total_available_cpus stats)"
  by (auto simp: get_system_stats_def part_of_def intro!: py_len_mono dest!: parse_cpu_ranges_ids)

lemma stats_part_of_first:
  "get_system_stats db t = Inr stats \<Longrightarrow> get_system_stats db' t = Inr stats' \<Longrightarrow>
     part_of (stat_remaining_available_cpus stats') (stat_total_available_cpus stats)"
  using stats_part_of [of db' t stats'] by (auto simp: get_system_stats_def)

lemma allocate_cores_in_responds:
  assumes "allocate_cores_in env r provider pool db = Inr (res, db')"
  shows "responds (CoresRequest r) (CoresResponse res)"
  using assms
  by (auto simp: allocate_cores_in_def Let_def count_cpus_in_ranges_def intro!: responds.cores
      dest!: stats_part_of split: if_splits simp del: validate_guards)

lemma allocate_percent_in_responds:
  assumes "allocate_percent_in env r provider pool db = Inr (res, db')"
  shows "responds (PercentRequest r) (PercentResponse res)"
proof -
  obtain res0 where run: "allocate_cores_in env (percent_request r pool) provider pool db = Inr (res0, db')"
    and res: "res = \<lparr>percent_pool = cores_pool res0, percent_preemption_policy = cores_preemption_policy res0,
             percent_service_name = cores_service_name res0,
             percent_cores_allocated_count = cores_cores_allocated res0,
             percent_allocated_cores = cores_allocated_cores res0,
             percent_total_available_cpus = cores_total_available_cpus res0,
             percent_remaining_available_cpus = cores_remaining_available_cpus res0\<rparr>"
    using assms by (auto simp: allocate_percent_in_def)
  from allocate_cores_in_responds [OF run] show ?thesis
    by (rule responds_coresE) (simp add: res responds.percent percent_request_def)
qed

lemma allocate_numa_in_responds:
  assumes "allocate_numa_in env r provider pool db = Inr (res, db')"
  shows "responds (NumaRequest r) (NumaResponse res)"
  using assms
  by (cases "anr_num_of_cores r = - 1")
    (clarsimp simp: allocate_numa_in_def numa_response_def Let_def simp del: validate_guards,
      rule responds.numa, simp_all, rule stats_part_of_first, assumption, assumption)+

lemma list_response_responds:
  assumes "list_response r pool entries = Inr res" "finite (snap_eligible pool)"
  shows "responds (ListRequest r) (ListResponse res)"
  using assms by (auto simp: list_response_def Let_def part_of_def intro!: responds.list py_len_mono)

section \<open>The handlers\<close>

lemma hugepages_response_responds: "responds (HugepagesRequest r) (hugepages_response r m)"
  by (simp add: hugepages_response_def responds.hugepages)

text \<open>Sessions whose answers satisfy a predicate and that do not raise.\<close>

definition answers_with :: "('a \<Rightarrow> bool) \<Rightarrow> ('m, 'a) session \<Rightarrow> bool" where
  "answers_with P f \<longleftrightarrow> (\<forall>m s x m' s'. f m s = (Ret x, m', s') \<longrightarrow> P x)"

lemma answers_withD: "answers_with P f \<Longrightarrow> f m s = (Ret x, m', s') \<Longrightarrow> P x"
  unfolding answers_with_def by blast

lemma answers_return: "P x \<Longrightarrow> answers_with P (return_s x)"
  by (simp add: answers_with_def)

lemma answers_bind: "(\<And>x. answers_with P (g x)) \<Longrightarrow> answers_with P (bind_s f g)"
  by (auto simp: answers_with_def bind_s_def split: prod.splits outcome.splits)

lemma answers_try:
  assumes "answers_with P f" "\<And>e. answers_with P (h e)"
  shows "answers_with P (try_s f h)"
  using assms unfolding answers_with_def try_s_def by (fastforce split: prod.splits outcome.splits)

lemma memory_answers: "answers_with (responds (MemoryRequest r)) (handle_get_memory_info env r)"
  unfolding handle_get_memory_info_def Let_def
  by (intro answers_try answers_bind)
    (auto intro!: answers_return responds.memory responds.no_memory split: option.split)

lemma hugepage_answers: "answers_with (responds (HugepagesRequest r)) (handle_allocate_hugepages env r)"
proof -
  note ok = answers_return hugepages_response_responds and refused = responds.no_hugepages
  show ?thesis
    unfolding handle_allocate_hugepages_def
    by (intro answers_try) (auto intro!: answers_bind ok refused split: option.split)
qed

text \<open>A handler that ends every exception in a value does not raise.\<close>

lemma try_s_handled: "try_s f (\<lambda>e. return_s (h e)) m s = (out, m', s') \<Longrightarrow> out \<noteq> Raise e"
  by (auto simp: try_s_def split: prod.splits outcome.splits)

lemma page_handlers_handled:
  "handle_get_memory_info env gr m s = (out, m', s') \<Longrightarrow> out \<noteq> Raise e"
  "handle_allocate_hugepages env hr m s = (out, m', s') \<Longrightarrow> out \<noteq> Raise e"
  unfolding handle_get_memory_info_def handle_allocate_hugepages_def Let_def
  by (erule try_s_handled)+

text \<open>The CPU handlers, on a ledger that is sound.\<close>

lemma cpu_answers:
  assumes "ledgers_sound s"
  shows "handle_allocate_cores env pools cr m s = (Ret c, m', s') \<Longrightarrow> responds (CoresRequest cr) (CoresResponse c)"
    and "handle_allocate_cores_percent env pools pr m s = (Ret p, m', s') \<Longrightarrow> responds (PercentRequest pr) (PercentResponse p)"
    and "handle_allocate_numa_cores env pools nr m s = (Ret n, m', s') \<Longrightarrow> responds (NumaRequest nr) (NumaResponse n)"
    and "handle_list_allocations env pools lr m s = (Ret l, m', s') \<Longrightarrow> responds (ListRequest lr) (ListResponse l)"
proof -
  show "responds (CoresRequest cr) (CoresResponse c)"
    if "handle_allocate_cores env pools cr m s = (Ret c, m', s')"
    using transaction_handler_Ret [OF assms handlers_keep(1) that [unfolded handle_allocate_cores_def]]
      allocate_cores_in_responds by metis
  show "responds (PercentRequest pr) (PercentResponse p)"
    if "handle_allocate_cores_percent env pools pr m s = (Ret p, m', s')"
    using transaction_handler_Ret [OF assms handlers_keep(2) that [unfolded handle_allocate_cores_percent_def]]
      allocate_percent_in_responds by metis
  show "responds (NumaRequest nr) (NumaResponse n)"
    if "handle_allocate_numa_cores env pools nr m s = (Ret n, m', s')"
    using transaction_handler_Ret [OF assms handlers_keep(3) that [unfolded handle_allocate_numa_cores_def]]
      allocate_numa_in_responds by metis
  show "responds (ListRequest lr) (ListResponse l)"
    if run: "handle_list_allocations env pools lr m s = (Ret l, m', s')"
  proof -
    obtain provider snap entries where "pool_snapshot (env_host env) provider True = Inr snap"
      and "list_response lr snap entries = Inr l"
      using run unfolding handle_list_allocations_def
      by (auto elim!: bind_s_RetE simp: lift_s_def return_s_def raise_s_def split: sum.splits)
    then show ?thesis by (intro list_response_responds) (auto dest: pool_snapshot_Inr(2))
  qed
qed

text \<open>Every request: an answer is one of its own kind, and only requests about CPUs raise.\<close>

lemma request_answers:
  assumes "world_sound (env_to_int env) w" "run_request env pools req w = (out, w')"
  shows "out = Ret response \<Longrightarrow> responds req response" and "out = Raise e \<Longrightarrow> about_cpus req"
proof -
  have sound: "ledgers_sound (w_store w)" using assms(1) by (simp add: world_sound_def store_sound_def)
  note cpu = cpu_answers [OF sound]
  note split = map_outcome_def on_ledger_def on_hugepages_def
  show "responds req response" if "out = Ret response"
  proof (cases req)
    case (MemoryRequest r)
    then show ?thesis
      using assms(2) that answers_withD [OF memory_answers]
      by (auto simp: run_request_def split split: prod.splits)
  next
    case (HugepagesRequest r)
    then show ?thesis
      using assms(2) that answers_withD [OF hugepage_answers]
      by (auto simp: run_request_def split split: prod.splits)
  qed (use assms(2) that cpu in \<open>auto simp: run_request_def split split: prod.splits outcome.splits\<close>)
  show "about_cpus req" if "out = Raise e"
    using assms(2) that page_handlers_handled
    by (cases req) (fastforce simp: run_request_def on_hugepages_def split: prod.splits)+
qed

end
