(* ===== verification/Ledger_Retry.thy ===== *)
theory Ledger_Retry
  imports Ledger_Progress
begin

text \<open>
  Repeating an allocation: on a ledger that holds its result, the same request selects the same
  CPUs again and changes no claim.
\<close>

section \<open>Ledgers with the same claims\<close>

text \<open>What the abstract ledger determines.\<close>

lemma same_ledger:
  assumes "abs_ledger a = abs_ledger b"
  shows "owned_by a t = owned_by b t"
    and "wf_ledger a \<Longrightarrow> wf_ledger b \<Longrightarrow> explicit_by a t = explicit_by b t"
    and "wf_ledger a \<Longrightarrow> wf_ledger b \<Longrightarrow> dict_get (preemption_policies a) t LEGACY = dict_get (preemption_policies b) t LEGACY"
    and "wf_ledger a \<Longrightarrow> wf_ledger b \<Longrightarrow> service_pool a t = service_pool b t"
    and "foreign_claims a t = foreign_claims b t"
    and "dict_has (allocations a) t = dict_has (allocations b) t"
proof -
  show own: "owned_by a t = owned_by b t" for t using assms by (metis owned_in_abs)
  show "foreign_claims a t = foreign_claims b t" using own by (auto simp: foreign_claims_iff)
  show "dict_has (allocations a) t = dict_has (allocations b) t"
    using fun_cong [OF assms, of t] by (auto simp: abs_ledger_def split: if_splits)
  show "explicit_by a t = explicit_by b t" "dict_get (preemption_policies a) t LEGACY = dict_get (preemption_policies b) t LEGACY"
    "service_pool a t = service_pool b t" if "wf_ledger a" "wf_ledger b"
    using abs_components [OF wf_ledgerD(1) [OF that(1)], of t] abs_components [OF wf_ledgerD(1) [OF that(2)], of t] assms
    by metis+
qed

section \<open>Allocation by count\<close>

lemma stable_again:
  assumes "finite C" "S \<subseteq> C"
  shows "stable_with pick S C (py_len S) = Inr S"
proof -
  have "S \<inter> C = S" "finite S" using assms finite_subset by blast+
  moreover from this have "set (py_prefix (py_len S) (py_sorted S)) = S"
    by (simp add: py_prefix_def py_len_def)
  ultimately show ?thesis by (simp add: stable_with_def Let_def)
qed

lemma count_selection_again:
  assumes "count_selection h policy own C cnt = Inr (texts, S, target)"
    and "validate_selection S C target = Inr ()" "finite C"
  shows "count_selection h policy S C cnt = Inr (texts, S, target)"
proof -
  have S: "py_len S = target" "S \<subseteq> C" using assms(2) by (auto simp: validate_selection_Inr)
  show ?thesis
    using assms(1) stable_again [OF assms(3) S(2)] S(1)
    by (auto simp: count_selection_def Let_def split: if_splits)
qed

lemma foreign_claims_abs: "foreign_claims db s = \<Union> (owned_in (abs_ledger db) ` (- {s}))"
  by (rule set_eqI) (auto simp: foreign_claims_iff)

text \<open>What a requester finds on a ledger that holds its claim.\<close>

lemma recorded_claim:
  assumes "wf_ledger db" "abs_ledger db = record_claim s S X policy pool L"
  shows "owned_by db s = S" "service_pool db s = pool"
    and "dict_get (preemption_policies db) s LEGACY = policy" "foreign_claims db s = \<Union> (owned_in L ` (- {s}))"
proof -
  note abs = abs_components [OF wf_ledgerD(1) [OF assms(1)], of s]
  have own: "owned_by db t = (if t = s then S else owned_in L t)" for t
    using owned_in_abs [of db t, symmetric] unfolding assms(2) by (simp add: record_claim_def split: if_splits)
  then show "owned_by db s = S" by simp
  show "service_pool db s = pool" "dict_get (preemption_policies db) s LEGACY = policy"
    using abs(2,3) unfolding assms(2) by (simp_all add: record_claim_def policy_in_def pool_in_def)
  show "foreign_claims db s = \<Union> (owned_in L ` (- {s}))"
    unfolding foreign_claims_abs by (simp add: own)
qed

lemma policy_again:
  "effective_policy db s requested = Inr policy \<Longrightarrow> dict_get (preemption_policies db2) s LEGACY = policy \<Longrightarrow>
     effective_policy db2 s requested = Inr policy"
  by (auto simp: effective_policy_Inr split: option.splits)

text \<open>The same request on a ledger with the claims that the first one left.\<close>

lemma allocate_count_again:
  assumes wf: "wf_ledger db" and E: "parse_cpu_ranges eligible = Inr E"
    and run: "allocate_count h check s cnt eligible requested pool db = Inr (texts, db')"
    and again: "wf_ledger db2" "abs_ledger db2 = abs_ledger db'"
  shows "\<exists>db3. allocate_count h check s cnt eligible requested pool db2 = Inr (texts, db3) \<and>
    wf_ledger db3 \<and> abs_ledger db3 = abs_ledger db'"
proof -
  let ?C = "E - foreign_claims db s"
  have fin: "finite ?C" using parse_cpu_ranges_ids [OF E] by blast
  obtain policy S target where pol: "effective_policy db s requested = Inr policy"
    and pool: "ensure_service_pool db s pool = Inr ()"
    and sel: "count_selection h policy (owned_by db s) ?C cnt = Inr (texts, S, target)"
    and val: "validate_selection S ?C target = Inr ()" and chk: "check S = Inr ()"
    and alloc: "allocate_cores s (snd texts) (Some policy) pool db = Inr db'"
    using run unfolding allocate_count_selects [OF wf E] by (auto simp del: validate_guards)
  obtain S' p where effect: "snd texts = set_ranges S'" "S' \<subseteq> ?C" "cpu_ids S'" "S' \<noteq> {}"
    "wf_ledger db'" "effective_policy db s requested = Inr p" "abs_ledger db' = record_claim s S' {} p pool (abs_ledger db)"
    using allocate_count_abs [OF wf E, of h check s cnt requested pool "fst texts" "snd texts" db'] run
    by (metis prod.collapse)
  have "cpu_ids ?C" using parse_cpu_ranges_ids [OF E] by blast
  then have parsed: "parse_cpu_ranges (snd texts) = Inr S" "S \<subseteq> ?C"
    using count_selection_exact [OF _ sel val] by blast+
  then have S: "S' = S" "p = policy" using effect pol by (simp_all add: ranges.dec_enc)
  note own = recorded_claim [OF again(1), unfolded again(2), OF effect(7), unfolded S, folded foreign_claims_abs]
  have free: "foreign_claims db2 s = foreign_claims db s" by (rule own(4))
  have pol2: "effective_policy db2 s requested = Inr policy" by (rule policy_again [OF pol own(3)])
  have pool2: "ensure_service_pool db2 s pool = Inr ()" using own(2) by simp
  have "check_offline_claims db2 s E = Inr ()" using own(1) parsed(2) again(1) by (auto simp: check_offline_claims_def)
  moreover have "count_selection h policy (owned_by db2 s) ?C cnt = Inr (texts, S, target)"
    unfolding own(1) by (rule count_selection_again [OF sel val fin])
  moreover obtain db3 where db3: "allocate_cores s (snd texts) (Some policy) pool db2 = Inr db3"
  proof (rule exE [OF allocate_cores_total [OF again(1) pool2 _ parsed(1)]])
    show "effective_policy db2 s (Some policy) = Inr policy" using pol2 by (auto simp: effective_policy_Inr)
    show "\<forall>t. t \<noteq> s \<longrightarrow> S \<inter> owned_by db2 t = {}" using parsed(2) free foreign_disjoint [of S E db2 s] by simp
  qed blast
  ultimately have run2: "allocate_count h check s cnt eligible requested pool db2 = Inr (texts, db3)"
    unfolding allocate_count_selects [OF again(1) E] free using pol2 pool2 val chk by (simp del: validate_guards)
  obtain q where q: "effective_policy db2 s (Some policy) = Inr q" "wf_ledger db3"
    "abs_ledger db3 = record_claim s S {} q pool (abs_ledger db2)"
    using allocate_cores_abs [OF again(1) db3 parsed(1)] effect(4) S(1) by metis
  then have "abs_ledger db3 = abs_ledger db'"
    unfolding again(2) effect(7) S by (auto simp: record_claim_def effective_policy_Inr)
  then show ?thesis using run2 q(2) by blast
qed

section \<open>Allocation from a node\<close>

text \<open>What a foreign claim keeps from a requester, in the abstract ledger.\<close>

definition unavailable_in :: "ledger \<Rightarrow> preemption_policy \<Rightarrow> cpu_pool_name \<Rightarrow> string \<Rightarrow> int set" where
  "unavailable_in L policy pool t =
     (if pool_in L t \<noteq> pool \<or> policy = NON_PREEMPTIVE \<or> policy_in L t = NON_PREEMPTIVE
      then owned_in L t else explicit_in L t)"

lemma numa_candidates_abs:
  assumes "wf_ledger db"
  shows "numa_candidates h db s node eligible policy pool =
    numa_node_set h node \<inter> eligible - \<Union> (unavailable_in (abs_ledger db) policy pool ` (- {s}))"
proof -
  note abs = abs_components [OF wf_ledgerD(1) [OF assms]]
  have same: "unavailable_to db policy pool t = unavailable_in (abs_ledger db) policy pool t" for t
    by (simp add: unavailable_to_def unavailable_in_def abs)
  have "unavailable_in (abs_ledger db) policy pool t = {}" if "t \<notin> set (dict_keys (allocations db))" for t
  proof -
    have absent: "\<not> dict_has (allocations db) t" using that unfolding dict_has_iff_keys .
    show ?thesis
      using unowned_absent(1,2) [OF wf_ledgerD(1) [OF assms] absent] by (simp add: unavailable_in_def abs)
  qed
  then have "\<Union> (unavailable_in (abs_ledger db) policy pool ` (set (dict_keys (allocations db)) - {s})) =
      \<Union> (unavailable_in (abs_ledger db) policy pool ` (- {s}))" by blast
  then show ?thesis by (simp add: numa_candidates_def same del: list.set_map)
qed

lemma unavailable_after_grant:
  assumes "ledger_ok L" "t \<noteq> s" "S \<inter> unavailable_in L policy pool t = {}"
  shows "unavailable_in (numa_grant s X S policy pool L) policy pool t = unavailable_in L policy pool t"
proof (cases "L t")
  case None
  then show ?thesis
    using assms(2) by (simp add: unavailable_in_def numa_grant_def pool_in_def policy_in_def owned_in_def explicit_in_def)
next
  case (Some c)
  have "cl_explicit c \<subseteq> cl_owned c" "cl_owned c \<noteq> {}"
    using ledger_ok_claim [OF assms(1) Some] by (simp_all add: claim_ok_def)
  then show ?thesis
    using assms(2,3) Some
    by (auto simp: unavailable_in_def numa_grant_def pool_in_def policy_in_def owned_in_def explicit_in_def
        shrink_claim_def split: if_splits)
qed

lemma numa_grant_again:
  assumes "S \<subseteq> N" "L' = numa_grant s (N \<inter> owned_in L s) S policy pool L"
  shows "numa_grant s (N \<inter> owned_in L' s) S policy pool L' = L'"
proof (rule ext)
  fix t show "numa_grant s (N \<inter> owned_in L' s) S policy pool L' t = L' t"
  proof (cases "t = s")
    case True
    let ?O = "owned_in L s" and ?X = "explicit_in L s"
    have at: "L' s = Some \<lparr>cl_owned = ?O - N \<inter> ?O \<union> S, cl_explicit = ?X - N \<inter> ?O \<union> S,
        cl_policy = policy, cl_pool = pool\<rparr>"
      unfolding assms(2) by (simp add: numa_grant_def)
    moreover have "?O - N \<inter> ?O \<union> S - N \<inter> (?O - N \<inter> ?O \<union> S) \<union> S = ?O - N \<inter> ?O \<union> S"
      "?X - N \<inter> ?O \<union> S - N \<inter> (?O - N \<inter> ?O \<union> S) \<union> S = ?X - N \<inter> ?O \<union> S"
      using assms(1) by blast+
    moreover have "owned_in L' s = ?O - N \<inter> ?O \<union> S" "explicit_in L' s = ?X - N \<inter> ?O \<union> S"
      using at by (simp, simp add: explicit_in_def)
    ultimately show ?thesis using True unfolding numa_grant_def [of s "N \<inter> owned_in L' s"] by (simp only: simp_thms if_True)
  next
    case False
    then show ?thesis unfolding assms(2)
      by (cases "L t") (auto simp: numa_grant_def shrink_claim_def Diff_idemp)
  qed
qed

text \<open>The same request on a ledger with the claims that the first one left.\<close>

lemma allocate_numa_again:
  assumes wf: "wf_ledger db" and el: "cpu_ids eligible" and n: "0 < n"
    and run: "allocate_numa_cores h check s node n requested pool eligible db = Inr ((cores, rejected), db')"
    and some: "cores \<noteq> []"
    and again: "wf_ledger db2" "abs_ledger db2 = abs_ledger db'"
  shows "\<exists>db3. allocate_numa_cores h check s node n requested pool eligible db2 = Inr ((cores, rejected), db3) \<and>
    wf_ledger db3 \<and> abs_ledger db3 = abs_ledger db'"
proof -
  let ?N = "numa_node_set h node"
  obtain policy S nodes where pol: "effective_policy db s requested = Inr policy"
    and pool: "ensure_service_pool db s pool = Inr ()" and nodes: "get_numa_node_cpus h = Inr nodes"
    and sel: "numa_selection h policy (owned_by db s) (numa_candidates h db s node eligible policy pool) n = Inr S"
    and val: "validate_selection S (numa_candidates h db s node eligible policy pool) n = Inr ()"
    and ap: "apply_numa_explicit_allocation h check s node S (Some policy) pool eligible db = Inr db'"
    and cores: "cores = set_ranges S" "rejected = []"
    by (rule allocate_numa_steps [OF wf el n run]) (use some in blast)+
  let ?C = "numa_candidates h db s node eligible policy pool"
  have S: "py_len S = n" "S \<subseteq> ?C" using val by (auto simp: validate_selection_Inr)
  have ne: "S \<noteq> {}" using S(1) n by auto
  obtain p where grant: "effective_policy db s (Some policy) = Inr p" "S \<subseteq> ?N \<inter> eligible" "owned_by db s \<subseteq> eligible"
    "check S = Inr ()" "wf_ledger db'"
    "abs_ledger db' = numa_grant s (?N \<inter> owned_by db s) S p pool (abs_ledger db)"
    by (rule apply_numa_abs [OF wf el ne ap]) blast
  then have p: "p = policy" by (simp add: effective_policy_Inr)
  note L' = again(2) [unfolded grant(6) p]
  note abs2 = abs_components [OF wf_ledgerD(1) [OF again(1)]]
  have own2: "owned_by db2 t = (if t = s then owned_by db s - ?N \<union> S else owned_by db t - S)" for t
    using owned_in_abs [of db2 t, symmetric] unfolding L' by auto
  have at: "service_pool db2 s = pool" "dict_get (preemption_policies db2) s LEGACY = policy"
    using abs2(2,3) [of s] unfolding L' by (simp_all add: numa_grant_def policy_in_def pool_in_def)
  have pol2: "effective_policy db2 s requested = Inr policy" by (rule policy_again [OF pol at(2)])
  have pool2: "ensure_service_pool db2 s pool = Inr ()" using at(1) by simp
  have C2: "numa_candidates h db2 s node eligible policy pool = ?C"
  proof -
    have "unavailable_in (abs_ledger db2) policy pool t = unavailable_in (abs_ledger db) policy pool t" if "t \<noteq> s" for t
      unfolding L'
    proof (rule unavailable_after_grant [OF wf_ledgerD(2) [OF wf] that])
      show "S \<inter> unavailable_in (abs_ledger db) policy pool t = {}"
        using S(2) that unfolding numa_candidates_abs [OF wf] by blast
    qed
    then show ?thesis unfolding numa_candidates_abs [OF wf] numa_candidates_abs [OF again(1)] by auto
  qed
  have sub: "S \<subseteq> ?N" "S \<subseteq> eligible" using grant(2) by auto
  have fin: "finite ?C" using el cpu_ids_finite finite_subset [of ?C eligible] by (auto simp: numa_candidates_def)
  have "owned_by db2 s \<inter> ?C = S" using own2 [of s] S(2) by (auto simp: numa_candidates_def)
  then have "stable_with pick (owned_by db2 s) ?C n = Inr S" for pick
    using stable_again [OF fin S(2), of pick] S(1,2) by (simp add: stable_with_def Int_absorb2)
  then have sel2: "numa_selection h policy (owned_by db2 s) ?C n = Inr S"
    using sel by (cases "policy = NON_PREEMPTIVE") (auto simp: numa_selection_def)
  have elig2: "owned_by db2 s \<subseteq> eligible" using own2 [of s] grant(3) sub(2) by auto
  have pol2': "effective_policy db2 s (Some policy) = Inr policy" using pol2 by (auto simp: effective_policy_Inr)
  obtain db3 where ap2: "apply_numa_explicit_allocation h check s node S (Some policy) pool eligible db2 = Inr db3"
  proof (rule exE [OF apply_numa_total [OF again(1) el pool2 pol2' nodes grant(2) elig2, of check]])
    show "check S = Inr ()" by (rule grant(4))
  qed (use own2 in auto)
  have "wf_ledger db3 \<and> abs_ledger db3 = numa_grant s (?N \<inter> owned_by db2 s) S policy pool (abs_ledger db2)"
    by (rule apply_numa_abs [OF again(1) el ne ap2]) (use pol2' in simp)
  moreover have "numa_grant s (?N \<inter> owned_by db2 s) S policy pool (abs_ledger db2) = abs_ledger db2"
    by (rule numa_grant_again [OF sub(1), where L' = "abs_ledger db2" and L = "abs_ledger db", unfolded owned_in_abs, OF L'])
  moreover have "allocate_numa_cores h check s node n requested pool eligible db2 = Inr ((cores, rejected), db3)"
    using allocate_numa_intro [OF again(1) el n pol2 pool2 nodes elig2, of node S check db3, unfolded C2, OF sel2 val ap2] cores by simp
  ultimately show ?thesis using again(2) by auto
qed

end
