(* ===== verification/Handler_Retry.thy ===== *)
theory Handler_Retry
  imports Daemon_System Store_Progress Ledger_Retry
begin

text \<open>
  Asking again: on a store that holds the result of an allocation, the same request to the daemon
  gets the same answer and leaves the same claims.
\<close>

section \<open>Claims of a pool after a grant\<close>

lemma owned_by_pool:
  assumes "wf_ledger db" "get_claimed_cpus db (Some pool) = Inr claimed"
  shows "claimed = \<Union> (owned_by db ` {t. service_pool db t = pool})"
  using assms by (simp add: claimed_cpus_wf)

text \<open>A grant adds only the new CPUs to the claims of its pool.\<close>

lemma claims_after_grant:
  assumes wf: "wf_ledger db" "wf_ledger db2" and pool: "ensure_service_pool db s pool = Inr ()"
    and s: "owned_by db2 s \<subseteq> owned_by db s \<union> S"
    and others: "\<And>t. t \<noteq> s \<Longrightarrow> owned_by db2 t \<subseteq> owned_by db t"
      "\<And>t. t \<noteq> s \<Longrightarrow> owned_by db2 t \<noteq> {} \<Longrightarrow> service_pool db2 t = service_pool db t"
    and claimed: "get_claimed_cpus db (Some pool) = Inr claimed"
  shows "\<exists>claimed2. get_claimed_cpus db2 (Some pool) = Inr claimed2 \<and> claimed2 \<subseteq> claimed \<union> S"
proof -
  have c: "claimed = \<Union> (owned_by db ` {t. service_pool db t = pool})" by (rule owned_by_pool [OF wf(1) claimed])
  have "owned_by db s \<subseteq> claimed"
    using pool unowned_absent(1) [OF wf_ledgerD(1) [OF wf(1)], of s] unfolding c by (cases "dict_has (allocations db) s") auto
  then have "owned_by db2 t \<subseteq> claimed \<union> S" if "service_pool db2 t = pool" for t
    using s others [of t] that unfolding c by (cases "t = s"; cases "owned_by db2 t = {}") auto
  then show ?thesis using claimed_cpus_wf(2) [OF wf(2)] by auto
qed

lemma same_allocated:
  assumes "wf_ledger a" "wf_ledger b" "abs_ledger a = abs_ledger b"
  shows "allocated_cpus a = allocated_cpus b"
  using table_ok_union [OF repr_okD(1) [OF wf_ledgerD(1) [OF assms(1)]]]
    table_ok_union [OF repr_okD(1) [OF wf_ledgerD(1) [OF assms(2)]]] same_ledger(1) [OF assms(3)] by simp

lemma same_stats:
  assumes "wf_ledger a" "wf_ledger b" "abs_ledger a = abs_ledger b" "get_system_stats a t = Inr x"
  obtains y where "get_system_stats b t = Inr y" "stat_total_available_cpus y = stat_total_available_cpus x"
    "stat_remaining_available_cpus y = stat_remaining_available_cpus x"
  using assms(4) same_allocated [OF assms(1-3)] by (auto simp: get_system_stats_def)

lemma same_policy:
  assumes "wf_ledger a" "wf_ledger b" "abs_ledger a = abs_ledger b"
  shows "get_preemption_policy a s = get_preemption_policy b s"
  using same_ledger(3) [OF assms(3,1,2), of s] same_ledger(6) [OF assms(3), of s] by (simp add: get_preemption_policy_def)

section \<open>The operations of the handlers\<close>

lemma allocate_cores_in_again:
  assumes wf: "wf_ledger db" and run: "allocate_cores_in env r provider pool db = Inr (res, db1)"
    and count: "acr_num_of_cores r \<noteq> - 1"
    and el: "cpu_ids (snap_eligible pool)" "snap_eligible pool \<subseteq> prov_configured provider"
    and again: "wf_ledger db2" "abs_ledger db2 = abs_ledger db1"
  shows "\<exists>db3. allocate_cores_in env r provider pool db2 = Inr (res, db3) \<and> wf_ledger db3 \<and> abs_ledger db3 = abs_ledger db1"
proof -
  let ?s = "acr_service_name r" and ?pool = "acr_pool r" and ?E = "snap_eligible pool"
  note E = ranges.dec_enc [OF el(1)]
  let ?run = "allocate_count (env_host env) (check_online (env_final_host env)) ?s (acr_num_of_cores r) (set_ranges ?E)
      (acr_preemption_policy r) ?pool"
  obtain claimed shared dedicated stats n where ens: "ensure_service_pool db ?s ?pool = Inr ()"
    and cl: "get_claimed_cpus db (Some ?pool) = Inr claimed" "validate_claims provider claimed = Inr ()"
    and ne: "?E \<noteq> {}" and alloc: "?run db = Inr ((shared, dedicated), db1)"
    and stats: "get_system_stats db1 (set_ranges ?E) = Inr stats" and n: "count_cpus_in_ranges dedicated = Inr n"
    and res: "res = \<lparr>cores_pool = ?pool, cores_preemption_policy = get_preemption_policy db1 ?s,
              cores_service_name = ?s, cores_num_of_cores = acr_num_of_cores r,
              cores_cores_allocated = n, cores_allocated_cores = dedicated, cores_shared_cpus = shared,
              cores_total_available_cpus = stat_total_available_cpus stats,
              cores_remaining_available_cpus = stat_remaining_available_cpus stats\<rparr>"
    using run count by (auto simp: allocate_cores_in_def Let_def simp del: validate_guards) blast
  obtain S p where S: "S \<subseteq> ?E - foreign_claims db ?s" "wf_ledger db1" "abs_ledger db1 = record_claim ?s S {} p ?pool (abs_ledger db)"
    using allocate_count_abs [OF wf E alloc] by metis
  obtain db3 where db3: "?run db2 = Inr ((shared, dedicated), db3)" "wf_ledger db3" "abs_ledger db3 = abs_ledger db1"
    using allocate_count_again [OF wf E alloc again] by blast
  have ens2: "ensure_service_pool db2 ?s ?pool = Inr ()"
    using allocate_count_abs [OF again(1) E db3(1)] by metis
  note abs2 = abs_components(3) [OF wf_ledgerD(1) [OF again(1)]] and abs1 = abs_components(3) [OF wf_ledgerD(1) [OF wf]]
  have own: "owned_by db2 t = (if t = ?s then S else owned_by db t)" for t
    using owned_in_abs [of db2 t, symmetric] unfolding again(2) S(3) by (simp add: record_claim_def split: if_splits)
  obtain claimed2 where cl2: "get_claimed_cpus db2 (Some ?pool) = Inr claimed2" "claimed2 \<subseteq> claimed \<union> S"
  proof (rule exE [OF claims_after_grant [OF wf again(1) ens _ _ _ cl(1), of S]])
    fix t assume t: "t \<noteq> ?s"
    then show "service_pool db2 t = service_pool db t"
      using abs2 [of t] abs1 [of t] unfolding again(2) S(3) by (simp add: pool_in_def record_claim_def)
  qed (auto simp: own)
  have "validate_claims provider claimed2 = Inr ()"
    using cl(2) cl2(2) S(1) el(2) by (auto simp: validate_claims_def)
  moreover obtain stats3 where "get_system_stats db3 (set_ranges ?E) = Inr stats3"
    "stat_total_available_cpus stats3 = stat_total_available_cpus stats"
    "stat_remaining_available_cpus stats3 = stat_remaining_available_cpus stats"
    by (rule same_stats [OF S(2) db3(2) db3(3) [symmetric] stats])
  ultimately have "allocate_cores_in env r provider pool db2 = Inr (res, db3)"
    using count ens2 cl2(1) ne db3(1) n same_policy [OF db3(2) S(2) db3(3), of ?s]
    by (simp add: allocate_cores_in_def Let_def res del: validate_guards)
  then show ?thesis using db3 by blast
qed

lemma allocate_percent_in_again:
  assumes wf: "wf_ledger db" and run: "allocate_percent_in env r provider pool db = Inr (res, db1)"
    and share: "0 < apr_percent r"
    and el: "cpu_ids (snap_eligible pool)" "snap_eligible pool \<subseteq> prov_configured provider"
    and again: "wf_ledger db2" "abs_ledger db2 = abs_ledger db1"
  shows "\<exists>db3. allocate_percent_in env r provider pool db2 = Inr (res, db3) \<and> wf_ledger db3 \<and> abs_ledger db3 = abs_ledger db1"
proof -
  have "0 \<le> py_len (snap_eligible pool) * apr_percent r" using share by simp
  then have "0 \<le> percent_cores (py_len (snap_eligible pool)) (apr_percent r)"
    unfolding percent_cores_def by (simp add: div_nonpos_pos_le0)
  then have count: "acr_num_of_cores (percent_request r pool) \<noteq> - 1" using share by (simp add: percent_request_def)
  obtain res0 where run0: "allocate_cores_in env (percent_request r pool) provider pool db = Inr (res0, db1)"
    using run by (auto simp: allocate_percent_in_def)
  obtain db3 where "allocate_cores_in env (percent_request r pool) provider pool db2 = Inr (res0, db3)"
    "wf_ledger db3" "abs_ledger db3 = abs_ledger db1"
    using allocate_cores_in_again [OF wf run0 count el again] by blast
  then show ?thesis using run run0 by (simp add: allocate_percent_in_def)
qed

lemma allocate_numa_in_again:
  assumes wf: "wf_ledger db" and run: "allocate_numa_in env r provider pool db = Inr (res, db1)"
    and count: "anr_num_of_cores r \<noteq> - 1"
    and el: "cpu_ids (snap_eligible pool)" "snap_eligible pool \<subseteq> prov_configured provider"
    and again: "wf_ledger db2" "abs_ledger db2 = abs_ledger db1"
  shows "\<exists>db3. allocate_numa_in env r provider pool db2 = Inr (res, db3) \<and> wf_ledger db3 \<and> abs_ledger db3 = abs_ledger db1"
proof -
  let ?s = "anr_service_name r" and ?pool = "anr_pool r" and ?E = "snap_eligible pool" and ?n = "anr_num_of_cores r"
  note E = ranges.dec_enc [OF el(1)]
  let ?run = "allocate_numa_cores (env_host env) (check_online (env_final_host env)) ?s (anr_numa_node r) ?n
      (anr_preemption_policy r) ?pool ?E"
  obtain numa_cpus claimed available cores rejected stats updated where zero: "?n \<noteq> 0"
    and ens: "ensure_service_pool db ?s ?pool = Inr ()"
    and stats: "get_system_stats db (set_ranges ?E) = Inr stats"
    and nodes: "get_numa_node_cpus (env_host env) = Inr numa_cpus" "dict_has numa_cpus (anr_numa_node r)"
    and cl: "get_claimed_cpus db (Some ?pool) = Inr claimed" "validate_claims provider claimed = Inr ()"
    and ne: "?E \<noteq> {}"
    and av: "get_cpus_in_numa_node (env_host env) (anr_numa_node r) (set_ranges ?E) = Inr available"
      "available \<noteq> {}" "?n \<le> py_len available"
    and alloc: "?run db = Inr ((cores, rejected), db1)" "cores \<noteq> []"
    and upd: "get_system_stats db1 (set_ranges ?E) = Inr updated"
    and res: "res = numa_response r cores db1 stats updated"
    using run count by (auto simp: allocate_numa_in_def Let_def not_less simp del: validate_guards) blast
  have "\<not> ?n < - 1"
  proof
    assume "?n < - 1"
    from allocate_numa_negative [OF this] show False using alloc(1) by (metis sum.distinct(1))
  qed
  then have pos: "0 < ?n" using zero count by simp
  obtain S p where S: "S \<subseteq> ?E" "wf_ledger db1"
    "abs_ledger db1 = numa_grant ?s (numa_node_set (env_host env) (anr_numa_node r) \<inter> owned_by db ?s) S p ?pool (abs_ledger db)"
  proof (rule allocate_numa_abs [OF wf el(1) pos alloc(1)], goal_cases)
    case (1 S p)
    then show thesis using that [of S p] by (auto simp: numa_candidates_def)
  qed (use alloc(2) in simp)
  obtain db3 where db3: "?run db2 = Inr ((cores, rejected), db3)" "wf_ledger db3" "abs_ledger db3 = abs_ledger db1"
    using allocate_numa_again [OF wf el(1) pos alloc again] by blast
  have ens2: "ensure_service_pool db2 ?s ?pool = Inr ()"
    using db3(1) unfolding allocate_numa_cores_def by (auto simp del: validate_guards)
  note abs2 = abs_components(3) [OF wf_ledgerD(1) [OF again(1)]] and abs1 = abs_components(3) [OF wf_ledgerD(1) [OF wf]]
  have own: "owned_by db2 t = (if t = ?s then owned_by db ?s - numa_node_set (env_host env) (anr_numa_node r) \<inter> owned_by db ?s \<union> S
      else owned_by db t - S)" for t
    using owned_in_abs [of db2 t, symmetric] unfolding again(2) S(3) by simp
  obtain claimed2 where cl2: "get_claimed_cpus db2 (Some ?pool) = Inr claimed2" "claimed2 \<subseteq> claimed \<union> S"
  proof (rule exE [OF claims_after_grant [OF wf again(1) ens _ _ _ cl(1), of S]])
    fix t assume t: "t \<noteq> ?s" "owned_by db2 t \<noteq> {}"
    then obtain c where "abs_ledger db t = Some c" "cl_owned c - S \<noteq> {}"
      using own [of t] owned_in_abs [of db t] by (cases "abs_ledger db t") (auto simp: owned_in_def)
    then show "service_pool db2 t = service_pool db t"
      using abs2 [of t] abs1 [of t] t(1) unfolding again(2) S(3)
      by (simp add: pool_in_def numa_grant_def shrink_claim_def)
  qed (auto simp: own)
  have valid: "validate_claims provider claimed2 = Inr ()"
    using cl(2) cl2(2) S(1) el(2) by (auto simp: validate_claims_def)
  obtain updated3 where upd3: "get_system_stats db3 (set_ranges ?E) = Inr updated3"
    "stat_remaining_available_cpus updated3 = stat_remaining_available_cpus updated"
    by (rule same_stats [OF S(2) db3(2) db3(3) [symmetric] upd])
  obtain stats2 where stats2: "get_system_stats db2 (set_ranges ?E) = Inr stats2"
    "stat_total_available_cpus stats2 = stat_total_available_cpus stats"
    using stats by (auto simp: get_system_stats_def)
  have "allocate_numa_in env r provider pool db2 = Inr (res, db3)"
    using count zero ens2 stats2 nodes cl2(1) valid ne av db3(1) alloc(2) upd3 same_policy [OF db3(2) S(2) db3(3), of ?s]
    by (simp add: allocate_numa_in_def Let_def res numa_response_def del: validate_guards)
  then show ?thesis using db3 by blast
qed

section \<open>The requests\<close>

text \<open>A transaction whose operation accepts the stored ledger commits when nothing fails.\<close>

lemma calm_ledger_transaction:
  assumes "ledgers_sound s" "fates s = []" "\<not> blocked s" "stored_ledger s = Some db"
    and "operation db = Inr (x, db')" "wf_ledger db'"
  obtains s' where "transaction operation now m s = (Ret x, db', s')"
proof -
  obtain c where c: "section_of ''allocations_db'' (state_file s) = Some c" "ledger_in c = Some db"
    using assms(4) by (auto simp: stored_ledger_def bind_eq_Some_conv)
  then obtain d where d: "doc_of (state_file s) = Some d" "section_content ''allocations_db'' d = Inr c"
    using section_of_Some by blast
  have "txn_update operation c = Inr (snapshot db', x, db')" using c(2) assms(5) by (simp add: txn_update_Inr)
  then obtain t where "transaction_section ''allocations_db'' (txn_update operation) now s = (Ret (x, db'), t)"
    using calm_commit [OF assms(2,3) d, of "txn_update operation" "snapshot db'" "(x, db')" now] by blast
  then show thesis
    using that load_snapshot_snapshot [OF wf_ledgerD(1) [OF assms(6)]] by (simp add: transaction_def)
qed

text \<open>The time of a request is only a stamp in the file.\<close>

lemma now_irrelevant [simp]:
  "allocate_cores_in (env\<lparr>env_now := now\<rparr>) r = allocate_cores_in env r"
  "allocate_percent_in (env\<lparr>env_now := now\<rparr>) pr = allocate_percent_in env pr"
  "allocate_numa_in (env\<lparr>env_now := now\<rparr>) nr = allocate_numa_in env nr"
  "with_snapshot (env\<lparr>env_now := now\<rparr>) = with_snapshot env"
  by (simp_all add: fun_eq_iff allocate_cores_in_def allocate_percent_in_def allocate_numa_in_def with_snapshot_def Let_def)

lemma snapshot_configured:
  assumes "pool_snapshot h provider allow = Inr snap"
  shows "cpu_ids (snap_eligible snap)" "snap_eligible snap \<subseteq> prov_configured provider"
  using pool_snapshot_Inr(2,4) [OF assms] by auto

lemma transaction_again:
  assumes sound: "ledgers_sound s" and keep: "\<And>p. keeps_ledger (with_snapshot env p allow (f p))"
    and run: "bind_s (lift_s (select_pool pools pool)) (\<lambda>p. transaction (with_snapshot env p allow (f p)) now) m s
      = (Ret x, m', s')"
    and repeat: "\<And>p snap db db2. wf_ledger db \<Longrightarrow> f p snap db = Inr (x, m') \<Longrightarrow> cpu_ids (snap_eligible snap) \<Longrightarrow>
      snap_eligible snap \<subseteq> prov_configured p \<Longrightarrow> wf_ledger db2 \<Longrightarrow> abs_ledger db2 = abs_ledger m' \<Longrightarrow>
      \<exists>db3. f p snap db2 = Inr (x, db3) \<and> wf_ledger db3 \<and> abs_ledger db3 = abs_ledger m'"
    and t: "ledgers_sound t" "fates t = []" "\<not> blocked t" "stored_ledger t = stored_ledger s'"
  shows "\<exists>m2 t'. bind_s (lift_s (select_pool pools pool)) (\<lambda>p. transaction (with_snapshot env p allow (f p)) now') n t
      = (Ret x, m2, t') \<and> map_option abs_ledger (stored_ledger t') = map_option abs_ledger (stored_ledger t)"
proof -
  obtain p snap db where p: "select_pool pools pool = Inr p" and sn: "pool_snapshot (env_host env) p allow = Inr snap"
    and db: "wf_ledger db" "f p snap db = Inr (x, m')" "wf_ledger m'" "stored_ledger s' = Some (sorted_adb m')"
    by (rule transaction_handler_Ret [OF sound keep run])
  note repr = wf_ledgerD(1) [OF db(3)]
  obtain db3 where db3: "f p snap (sorted_adb m') = Inr (x, db3)" "wf_ledger db3" "abs_ledger db3 = abs_ledger m'"
    using repeat [OF db(1,2) snapshot_configured [OF sn] sorted_wf [OF db(3)] sorted_abs [OF repr]] by blast
  have st: "stored_ledger t = Some (sorted_adb m')" using t(4) db(4) by simp
  have op: "with_snapshot env p allow (f p) (sorted_adb m') = Inr (x, db3)" using sn db3(1) by (simp add: with_snapshot_def)
  obtain t' where again: "transaction (with_snapshot env p allow (f p)) now' n t = (Ret x, db3, t')"
    by (rule calm_ledger_transaction [where operation = "with_snapshot env p allow (f p)", OF t(1-3) st op db3(2)])
  have "stored_ledger t' = Some (sorted_adb db3)"
    by (rule transaction_Ret [OF t(1) keep again])
  then show ?thesis
    using again p st db3(3) sorted_abs [OF repr] sorted_abs [OF wf_ledgerD(1) [OF db3(2)]]
    by (simp add: bind_s_def)
qed

text \<open>The requests for CPUs, as opposed to releases and reports.\<close>

primrec asks_for_cpus :: "epa_request \<Rightarrow> bool" where
  "asks_for_cpus (CoresRequest r) \<longleftrightarrow> acr_num_of_cores r \<noteq> - 1"
| "asks_for_cpus (PercentRequest r) \<longleftrightarrow> 0 < apr_percent r"
| "asks_for_cpus (NumaRequest r) \<longleftrightarrow> anr_num_of_cores r \<noteq> - 1"
| "asks_for_cpus (ListRequest r) \<longleftrightarrow> False"
| "asks_for_cpus (MemoryRequest r) \<longleftrightarrow> False"
| "asks_for_cpus (HugepagesRequest r) \<longleftrightarrow> False"

lemma ledger_Ret:
  assumes "map_outcome g (on_ledger f w) = (Ret y, w')"
  obtains x m' where "f (w_ledger w) (w_store w) = (Ret x, m', w_store w')" "y = g x"
  using assms by (auto simp: map_outcome_def on_ledger_def split: prod.splits outcome.splits)

lemma on_ledger_Ret:
  "f (w_ledger v) (w_store v) = (Ret x, m', t') \<Longrightarrow>
     \<exists>v'. map_outcome g (on_ledger f v) = (Ret (g x), v') \<and> w_store v' = t'"
  by (simp add: map_outcome_def on_ledger_def)

lemma request_again:
  assumes sound: "ledgers_sound (w_store w)" and ask: "asks_for_cpus req"
    and run: "run_request env pools req w = (Ret response, w')"
    and v: "ledgers_sound (w_store v)" "fates (w_store v) = []" "\<not> blocked (w_store v)"
      "stored_ledger (w_store v) = stored_ledger (w_store w')"
  shows "\<exists>v'. run_request (env\<lparr>env_now := now\<rparr>) pools req v = (Ret response, v') \<and>
    map_option abs_ledger (stored_ledger (w_store v')) = map_option abs_ledger (stored_ledger (w_store v))"
proof (cases req)
  case (CoresRequest r)
  then have "map_outcome CoresResponse (on_ledger (handle_allocate_cores env pools r) w) = (Ret response, w')"
    using run by (simp add: run_request_def)
  then obtain x m' where 1: "handle_allocate_cores env pools r (w_ledger w) (w_store w) = (Ret x, m', w_store w')"
    and x: "response = CoresResponse x" by (rule ledger_Ret)
  have count: "acr_num_of_cores r \<noteq> - 1" using ask CoresRequest by simp
  have "\<exists>m2 t'. handle_allocate_cores (env\<lparr>env_now := now\<rparr>) pools r (w_ledger v) (w_store v) = (Ret x, m2, t') \<and>
      map_option abs_ledger (stored_ledger t') = map_option abs_ledger (stored_ledger (w_store v))"
    unfolding handle_allocate_cores_def now_irrelevant
  proof (rule transaction_again [where f = "allocate_cores_in env r", OF sound handlers_keep(1)
        1 [unfolded handle_allocate_cores_def] _ v])
  qed (rule allocate_cores_in_again [OF _ _ count])
  then obtain m2 t' where 2: "handle_allocate_cores (env\<lparr>env_now := now\<rparr>) pools r (w_ledger v) (w_store v) = (Ret x, m2, t')"
    and same: "map_option abs_ledger (stored_ledger t') = map_option abs_ledger (stored_ledger (w_store v))" by blast
  from on_ledger_Ret [where f = "handle_allocate_cores (env\<lparr>env_now := now\<rparr>) pools r" and g = CoresResponse, OF 2]
  show ?thesis using same by (auto simp: run_request_def CoresRequest x)
next
  case (PercentRequest r)
  then have "map_outcome PercentResponse (on_ledger (handle_allocate_cores_percent env pools r) w) = (Ret response, w')"
    using run by (simp add: run_request_def)
  then obtain x m' where 1: "handle_allocate_cores_percent env pools r (w_ledger w) (w_store w) = (Ret x, m', w_store w')"
    and x: "response = PercentResponse x" by (rule ledger_Ret)
  have count: "0 < apr_percent r" using ask PercentRequest by simp
  have "\<exists>m2 t'. handle_allocate_cores_percent (env\<lparr>env_now := now\<rparr>) pools r (w_ledger v) (w_store v) = (Ret x, m2, t') \<and>
      map_option abs_ledger (stored_ledger t') = map_option abs_ledger (stored_ledger (w_store v))"
    unfolding handle_allocate_cores_percent_def now_irrelevant
  proof (rule transaction_again [where f = "allocate_percent_in env r", OF sound handlers_keep(2)
        1 [unfolded handle_allocate_cores_percent_def] _ v])
  qed (rule allocate_percent_in_again [OF _ _ count])
  then obtain m2 t' where 2: "handle_allocate_cores_percent (env\<lparr>env_now := now\<rparr>) pools r (w_ledger v) (w_store v) = (Ret x, m2, t')"
    and same: "map_option abs_ledger (stored_ledger t') = map_option abs_ledger (stored_ledger (w_store v))" by blast
  from on_ledger_Ret [where f = "handle_allocate_cores_percent (env\<lparr>env_now := now\<rparr>) pools r" and g = PercentResponse, OF 2]
  show ?thesis using same by (auto simp: run_request_def PercentRequest x)
next
  case (NumaRequest r)
  then have "map_outcome NumaResponse (on_ledger (handle_allocate_numa_cores env pools r) w) = (Ret response, w')"
    using run by (simp add: run_request_def)
  then obtain x m' where 1: "handle_allocate_numa_cores env pools r (w_ledger w) (w_store w) = (Ret x, m', w_store w')"
    and x: "response = NumaResponse x" by (rule ledger_Ret)
  have count: "anr_num_of_cores r \<noteq> - 1" using ask NumaRequest by simp
  have "\<exists>m2 t'. handle_allocate_numa_cores (env\<lparr>env_now := now\<rparr>) pools r (w_ledger v) (w_store v) = (Ret x, m2, t') \<and>
      map_option abs_ledger (stored_ledger t') = map_option abs_ledger (stored_ledger (w_store v))"
    unfolding handle_allocate_numa_cores_def now_irrelevant
  proof (rule transaction_again [where f = "allocate_numa_in env r", OF sound handlers_keep(3)
        1 [unfolded handle_allocate_numa_cores_def] _ v])
  qed (rule allocate_numa_in_again [OF _ _ count])
  then obtain m2 t' where 2: "handle_allocate_numa_cores (env\<lparr>env_now := now\<rparr>) pools r (w_ledger v) (w_store v) = (Ret x, m2, t')"
    and same: "map_option abs_ledger (stored_ledger t') = map_option abs_ledger (stored_ledger (w_store v))" by blast
  from on_ledger_Ret [where f = "handle_allocate_numa_cores (env\<lparr>env_now := now\<rparr>) pools r" and g = NumaResponse, OF 2]
  show ?thesis using same by (auto simp: run_request_def NumaRequest x)
qed (use ask in simp_all)

end
