(* ===== verification/Claims_Handlers.thy ===== *)
theory Claims_Handlers
  imports Example_Host Response_Types Handler_Retry
begin

text \<open>
  Properties of the request handlers: what a successful answer says of the ledger that was
  committed for it, what a failed request leaves behind, and the release that always works.
\<close>

section \<open>Allocating by count\<close>

lemma policy_of_claim:
  "abs_ledger db s = Some c \<Longrightarrow> get_preemption_policy db s = Some (cl_policy c)"
  by (auto simp: abs_ledger_def get_preemption_policy_def split: if_splits)

lemma count_of_set: "cpu_ids S \<Longrightarrow> count_cpus_in_ranges (set_ranges S) = Inr (py_len S)"
  by (simp add: count_cpus_in_ranges_def ranges.dec_enc)

text \<open>What an answer by count says of the candidate it was built from.\<close>

lemma cores_answer:
  assumes "wf_ledger db" "cpu_ids (snap_eligible pool)" "acr_num_of_cores r \<noteq> - 1"
    and "allocate_cores_in env r provider pool db = Inr (res, db')"
  obtains S policy where "cores_allocated_cores res = set_ranges S" "cores_cores_allocated res = py_len S"
    and "S \<subseteq> snap_eligible pool - foreign_claims db (acr_service_name r)" "cpu_ids S" "S \<noteq> {}"
    and "py_len S = count_target (snap_eligible pool - foreign_claims db (acr_service_name r)) (acr_num_of_cores r)"
    and "check_online (env_final_host env) S = Inr ()"
    and "cores_shared_cpus res = set_ranges (snap_eligible pool - foreign_claims db (acr_service_name r) - S)"
    and "cores_preemption_policy res = Some policy"
    and "abs_ledger db' = record_claim (acr_service_name r) S {} policy (acr_pool r) (abs_ledger db)"
    and "cores_remaining_available_cpus res = py_len (snap_eligible pool - allocated_cpus db')"
proof -
  note E = ranges.dec_enc [OF assms(2)]
  obtain shared dedicated claimed stats where
    run: "allocate_count (env_host env) (check_online (env_final_host env)) (acr_service_name r)
       (acr_num_of_cores r) (set_ranges (snap_eligible pool)) (acr_preemption_policy r) (acr_pool r) db
     = Inr ((shared, dedicated), db')"
    and stats: "get_system_stats db' (set_ranges (snap_eligible pool)) = Inr stats"
    and res: "cores_allocated_cores res = dedicated" "cores_shared_cpus res = shared"
    "count_cpus_in_ranges dedicated = Inr (cores_cores_allocated res)"
    "cores_preemption_policy res = get_preemption_policy db' (acr_service_name r)"
    "cores_remaining_available_cpus res = stat_remaining_available_cpus stats"
    by (rule allocate_cores_in_count [OF assms(4,3)])
  obtain S policy where S: "check_online (env_final_host env) S = Inr ()" "dedicated = set_ranges S"
      "shared = set_ranges (snap_eligible pool - foreign_claims db (acr_service_name r) - S)"
      "cpu_ids S" "S \<noteq> {}" "S \<subseteq> snap_eligible pool - foreign_claims db (acr_service_name r)"
      "py_len S = count_target (snap_eligible pool - foreign_claims db (acr_service_name r)) (acr_num_of_cores r)"
      "abs_ledger db' = record_claim (acr_service_name r) S {} policy (acr_pool r) (abs_ledger db)"
    by (rule allocate_count_abs [OF assms(1) E run])
  have "cores_preemption_policy res = Some policy"
    using policy_of_claim [of db' "acr_service_name r"] S(8) res(4) by (simp add: record_claim_def)
  moreover have "cores_remaining_available_cpus res = py_len (snap_eligible pool - allocated_cpus db')"
    using stats res(5) E by (auto simp: get_system_stats_def)
  moreover have "cores_cores_allocated res = py_len S" using res(3) S(2) count_of_set [OF S(4)] by simp
  ultimately show thesis using that S res(1,2) by simp
qed

text \<open>C5: A successful answer to an allocation by count describes what was committed: the ledger on disk,
  durable, is the one before with the service's claim replaced by the CPUs named in the answer. They
  are configured and online CPUs of the requested pool that nobody else owned, they passed the
  final online check, their number and policy and the remaining free CPUs are those of the
  committed ledger.\<close>

theorem cores_answer_is_committed:
  assumes "ledgers_sound s" "acr_num_of_cores r \<noteq> - 1"
    and "handle_allocate_cores env pools r m s = (Ret res, m', s')"
  shows "\<exists>provider snap db S policy. select_pool pools (acr_pool r) = Inr provider \<and>
    pool_snapshot (env_host env) provider False = Inr snap \<and> stored_ledger s = Some db \<and>
    cores_allocated_cores res = set_ranges S \<and> cores_cores_allocated res = py_len S \<and> S \<noteq> {} \<and>
    S \<subseteq> prov_configured provider \<inter> snap_eligible snap - foreign_claims db (acr_service_name r) \<and>
    check_online (env_final_host env) S = Inr () \<and> cores_preemption_policy res = Some policy \<and>
    cores_remaining_available_cpus res = py_len (snap_eligible snap - allocated_cpus m') \<and>
    abs_ledger m' = record_claim (acr_service_name r) S {} policy (acr_pool r) (abs_ledger db) \<and>
    wf_ledger m' \<and> stored_ledger s' = Some (sorted_adb m') \<and> durable s'"
proof -
  have allow: "(acr_num_of_cores r = - 1) = False" using assms(2) by simp
  obtain provider snap db where p: "select_pool pools (acr_pool r) = Inr provider"
    and sn: "pool_snapshot (env_host env) provider False = Inr snap"
    and db: "stored_ledger s = Some db" "wf_ledger db"
    and run: "allocate_cores_in env r provider snap db = Inr (res, m')"
    and st: "wf_ledger m'" "stored_ledger s' = Some (sorted_adb m')" "durable s'"
    by (rule transaction_handler_Ret [OF assms(1) handlers_keep(1)
          assms(3) [unfolded handle_allocate_cores_def allow]])
  obtain S policy where "cores_allocated_cores res = set_ranges S" "cores_cores_allocated res = py_len S"
    "S \<subseteq> snap_eligible snap - foreign_claims db (acr_service_name r)" "S \<noteq> {}"
    "check_online (env_final_host env) S = Inr ()" "cores_preemption_policy res = Some policy"
    "abs_ledger m' = record_claim (acr_service_name r) S {} policy (acr_pool r) (abs_ledger db)"
    "cores_remaining_available_cpus res = py_len (snap_eligible snap - allocated_cpus m')"
    by (rule cores_answer [OF db(2) pool_snapshot_Inr(2) [OF sn] assms(2) run])
  moreover have "snap_eligible snap \<subseteq> prov_configured provider"
    using pool_snapshot_Inr(1,4) [OF sn] by blast
  ultimately show ?thesis using p sn db(1) st by blast
qed

theorem cores_answer_is_committed_witness:
  "\<exists>res m' s' S. handle_allocate_cores example_env example_pools (cores_request ''c'' 3) empty_adb example_store
     = (Ret res, m', s') \<and> cores_allocated_cores res = set_ranges S \<and>
     stored_ledger s' = Some (sorted_adb m') \<and> durable s'"
proof -
  have "case handle_allocate_cores example_env example_pools (cores_request ''c'' 3) empty_adb example_store of
      (Ret res, m', s') \<Rightarrow> True | _ \<Rightarrow> False" by code_simp
  then obtain res m' s' where run: "handle_allocate_cores example_env example_pools (cores_request ''c'' 3)
      empty_adb example_store = (Ret res, m', s')"
    by (auto split: prod.splits outcome.splits)
  have "acr_num_of_cores (cores_request ''c'' 3) \<noteq> - 1" by (simp add: cores_request_def)
  from cores_answer_is_committed [OF example_ledgers_sound this run] run show ?thesis by blast
qed

section \<open>Allocating a percentage\<close>

lemma percent_cores_bounds:
  assumes "0 < n" "0 < p" "p \<le> 100"
  shows "1 \<le> percent_cores n p" "percent_cores n p \<le> n"
    "n * p \<le> 100 * percent_cores n p" "100 * (percent_cores n p - 1) < n * p"
proof -
  have ceil: "100 * (- (- x div 100) - 1) < x" for x :: int by presburger
  have "0 < n * p" "n * p \<le> n * 100" using assms by simp_all
  then show "1 \<le> percent_cores n p" "percent_cores n p \<le> n"
    "n * p \<le> 100 * percent_cores n p" "100 * (percent_cores n p - 1) < n * p"
    unfolding percent_cores_def using ceil [of "n * p"] by linarith+
qed

text \<open>C34: A successful answer to a percentage request from 1 to 100 has committed a claim of exactly the
  rounded-up share of the eligible CPUs: at least one, at most all of them, and never a whole CPU
  more than the share; it is the answer and the ledger the count request for that number gives.\<close>

theorem percent_answer_is_rounded_up:
  assumes "ledgers_sound s" "1 \<le> apr_percent r" "apr_percent r \<le> 100"
    and "handle_allocate_cores_percent env pools r m s = (Ret res, m', s')"
  shows "\<exists>provider snap db res0. select_pool pools (apr_pool r) = Inr provider \<and>
    pool_snapshot (env_host env) provider False = Inr snap \<and> stored_ledger s = Some db \<and>
    allocate_cores_in env (percent_request r snap) provider snap db = Inr (res0, m') \<and>
    percent_allocated_cores res = cores_allocated_cores res0 \<and>
    percent_cores_allocated_count res = py_len (owned_by m' (apr_service_name r)) \<and>
    1 \<le> percent_cores_allocated_count res \<and>
    percent_cores_allocated_count res \<le> py_len (snap_eligible snap) \<and>
    py_len (snap_eligible snap) * apr_percent r \<le> 100 * percent_cores_allocated_count res \<and>
    100 * (percent_cores_allocated_count res - 1) < py_len (snap_eligible snap) * apr_percent r \<and>
    stored_ledger s' = Some (sorted_adb m') \<and> durable s'"
proof -
  have allow: "(apr_percent r = - 1 \<or> apr_percent r = 0) = False" using assms(2) by simp
  obtain provider snap db where p: "select_pool pools (apr_pool r) = Inr provider"
    and sn: "pool_snapshot (env_host env) provider False = Inr snap"
    and db: "stored_ledger s = Some db" "wf_ledger db"
    and run: "allocate_percent_in env r provider snap db = Inr (res, m')"
    and st: "wf_ledger m'" "stored_ledger s' = Some (sorted_adb m')" "durable s'"
    by (rule transaction_handler_Ret [OF assms(1) handlers_keep(2)
          assms(4) [unfolded handle_allocate_cores_percent_def allow]])
  obtain res0 where run0: "allocate_cores_in env (percent_request r snap) provider snap db = Inr (res0, m')"
    and res: "percent_cores_allocated_count res = cores_cores_allocated res0"
      "percent_allocated_cores res = cores_allocated_cores res0"
    by (rule allocate_percent_in_Inr [OF run])
  note ids = pool_snapshot_Inr(2) [OF sn]
  let ?E = "snap_eligible snap" and ?n = "percent_cores (py_len (snap_eligible snap)) (apr_percent r)"
  have req: "acr_num_of_cores (percent_request r snap) = ?n" "acr_service_name (percent_request r snap) = apr_service_name r"
    using assms(2) by (simp_all add: percent_request_def)
  have neg: "0 \<le> x \<Longrightarrow> - x div 100 \<le> 0" for x :: int by linarith
  have "0 \<le> py_len ?E * apr_percent r" using assms(2) by simp
  from neg [OF this] have n0: "0 \<le> ?n" unfolding percent_cores_def by linarith
  then have ne: "acr_num_of_cores (percent_request r snap) \<noteq> - 1" unfolding req(1) by linarith
  obtain S policy where S: "cores_cores_allocated res0 = py_len S" "S \<noteq> {}"
    "S \<subseteq> ?E - foreign_claims db (acr_service_name (percent_request r snap))"
    "py_len S = count_target (?E - foreign_claims db (acr_service_name (percent_request r snap)))
       (acr_num_of_cores (percent_request r snap))"
    "abs_ledger m' = record_claim (acr_service_name (percent_request r snap)) S {} policy
       (acr_pool (percent_request r snap)) (abs_ledger db)"
    by (rule cores_answer [OF db(2) ids ne run0])
  have "?E \<noteq> {}" "finite ?E" using S(2,3) ids by blast+
  then have "0 < py_len ?E" using py_len_zero_iff [of ?E] py_len_nonneg [of ?E] by linarith
  note b = percent_cores_bounds [OF this _ assms(3)]
  have "1 \<le> ?n" using b(1) assms(2) by linarith
  then have size: "py_len S = ?n" using S(4) unfolding req(1) by (simp add: count_target_def)
  have "owned_in (abs_ledger m') (apr_service_name r) = S" unfolding S(5) req(2) by (simp add: record_claim_def)
  then have own: "owned_by m' (apr_service_name r) = S" by simp
  have "0 < apr_percent r" using assms(2) by simp
  note b = b [OF this]
  have cnt: "percent_cores_allocated_count res = py_len S" using res(1) S(1) by simp
  show ?thesis
    by (rule exI [of _ provider], rule exI [of _ snap], rule exI [of _ db], rule exI [of _ res0])
      (use p sn db(1) run0 res(2) st b in \<open>simp add: own cnt size\<close>)
qed

definition percent_of :: "string \<Rightarrow> int \<Rightarrow> allocate_cores_percent_request" where
  "percent_of s p = \<lparr>apr_pool = ISOLATED, apr_preemption_policy = None, apr_service_name = s, apr_percent = p\<rparr>"

theorem percent_answer_is_rounded_up_witness:
  "\<exists>res m' s'. handle_allocate_cores_percent example_env example_pools (percent_of ''c'' 30) empty_adb example_store
     = (Ret res, m', s') \<and> 1 \<le> percent_cores_allocated_count res \<and> stored_ledger s' = Some (sorted_adb m')"
proof -
  have "case handle_allocate_cores_percent example_env example_pools (percent_of ''c'' 30) empty_adb example_store of
      (Ret res, m', s') \<Rightarrow> True | _ \<Rightarrow> False" by code_simp
  then obtain res m' s' where run: "handle_allocate_cores_percent example_env example_pools (percent_of ''c'' 30)
      empty_adb example_store = (Ret res, m', s')"
    by (auto split: prod.splits outcome.splits)
  have "1 \<le> apr_percent (percent_of ''c'' 30)" "apr_percent (percent_of ''c'' 30) \<le> 100"
    by (simp_all add: percent_of_def)
  from percent_answer_is_rounded_up [OF example_ledgers_sound this run] run show ?thesis by blast
qed

section \<open>Allocating from a NUMA node\<close>

text \<open>C10: A successful answer to a NUMA allocation has committed exactly the requested number of CPUs of the
  node to the service, as explicit claims: eligible CPUs that no other service held explicitly,
  non-preemptively or in another pool. CPUs taken from others are gone from their claims in the
  same commit.\<close>

theorem numa_answer_is_committed:
  assumes "ledgers_sound s" "anr_num_of_cores r \<noteq> - 1"
    and "handle_allocate_numa_cores env pools r m s = (Ret res, m', s')"
  shows "\<exists>provider snap db S policy. select_pool pools (anr_pool r) = Inr provider \<and>
    pool_snapshot (env_host env) provider False = Inr snap \<and> stored_ledger s = Some db \<and>
    numa_cores_allocated res = set_ranges S \<and> py_len S = anr_num_of_cores r \<and> 0 < anr_num_of_cores r \<and>
    S \<subseteq> numa_candidates (env_host env) db (anr_service_name r) (anr_numa_node r) (snap_eligible snap)
      policy (anr_pool r) \<and>
    check_online (env_final_host env) S = Inr () \<and>
    S \<subseteq> explicit_by m' (anr_service_name r) \<and>
    (\<forall>t. t \<noteq> anr_service_name r \<longrightarrow> owned_by m' t = owned_by db t - S) \<and>
    wf_ledger m' \<and> stored_ledger s' = Some (sorted_adb m') \<and> durable s'"
proof -
  have allow: "(anr_num_of_cores r = - 1) = False" using assms(2) by simp
  obtain provider snap db where p: "select_pool pools (anr_pool r) = Inr provider"
    and sn: "pool_snapshot (env_host env) provider False = Inr snap"
    and db: "stored_ledger s = Some db" "wf_ledger db"
    and run: "allocate_numa_in env r provider snap db = Inr (res, m')"
    and st: "wf_ledger m'" "stored_ledger s' = Some (sorted_adb m')" "durable s'"
    by (rule transaction_handler_Ret [OF assms(1) handlers_keep(3)
          assms(3) [unfolded handle_allocate_numa_cores_def allow]])
  obtain rejected where alloc: "allocate_numa_cores (env_host env) (check_online (env_final_host env))
      (anr_service_name r) (anr_numa_node r) (anr_num_of_cores r) (anr_preemption_policy r) (anr_pool r)
      (snap_eligible snap) db = Inr ((numa_cores_allocated res, rejected), m')"
    and n: "anr_num_of_cores r \<noteq> 0" and ne: "numa_cores_allocated res \<noteq> []"
    by (rule allocate_numa_in_Inr [OF run]) (use assms(2) in blast)
  have "\<not> anr_num_of_cores r < - 1"
    using allocate_numa_negative alloc by (metis Inl_Inr_False)
  then have pos: "0 < anr_num_of_cores r" using n assms(2) by linarith
  note ids = pool_snapshot_Inr(2) [OF sn]
  show ?thesis
  proof (rule allocate_numa_abs [OF db(2) ids pos alloc], goal_cases)
    case (1 S policy)
    then have grant: "abs_ledger m' = numa_grant (anr_service_name r)
        (numa_node_set (env_host env) (anr_numa_node r) \<inter> owned_by db (anr_service_name r)) S policy
        (anr_pool r) (abs_ledger db)" by blast
    have own: "owned_by m' t = owned_by db t - S" if "t \<noteq> anr_service_name r" for t
    proof -
      have "owned_in (abs_ledger m') t = owned_in (abs_ledger db) t - S" unfolding grant using that by simp
      then show ?thesis by simp
    qed
    have "S \<subseteq> explicit_in (abs_ledger m') (anr_service_name r)"
      unfolding grant by (simp add: explicit_in_def numa_grant_def)
    then have ex: "S \<subseteq> explicit_by m' (anr_service_name r)"
      by (simp add: abs_components(1) [OF wf_ledgerD(1) [OF st(1)]])
    show ?thesis
      by (rule exI [of _ provider], rule exI [of _ snap], rule exI [of _ db], rule exI [of _ S],
          rule exI [of _ policy]) (use 1 p sn db(1) st own ex pos in blast)
  next
    case (2 policy)
    then show ?thesis using ne by blast
  qed
qed

theorem numa_answer_is_committed_witness:
  "\<exists>res m' s'. handle_allocate_numa_cores example_env example_pools (numa_request ''c'' 0 3) empty_adb example_store
     = (Ret res, m', s') \<and> (\<exists>S. py_len S = 3 \<and> S \<subseteq> explicit_by m' ''c'') \<and> stored_ledger s' = Some (sorted_adb m')"
proof -
  have "case handle_allocate_numa_cores example_env example_pools (numa_request ''c'' 0 3) empty_adb example_store of
      (Ret res, m', s') \<Rightarrow> True | _ \<Rightarrow> False" by code_simp
  then obtain res m' s' where run: "handle_allocate_numa_cores example_env example_pools (numa_request ''c'' 0 3)
      empty_adb example_store = (Ret res, m', s')"
    by (auto split: prod.splits outcome.splits)
  have req: "anr_num_of_cores (numa_request ''c'' 0 3) = 3" "anr_service_name (numa_request ''c'' 0 3) = ''c''"
    by (simp_all add: numa_request_def)
  have "anr_num_of_cores (numa_request ''c'' 0 3) \<noteq> - 1" unfolding req by simp
  from numa_answer_is_committed [OF example_ledgers_sound this run]
  obtain S where "py_len S = 3" "S \<subseteq> explicit_by m' ''c''" "stored_ledger s' = Some (sorted_adb m')"
    unfolding req by (elim exE conjE) (rule that)
  then show ?thesis using run by blast
qed

section \<open>Failed requests\<close>

text \<open>What a request makes of a ledger, without the store.\<close>

definition changed :: "('a \<times> adb) result \<Rightarrow> adb result" where
  "changed r = bindE r (\<lambda>(x, db'). Inr db')"

primrec requested_change :: "env \<Rightarrow> cpu_pools \<Rightarrow> epa_request \<Rightarrow> adb \<Rightarrow> adb result" where
  "requested_change env pools (CoresRequest r) db = bindE (select_pool pools (acr_pool r)) (\<lambda>p.
     changed (with_snapshot env p (acr_num_of_cores r = - 1) (allocate_cores_in env r p) db))"
| "requested_change env pools (PercentRequest r) db = bindE (select_pool pools (apr_pool r)) (\<lambda>p.
     changed (with_snapshot env p (apr_percent r = - 1 \<or> apr_percent r = 0) (allocate_percent_in env r p) db))"
| "requested_change env pools (NumaRequest r) db = bindE (select_pool pools (anr_pool r)) (\<lambda>p.
     changed (with_snapshot env p (anr_num_of_cores r = - 1) (allocate_numa_in env r p) db))"
| "requested_change env pools (ListRequest r) db = Inr db"
| "requested_change env pools (MemoryRequest r) db = Inr db"
| "requested_change env pools (HugepagesRequest r) db = Inr db"

text \<open>A request that raises: nothing is stored, or all of its change is and the store is latched.\<close>

definition all_or_nothing :: "(adb \<Rightarrow> adb result) \<Rightarrow> store \<Rightarrow> store \<Rightarrow> bool" where
  "all_or_nothing change s s' \<longleftrightarrow> stored_ledger s' = stored_ledger s \<or>
     latch s' \<and> (\<exists>db db'. stored_ledger s = Some db \<and> change db = Inr db' \<and> wf_ledger db' \<and>
       stored_ledger s' = Some (sorted_adb db'))"

lemma failed_transaction:
  assumes "ledgers_sound s" "\<And>p. keeps_ledger (with_snapshot env p allow (f p))"
    and "bind_s (lift_s (select_pool pools pool))
      (\<lambda>p. transaction (with_snapshot env p allow (f p)) now) m s = (Raise e, m', s')"
  shows "all_or_nothing (\<lambda>db. bindE (select_pool pools pool) (\<lambda>p. changed (with_snapshot env p allow (f p) db))) s s'"
proof (cases "select_pool pools pool")
  case (Inl e')
  then show ?thesis using assms(3) by (simp add: bind_s_def all_or_nothing_def)
next
  case (Inr p)
  then have t: "transaction (with_snapshot env p allow (f p)) now m s = (Raise e, m', s')"
    using assms(3) by (simp add: bind_s_def)
  from transaction_Raise [OF assms(1,2) t] show ?thesis
  proof (elim disjE conjE exE)
    fix db x db' assume stored: "latch s'" "stored_ledger s = Some db"
      "with_snapshot env p allow (f p) db = Inr (x, db')" "stored_ledger s' = Some (sorted_adb db')"
    then have "wf_ledger db'" using keeps_ledgerD [OF assms(2)] stored_wf [OF assms(1)] by blast
    then show ?thesis using stored Inr by (simp add: all_or_nothing_def changed_def)
  qed (simp add: all_or_nothing_def)
qed

lemma ledger_raise:
  assumes "map_outcome g (on_ledger f w) = (Raise e, w')"
  obtains m' where "f (w_ledger w) (w_store w) = (Raise e, m', w_store w')"
  using assms by (auto simp: map_outcome_def on_ledger_def split: prod.splits outcome.splits)

text \<open>C11: A request of any kind that ends with an exception is all or nothing: the stored ledger is as it was, or
  it is exactly what the request's own operation makes of it, well-formed; then only the durability
  of the commit is in doubt and the store is latched against further writes.\<close>

theorem failed_request_changes_nothing:
  assumes "store_sound (env_to_int env) (w_store w)" "run_request env pools req w = (Raise e, w')"
  shows "all_or_nothing (requested_change env pools req) (w_store w) (w_store w')"
proof -
  have sound: "ledgers_sound (w_store w)" using assms(1) by (simp add: store_sound_def)
  show ?thesis
  proof (cases req)
    case (CoresRequest r)
    then have "map_outcome CoresResponse (on_ledger (handle_allocate_cores env pools r) w) = (Raise e, w')"
      using assms(2) by (simp add: run_request_def)
    then obtain m' where "handle_allocate_cores env pools r (w_ledger w) (w_store w) = (Raise e, m', w_store w')"
      by (rule ledger_raise)
    from failed_transaction [OF sound handlers_keep(1) this [unfolded handle_allocate_cores_def]] show ?thesis
      using CoresRequest by (simp add: all_or_nothing_def)
  next
    case (PercentRequest r)
    then have "map_outcome PercentResponse (on_ledger (handle_allocate_cores_percent env pools r) w) = (Raise e, w')"
      using assms(2) by (simp add: run_request_def)
    then obtain m' where "handle_allocate_cores_percent env pools r (w_ledger w) (w_store w) = (Raise e, m', w_store w')"
      by (rule ledger_raise)
    from failed_transaction [OF sound handlers_keep(2) this [unfolded handle_allocate_cores_percent_def]] show ?thesis
      using PercentRequest by (simp add: all_or_nothing_def)
  next
    case (NumaRequest r)
    then have "map_outcome NumaResponse (on_ledger (handle_allocate_numa_cores env pools r) w) = (Raise e, w')"
      using assms(2) by (simp add: run_request_def)
    then obtain m' where "handle_allocate_numa_cores env pools r (w_ledger w) (w_store w) = (Raise e, m', w_store w')"
      by (rule ledger_raise)
    from failed_transaction [OF sound handlers_keep(3) this [unfolded handle_allocate_numa_cores_def]] show ?thesis
      using NumaRequest by (simp add: all_or_nothing_def)
  next
    case (ListRequest r)
    then have "map_outcome ListResponse (on_ledger (handle_list_allocations env pools r) w) = (Raise e, w')"
      using assms(2) by (simp add: run_request_def)
    then obtain m' where "handle_list_allocations env pools r (w_ledger w) (w_store w) = (Raise e, m', w_store w')"
      by (rule ledger_raise)
    from reads_onlyD [OF list_handler_reads this] have "untouched (w_store w) (w_store w')" .
    then show ?thesis by (simp add: all_or_nothing_def stored_ledger_def untouched_fields)
  qed (use request_answers(2) [OF _ assms(2)] assms(1) in \<open>auto simp: world_sound_def\<close>)
qed

theorem failed_request_changes_nothing_witness:
  "\<exists>e w'. run_request example_env example_pools (CoresRequest (cores_request ''c'' 99))
       \<lparr>w_ledger = empty_adb, w_hugepages = [], w_store = example_store\<rparr> = (Raise e, w') \<and>
     stored_ledger (w_store w') = stored_ledger example_store"
proof -
  let ?w = "\<lparr>w_ledger = empty_adb, w_hugepages = [], w_store = example_store\<rparr>"
  let ?run = "run_request example_env example_pools (CoresRequest (cores_request ''c'' 99)) ?w"
  have "case ?run of (Raise e, w') \<Rightarrow> \<not> latch (w_store w') | _ \<Rightarrow> False" by code_simp
  then obtain e w' where run: "?run = (Raise e, w')" "\<not> latch (w_store w')"
    by (auto split: prod.splits outcome.splits)
  have "store_sound (env_to_int example_env) (w_store ?w)" by (simp add: example_store_sound example_env_def)
  from failed_request_changes_nothing [OF this run(1)] run show ?thesis by (auto simp: all_or_nothing_def)
qed

section \<open>Releases\<close>

lemma read_cpu_list_error: "read_cpu_list h path = Inl e \<Longrightarrow> is_value_error e"
proof -
  have comp: "is_value_error e" if "parse_component p c = Inl e" for p c e
    using that by (auto simp: parse_component_def Let_def raise_if_def split: option.splits if_splits)
  have "is_value_error e" if "parse_components p cs S = Inl e" for p cs S
    using that by (induction cs arbitrary: S) (auto simp: bindE_eq_Inl dest: comp)
  then show "read_cpu_list h path = Inl e \<Longrightarrow> is_value_error e"
    by (auto simp: read_cpu_list_def parse_cpu_list_def split: option.splits if_splits)
qed

lemma snapshot_for_release:
  obtains snap where "pool_snapshot h provider True = Inr snap" "cpu_ids (snap_eligible snap)"
proof -
  obtain snap where "pool_snapshot h provider True = Inr snap"
    using read_cpu_list_error by (cases "read_cpu_list h online_cpus_path") (auto simp: pool_snapshot_def)
  then show thesis using that pool_snapshot_Inr(2) by blast
qed

text \<open>C25: Releasing the CPUs of a service always works: for the pool it owns CPUs in, on an open store whose
  system calls succeed, and whatever the host looks like, even when no CPU capacity can be
  discovered, the request is answered and the committed ledger is the old one without the claim.\<close>

theorem release_always_works:
  assumes "ledgers_sound s" "fates s = []" "\<not> blocked s" "stored_ledger s = Some db"
    and "select_pool pools (acr_pool r) = Inr provider" "acr_num_of_cores r = - 1"
    and "ensure_service_pool db (acr_service_name r) (acr_pool r) = Inr ()"
  shows "\<exists>res m' s'. handle_allocate_cores env pools r m s = (Ret res, m', s') \<and>
    cores_cores_allocated res = 0 \<and> abs_ledger m' = release_claim (acr_service_name r) (abs_ledger db) \<and>
    stored_ledger s' = Some (sorted_adb m') \<and> durable s'"
proof -
  have wf: "wf_ledger db" by (rule stored_wf [OF assms(1,4)])
  obtain snap where snap: "pool_snapshot (env_host env) provider True = Inr snap" "cpu_ids (snap_eligible snap)"
    by (rule snapshot_for_release)
  obtain b db' where rm: "remove_allocation (acr_service_name r) (acr_pool r) db = Inr (b, db')"
    using remove_allocation_total [OF wf assms(7)] by blast
  note abs = remove_allocation_Inr(2,3) [OF wf rm]
  have "\<exists>res. allocate_cores_in env r provider snap db = Inr (res, db') \<and> cores_cores_allocated res = 0"
    using rm assms(6,7) ranges.dec_enc [OF snap(2)]
    by (simp add: allocate_cores_in_def Let_def get_system_stats_def get_available_cpus_def del: validate_guards)
  then obtain res where res: "allocate_cores_in env r provider snap db = Inr (res, db')" "cores_cores_allocated res = 0"
    by blast
  have "with_snapshot env provider True (allocate_cores_in env r provider) db = Inr (res, db')"
    using snap res by (simp add: with_snapshot_def)
  then obtain s' where t: "transaction (with_snapshot env provider True (allocate_cores_in env r provider))
      (env_now env) m s = (Ret res, db', s')"
    by (rule calm_ledger_transaction [OF assms(1-4) _ abs(1)])
  have "stored_ledger s' = Some (sorted_adb db')" "durable s'"
    by (rule transaction_Ret [OF assms(1) handlers_keep(1) t], assumption)+
  moreover have "handle_allocate_cores env pools r m s = (Ret res, db', s')"
    using t assms(5,6) by (simp add: handle_allocate_cores_def bind_s_def)
  ultimately show ?thesis using res(2) abs(2) by blast
qed

text \<open>A host on which nothing can be read.\<close>

definition dark_env :: env where
  "dark_env = example_env\<lparr>env_host := \<lparr>file_text = (\<lambda>p. None), dir_entries = (\<lambda>p. None), path_exists = (\<lambda>p. False)\<rparr>\<rparr>"

theorem release_always_works_witness:
  "\<exists>res m' s'. handle_allocate_cores dark_env example_pools (cores_request ''b'' (- 1)) empty_adb example_store
     = (Ret res, m', s') \<and> cores_cores_allocated res = 0 \<and> stored_ledger s' = Some (sorted_adb m')"
proof -
  have "fates example_store = []" "\<not> blocked example_store" by code_simp+
  moreover have "stored_ledger example_store = Some (sorted_adb example_ledger)"
    using example_content ledger_in_dumped [OF wf_ledgerD(1) [OF example_ledger_wf]]
    by (simp add: stored_ledger_def)
  moreover have "select_pool example_pools (acr_pool (cores_request ''b'' (- 1))) = Inr (isolated_pool example_pools)"
    "acr_num_of_cores (cores_request ''b'' (- 1)) = - 1"
    "ensure_service_pool (sorted_adb example_ledger) (acr_service_name (cores_request ''b'' (- 1)))
       (acr_pool (cores_request ''b'' (- 1))) = Inr ()"
    by code_simp+
  ultimately show ?thesis using release_always_works [OF example_ledgers_sound] by blast
qed

end
