(* ===== verification/Claims_Reports.thy ===== *)
theory Claims_Reports
  imports Example_Host
begin

text \<open>
  Properties of the answer that only reads: the list of allocations.
\<close>

section \<open>Listing\<close>

definition claim_entry :: "adb \<Rightarrow> string \<times> string \<Rightarrow> snap_allocation" where
  "claim_entry db x =
     \<lparr>sa_pool = service_pool db (fst x),
      sa_preemption_policy = dict_get (preemption_policies db) (fst x) LEGACY,
      sa_service_name = fst x, sa_allocated_cores = snd x, sa_cores_count = py_len (owned_by db (fst x)),
      sa_is_explicit = dict_has (explicit_allocations db) (fst x)\<rparr>"

lemma all_allocations_wf:
  assumes "wf_ledger db"
  shows "get_all_allocations db None = Inr (List.map (claim_entry db) (allocations db))"
proof -
  have "\<forall>x \<in> set (allocations db). snap_allocation_of db x = Inr (claim_entry db x)"
    using claim_text [OF assms] by (auto simp: snap_allocation_of_def claim_entry_def)
  from mapE_Inr [OF this] show ?thesis by (simp add: get_all_allocations_def)
qed

text \<open>C35: A list answer shows the stored ledger as it is and changes nothing: one entry per owner in the
  requested pool, with its range text, size, policy and whether it holds explicit CPUs; the totals
  count the CPUs these owners have, the free CPUs are the eligible ones nobody owns in any pool, and
  claims outside the eligible CPUs are named.\<close>

theorem list_shows_the_ledger:
  assumes "ledgers_sound s" "handle_list_allocations env pools r m s = (Ret res, m', s')"
  shows "\<exists>provider snap. select_pool pools (lar_pool r) = Inr provider \<and>
    pool_snapshot (env_host env) provider True = Inr snap \<and>
    stored_ledger s = Some m' \<and> untouched s s' \<and>
    list_allocations_entries res = List.map (claim_entry m')
      (List.filter (\<lambda>x. service_pool m' (fst x) = lar_pool r) (allocations m')) \<and>
    list_total_allocations res = int (length (list_allocations_entries res)) \<and>
    list_total_allocated_cpus res = py_len (\<Union> (owned_by m' ` {t. service_pool m' t = lar_pool r})) \<and>
    list_total_available_cpus res = py_len (snap_eligible snap) \<and>
    list_remaining_available_cpus res = py_len (snap_eligible snap - allocated_cpus m') \<and>
    cpi_unavailable_allocated_cpus (list_cpu_pool res) =
      set_ranges (\<Union> (owned_by m' ` {t. service_pool m' t = lar_pool r}) - snap_eligible snap)"
proof -
  obtain provider snap entries where p: "select_pool pools (lar_pool r) = Inr provider"
    and sn: "pool_snapshot (env_host env) provider True = Inr snap"
    and fr: "fresh_read (\<lambda>db. get_all_allocations db None) m s = (Ret entries, m', s')"
    and res: "list_response r snap entries = Inr res"
    using assms(2) unfolding handle_list_allocations_def
    by (auto simp: bind_s_def lift_s_def return_s_def raise_s_def split: sum.splits prod.splits outcome.splits)
  note db = fresh_read_Ret [OF assms(1) fr]
  let ?own = "\<lambda>t. owned_by m' t" and ?pool = "lar_pool r"
  have entries: "entries = List.map (claim_entry m') (allocations m')"
    using db(3) all_allocations_wf [OF db(2)] by simp
  have filt: "List.filter (\<lambda>e. sa_pool e = ?pool) entries = List.map (claim_entry m')
      (List.filter (\<lambda>x. service_pool m' (fst x) = ?pool) (allocations m'))"
    unfolding entries by (simp add: filter_map comp_def claim_entry_def)
  have claims: "mapE (\<lambda>e. parse_cpu_ranges (sa_allocated_cores e)) (List.map (claim_entry m') xs)
      = Inr (List.map (\<lambda>x. ?own (fst x)) xs)" if "set xs \<subseteq> set (allocations m')" for xs
  proof -
    have "\<forall>e \<in> set (List.map (claim_entry m') xs). parse_cpu_ranges (sa_allocated_cores e) = Inr (?own (sa_service_name e))"
      using that claim_text [OF db(2)] by (auto simp: claim_entry_def)
    from mapE_Inr [OF this] show ?thesis by (simp add: comp_def claim_entry_def)
  qed
  have absent: "?own t = {}" if "\<not> dict_has (allocations m') t" for t
    by (rule unowned_absent(1) [OF wf_ledgerD(1) [OF db(2)] that])
  have pool_cpus: "\<Union> (set (List.map (\<lambda>x. ?own (fst x)) (List.filter (\<lambda>x. Q (fst x)) (allocations m'))))
      = \<Union> (?own ` {t. Q t})" for Q
  proof -
    have "{t. Q t \<and> dict_has (allocations m') t} = fst ` set (List.filter (\<lambda>x. Q (fst x)) (allocations m'))"
      by (force simp: dict_has_iff_keys)
    moreover have "\<Union> (?own ` {t. Q t}) = \<Union> (?own ` {t. Q t \<and> dict_has (allocations m') t})"
      using absent by fast
    ultimately show ?thesis by (simp add: image_image)
  qed
  have all: "\<Union> (set (List.map (\<lambda>x. ?own (fst x)) (allocations m'))) = allocated_cpus m'"
    using pool_cpus [of "\<lambda>t. True"] table_ok_union [OF repr_okD(1) [OF wf_ledgerD(1) [OF db(2)]]] by simp
  note c1 = claims [of "allocations m'", OF subset_refl, folded entries]
  have c2: "mapE (\<lambda>e. parse_cpu_ranges (sa_allocated_cores e)) (List.filter (\<lambda>e. sa_pool e = ?pool) entries)
      = Inr (List.map (\<lambda>x. ?own (fst x)) (List.filter (\<lambda>x. service_pool m' (fst x) = ?pool) (allocations m')))"
    unfolding filt by (rule claims) auto
  note pc = pool_cpus [of "\<lambda>t. service_pool m' t = ?pool"]
  have "list_allocations_entries res = List.filter (\<lambda>e. sa_pool e = ?pool) entries \<and>
    list_total_allocations res = int (length (list_allocations_entries res)) \<and>
    list_total_allocated_cpus res = py_len (\<Union> (?own ` {t. service_pool m' t = ?pool})) \<and>
    list_total_available_cpus res = py_len (snap_eligible snap) \<and>
    list_remaining_available_cpus res = py_len (snap_eligible snap - allocated_cpus m') \<and>
    cpi_unavailable_allocated_cpus (list_cpu_pool res) =
      set_ranges (\<Union> (?own ` {t. service_pool m' t = ?pool}) - snap_eligible snap)"
    using res unfolding list_response_def Let_def c1 c2
    by (simp only: bindE_Inr pc all sum.inject) auto
  then show ?thesis using p sn db(1,4) filt by auto
qed

theorem list_shows_the_ledger_witness:
  "\<exists>res m' s'. handle_list_allocations example_env example_pools \<lparr>lar_pool = ISOLATED, lar_service_name = None\<rparr>
      empty_adb example_store = (Ret res, m', s') \<and> stored_ledger example_store = Some m' \<and>
     list_total_allocations res = int (length (list_allocations_entries res))"
proof -
  let ?run = "handle_list_allocations example_env example_pools \<lparr>lar_pool = ISOLATED, lar_service_name = None\<rparr>
      empty_adb example_store"
  have "case ?run of (Ret res, m', s') \<Rightarrow> True | _ \<Rightarrow> False" by code_simp
  then obtain res m' s' where run: "?run = (Ret res, m', s')" by (auto split: prod.splits outcome.splits)
  from list_shows_the_ledger [OF example_ledgers_sound this] run show ?thesis by blast
qed

end
