(* ===== verification/Call_Counts.thy ===== *)
theory Call_Counts
  imports Calm_Runs
begin

text \<open>
  How many system calls the operations make: every run consumes a bounded number of fates, so no
  operation retries for ever, whatever fails.
\<close>

section \<open>Counting in the store\<close>

definition calls_upto :: "nat \<Rightarrow> 'a io \<Rightarrow> bool" where
  "calls_upto n f \<longleftrightarrow> (\<forall>s. \<exists>k \<le> n. fates (snd (f s)) = drop k (fates s))"

named_theorems calls_intros \<open>how many system calls a computation makes\<close>

lemma calls_uptoI: "(\<And>s out t. f s = (out, t) \<Longrightarrow> \<exists>k \<le> n. fates t = drop k (fates s)) \<Longrightarrow> calls_upto n f"
  unfolding calls_upto_def by (metis prod.collapse)

lemma calls_uptoD: "calls_upto n f \<Longrightarrow> f s = (out, t) \<Longrightarrow> \<exists>k \<le> n. fates t = drop k (fates s)"
  unfolding calls_upto_def by (metis snd_conv)

lemma drop_trans:
  "\<exists>k \<le> n. fs' = drop k fs \<Longrightarrow> \<exists>k \<le> m. fs'' = drop k fs' \<Longrightarrow> \<exists>k \<le> n + m. fs'' = drop k fs"
  by (metis add.commute add_mono drop_drop)

lemma drop_mono: "\<exists>k \<le> n. fs' = drop k fs \<Longrightarrow> n \<le> m \<Longrightarrow> \<exists>k \<le> m. fs' = drop k fs"
  using le_trans by blast

lemma calls_mono: "calls_upto n f \<Longrightarrow> n \<le> m \<Longrightarrow> calls_upto m f"
  unfolding calls_upto_def using drop_mono by metis

lemma calls_return [calls_intros]: "calls_upto 0 (return_io x)"
  and calls_raise [calls_intros]: "calls_upto 0 (raise_io e)"
  and calls_lift [calls_intros]: "calls_upto 0 (lift_io r)"
  by (auto simp: calls_upto_def return_io_def raise_io_def lift_io_def split: sum.split)

lemma calls_modify [calls_intros]: "(\<And>s. fates (f s) = fates s) \<Longrightarrow> calls_upto 0 (modify_io f)"
  by (auto simp: calls_upto_def modify_io_def)

lemma calls_syscall [calls_intros]:
  assumes "\<And>s. fates (f s) = fates s"
  shows "calls_upto 1 (syscall f)"
proof (rule calls_uptoI)
  fix s out t assume run: "syscall f s = (out, t)"
  show "\<exists>k \<le> 1. fates t = drop k (fates s)"
  proof (cases "fates s")
    case Nil
    then show ?thesis using run assms by (auto simp: syscall_def)
  next
    case (Cons fate rest)
    then have "fates t = drop 1 (fates s)"
      using run assms by (cases fate) (auto simp: syscall_def Let_def)
    then show ?thesis by blast
  qed
qed

lemma calls_bind [calls_intros]:
  assumes "calls_upto n f" "\<And>x. calls_upto m (g x)"
  shows "calls_upto (n + m) (bind_io f g)"
proof (rule calls_uptoI)
  fix s out t assume run: "bind_io f g s = (out, t)"
  obtain o1 s1 where f: "f s = (o1, s1)" by fastforce
  note d = calls_uptoD [OF assms(1) f]
  show "\<exists>k \<le> n + m. fates t = drop k (fates s)"
  proof (cases o1)
    case (Ret x)
    then have "g x s1 = (out, t)" using run f by (simp add: bind_io_def)
    then show ?thesis by (intro drop_trans [OF d] calls_uptoD [OF assms(2)])
  qed (use run f drop_mono [OF d] in \<open>auto simp: bind_io_def\<close>)
qed

lemma calls_then [calls_intros]: "calls_upto n f \<Longrightarrow> calls_upto m g \<Longrightarrow> calls_upto (n + m) (then_io f g)"
  unfolding then_io_def by (rule calls_bind)

lemma calls_try [calls_intros]:
  assumes "calls_upto n f" "\<And>e. calls_upto m (h e)"
  shows "calls_upto (n + m) (try_io f h)"
proof (rule calls_uptoI)
  fix s out t assume run: "try_io f h s = (out, t)"
  obtain o1 s1 where f: "f s = (o1, s1)" by fastforce
  note d = calls_uptoD [OF assms(1) f]
  show "\<exists>k \<le> n + m. fates t = drop k (fates s)"
  proof (cases o1)
    case (Raise e)
    then have "h e s1 = (out, t)" using run f by (simp add: try_io_def)
    then show ?thesis by (intro drop_trans [OF d] calls_uptoD [OF assms(2)])
  qed (use run f drop_mono [OF d] in \<open>auto simp: try_io_def\<close>)
qed

lemma calls_finally [calls_intros]:
  assumes "calls_upto n f" "calls_upto m c"
  shows "calls_upto (n + m) (finally_io f c)"
proof (rule calls_uptoI)
  fix s out t assume run: "finally_io f c s = (out, t)"
  obtain o1 s1 where f: "f s = (o1, s1)" by fastforce
  note d = calls_uptoD [OF assms(1) f]
  have after: "\<exists>k \<le> n + m. fates t = drop k (fates s)" if "then_io c k s1 = (out, t)" "calls_upto 0 k" for k :: "'a io"
    using drop_trans [OF d calls_uptoD [OF calls_then [OF assms(2) that(2)] that(1)]] by simp
  show "\<exists>k \<le> n + m. fates t = drop k (fates s)"
  proof (cases o1)
    case (Ret x)
    then show ?thesis using run f after [OF _ calls_return] by (simp add: finally_io_def)
  next
    case (Raise e)
    then show ?thesis using run f after [OF _ calls_raise] by (simp add: finally_io_def)
  qed (use run f drop_mono [OF d] in \<open>auto simp: finally_io_def\<close>)
qed

lemma calls_closing [calls_intros]: "calls_upto n f \<Longrightarrow> calls_upto (n + 1) (closing f)"
  unfolding closing_def by (rule calls_finally [OF _ calls_syscall]) simp_all

lemma calls_with_store [calls_intros]: "(\<And>s. calls_upto n (f s)) \<Longrightarrow> calls_upto n (with_store f)"
  by (auto simp: calls_upto_def with_store_def)

lemma calls_if: "calls_upto n f \<Longrightarrow> calls_upto m g \<Longrightarrow> calls_upto (max n m) (if b then f else g)"
  by (auto intro: calls_mono)

lemma calls_prod [calls_intros]: "(\<And>a b. calls_upto n (f a b)) \<Longrightarrow> calls_upto n (case p of (a, b) \<Rightarrow> f a b)"
  by (cases p) auto

section \<open>The operations of the store\<close>

lemma calls_sync: "calls_upto 3 sync_directory"
  unfolding sync_directory_def
  by (rule calls_mono, (rule calls_intros | simp)+)

lemma calls_health: "calls_upto 1 check_health"
  unfolding check_health_def
  by (rule calls_mono, (rule calls_intros calls_if | simp)+)

lemma calls_read: "calls_upto 1 read_unlocked"
  unfolding read_unlocked_def
  by (rule calls_mono, (rule calls_intros calls_if | simp)+)

lemma calls_set_uncertain: "calls_upto 11 (set_uncertain b)"
  unfolding set_uncertain_def write_mark_def sync_lock_def
  by (rule calls_mono, (rule calls_intros calls_if calls_sync | simp add: write_lock_def)+)

lemma calls_locked:
  assumes "calls_upto n f"
  shows "calls_upto (n + 2) (locked f)"
  unfolding locked_def release_lock_def
  by (rule calls_mono, (rule calls_intros assms | simp)+)

lemma calls_atomic_write: "calls_upto 43 (atomic_write data)"
  unfolding atomic_write_def write_temp_def replace_file_def remove_temp_def
  by (rule calls_mono, (rule calls_intros calls_if calls_health calls_set_uncertain calls_sync | simp)+)

lemma calls_transaction_section: "calls_upto 47 (transaction_section n update now)"
  unfolding transaction_section_def
  by (rule calls_mono [OF calls_locked], (rule calls_intros calls_health calls_read calls_atomic_write | simp)+)

lemma calls_read_section: "calls_upto 3 (read_section n)"
  unfolding read_section_def
  by (rule calls_mono [OF calls_locked], (rule calls_intros calls_read | simp)+)

lemma calls_write_all: "calls_upto 45 (write_all data now)"
  unfolding write_all_def
  by (rule calls_mono [OF calls_locked], (rule calls_intros calls_atomic_write | simp)+)

lemma calls_recover: "calls_upto 20 recover"
  unfolding recover_def sync_file_def
  by (rule calls_mono [OF calls_locked],
      (rule calls_intros calls_if calls_read calls_sync calls_set_uncertain | simp)+)

section \<open>Counting in sessions\<close>

definition session_calls :: "nat \<Rightarrow> ('m, 'a) session \<Rightarrow> bool" where
  "session_calls n f \<longleftrightarrow> (\<forall>m s out m' s'. f m s = (out, m', s') \<longrightarrow> (\<exists>k \<le> n. fates s' = drop k (fates s)))"

lemma session_callsD: "session_calls n f \<Longrightarrow> f m s = (out, m', s') \<Longrightarrow> \<exists>k \<le> n. fates s' = drop k (fates s)"
  by (auto simp: session_calls_def)

lemma session_calls_mono: "session_calls n f \<Longrightarrow> n \<le> m \<Longrightarrow> session_calls m f"
  unfolding session_calls_def using drop_mono by blast

lemma session_calls_none:
  "session_calls 0 (return_s x)" "session_calls 0 (raise_s e)" "session_calls 0 (lift_s r)"
  by (auto simp: session_calls_def lift_s_def split: sum.splits)

lemma session_calls_return: "session_calls n (return_s x)"
  by (rule session_calls_mono [OF session_calls_none(1)]) simp

lemma session_calls_bind:
  assumes "session_calls n f" "\<And>x. session_calls m (g x)"
  shows "session_calls (n + m) (bind_s f g)"
  unfolding session_calls_def
proof (intro allI impI)
  fix a s out a' s' assume run: "bind_s f g a s = (out, a', s')"
  obtain o1 a1 s1 where f: "f a s = (o1, a1, s1)" using prod_cases3 by blast
  note d = session_callsD [OF assms(1) f]
  show "\<exists>k \<le> n + m. fates s' = drop k (fates s)"
  proof (cases o1)
    case (Ret x)
    then have "g x a1 s1 = (out, a', s')" using run f by (simp add: bind_s_def)
    then show ?thesis by (intro drop_trans [OF d] session_callsD [OF assms(2)])
  qed (use run f drop_mono [OF d] in \<open>auto simp: bind_s_def\<close>)
qed

lemma session_calls_try:
  assumes "session_calls n f" "\<And>e. session_calls m (h e)"
  shows "session_calls (n + m) (try_s f h)"
  unfolding session_calls_def
proof (intro allI impI)
  fix a s out a' s' assume run: "try_s f h a s = (out, a', s')"
  obtain o1 a1 s1 where f: "f a s = (o1, a1, s1)" using prod_cases3 by blast
  note d = session_callsD [OF assms(1) f]
  show "\<exists>k \<le> n + m. fates s' = drop k (fates s)"
  proof (cases o1)
    case (Raise e)
    then have "h e a1 s1 = (out, a', s')" using run f by (simp add: try_s_def)
    then show ?thesis by (intro drop_trans [OF d] session_callsD [OF assms(2)])
  qed (use run f drop_mono [OF d] in \<open>auto simp: try_s_def\<close>)
qed

lemma session_calls_fold:
  assumes "\<And>x a. session_calls n (f x a)"
  shows "session_calls (n * length xs) (fold_s f xs a)"
proof (induction xs arbitrary: a)
  case (Cons x xs)
  show ?case using session_calls_bind [OF assms Cons.IH] by (simp add: add.commute)
qed (simp add: session_calls_none)

section \<open>The databases\<close>

lemma calls_load: "session_calls 3 load_from_store"
  unfolding session_calls_def
proof (intro allI impI)
  fix m s out m' s' assume run: "load_from_store m s = (out, m', s')"
  obtain o1 s1 where "read_section ''allocations_db'' s = (o1, s1)" by fastforce
  moreover from this have "s' = s1"
    using run by (auto simp: load_from_store_def split: outcome.splits prod.splits sum.splits)
  ultimately show "\<exists>k \<le> 3. fates s' = drop k (fates s)" using calls_uptoD [OF calls_read_section] by blast
qed

lemma calls_hp_load: "session_calls 3 (hp_load to_int)"
  unfolding session_calls_def
proof (intro allI impI)
  fix m s out m' s' assume run: "hp_load to_int m s = (out, m', s')"
  obtain o1 s1 where "read_section ''hugepages_db'' s = (o1, s1)" by fastforce
  moreover from this have "s' = s1" using run by (auto simp: hp_load_def split: outcome.splits)
  ultimately show "\<exists>k \<le> 3. fates s' = drop k (fates s)" using calls_uptoD [OF calls_read_section] by blast
qed

lemma calls_fresh_read: "session_calls 3 (fresh_read f)"
  unfolding session_calls_def
proof (intro allI impI)
  fix m s out m' s' assume run: "fresh_read f m s = (out, m', s')"
  obtain o1 m1 s1 where l: "load_from_store m s = (o1, m1, s1)" using prod_cases3 by blast
  then have "s' = s1" using run by (auto simp: fresh_read_def split: outcome.splits sum.splits)
  then show "\<exists>k \<le> 3. fates s' = drop k (fates s)" using session_callsD [OF calls_load l] by simp
qed

lemma calls_transaction: "session_calls 50 (transaction operation now)"
  unfolding session_calls_def
proof (intro allI impI)
  fix m s out m' s' assume run: "transaction operation now m s = (out, m', s')"
  obtain o1 s1 where sec: "transaction_section ''allocations_db'' (txn_update operation) now s = (o1, s1)"
    by fastforce
  note d = calls_uptoD [OF calls_transaction_section sec]
  show "\<exists>k \<le> 50. fates s' = drop k (fates s)"
  proof (cases o1)
    case (Raise e)
    obtain o2 m2 s2 where l: "load_from_store m s1 = (o2, m2, s2)" using prod_cases3 by blast
    then have "s' = s2" using run sec Raise by (auto simp: transaction_def split: outcome.splits)
    then show ?thesis using drop_trans [OF d session_callsD [OF calls_load l]] by simp
  qed (use run sec drop_mono [OF d] in \<open>auto simp: transaction_def split: prod.splits sum.splits\<close>)
qed

lemma calls_hp_transaction: "session_calls 50 (hp_transaction to_int operation now)"
  unfolding session_calls_def
proof (intro allI impI)
  fix m s out m' s' assume run: "hp_transaction to_int operation now m s = (out, m', s')"
  obtain o1 s1 where sec: "transaction_section ''hugepages_db'' (hp_update to_int operation) now s = (o1, s1)"
    by fastforce
  note d = calls_uptoD [OF calls_transaction_section sec]
  show "\<exists>k \<le> 50. fates s' = drop k (fates s)"
  proof (cases o1)
    case (Raise e)
    then have "bind_s (hp_load to_int) (\<lambda>_. raise_s e) m s1 = (out, m', s')"
      using run sec by (simp add: hp_transaction_def)
    from session_callsD [OF session_calls_bind [OF calls_hp_load session_calls_none(2)] this]
    show ?thesis using drop_trans [OF d] by fastforce
  qed (use run sec drop_mono [OF d] in \<open>auto simp: hp_transaction_def split: prod.splits\<close>)
qed

section \<open>Requests\<close>

text \<open>The hugepage report reads the recorded requests once for each node directory.\<close>

definition node_count :: "host \<Rightarrow> nat" where
  "node_count h = length (list_node_dirs h)"

lemma calls_node_list: "session_calls 3 (list_allocations_for_node to_int n)"
proof -
  have "session_calls 0 (\<lambda>m s. (Ret (node_entries n m), m, s))" by (simp add: session_calls_def)
  from session_calls_bind [OF calls_hp_load this] show ?thesis
    by (simp add: list_allocations_for_node_def)
qed

lemma calls_summary: "session_calls (3 * node_count h) (get_memory_summary h to_int)"
proof -
  have allocs: "session_calls 3 (get_node_allocations to_int n)" for n
    using session_calls_bind [OF calls_node_list session_calls_none(1)]
    unfolding get_node_allocations_def by simp
  have "session_calls (3 + 0) (bind_s (get_node_allocations to_int n) (\<lambda>a. return_s (f a)))"
    for n and f :: "_ \<Rightarrow> (string, node_hugepages_info) dict"
    by (intro session_calls_bind allocs session_calls_none)
  then have "session_calls 3 (add_node h to_int d nodes)" for d nodes
    unfolding add_node_def Let_def by (simp add: session_calls_return del: list.simps append.simps)
  then have "session_calls (3 * length (sort_key node_number (list_node_dirs h)))
      (fold_s (add_node h to_int) (sort_key node_number (list_node_dirs h)) [])"
    by (rule session_calls_fold)
  then have "session_calls (3 * node_count h) (get_numa_hugepages_info h to_int)"
    by (simp add: get_numa_hugepages_info_def node_count_def)
  then have "session_calls (3 * node_count h + 0 + 0) (get_memory_summary h to_int)"
    unfolding get_memory_summary_def by (intro session_calls_try session_calls_bind session_calls_none)
  then show ?thesis by simp
qed

lemma calls_cpu_handlers:
  "session_calls 50 (handle_allocate_cores env pools cr)"
  "session_calls 50 (handle_allocate_cores_percent env pools pr)"
  "session_calls 50 (handle_allocate_numa_cores env pools nr)"
  "session_calls 3 (handle_list_allocations env pools lr)"
proof -
  have txn: "session_calls 50 (bind_s (lift_s r) (\<lambda>p. transaction (f p) now))"
    for r :: "'x result" and f :: "'x \<Rightarrow> adb \<Rightarrow> ('y \<times> adb) result" and now
    using session_calls_bind [OF session_calls_none(3) calls_transaction] by simp
  show "session_calls 50 (handle_allocate_cores env pools cr)"
    "session_calls 50 (handle_allocate_cores_percent env pools pr)"
    "session_calls 50 (handle_allocate_numa_cores env pools nr)"
    unfolding handle_allocate_cores_def handle_allocate_cores_percent_def handle_allocate_numa_cores_def
    by (rule txn)+
  have "session_calls (0 + (0 + (3 + 0))) (handle_list_allocations env pools lr)"
    unfolding handle_list_allocations_def
    by (intro session_calls_bind session_calls_none calls_fresh_read)
  then show "session_calls 3 (handle_list_allocations env pools lr)" by simp
qed

lemma calls_capacity: "session_calls (3 * node_count (env_host env) + 3) (check_hugepage_capacity env r)"
proof -
  have list: "session_calls 3 (bind_s (list_allocations_for_node to_int n) (\<lambda>items. return_s (f items)))"
    for to_int n and f :: "_ \<Rightarrow> string + int \<times> int"
    using session_calls_bind [OF calls_node_list session_calls_none(1)] by simp
  have ctx: "session_calls (3 * node_count (env_host env) + 3) (get_hugepages_context env svc n k)" for svc n k
    unfolding get_hugepages_context_def
    by (rule session_calls_bind [OF calls_summary]) (auto intro: session_calls_return list split: option.split)
  have "session_calls (3 * node_count (env_host env) + 3 + 0)
      (bind_s (get_hugepages_context env svc n k) (\<lambda>ctx. case ctx of Inl m \<Rightarrow> return_s (Some m)
        | Inr (free, existing) \<Rightarrow> return_s (f free existing)))" for svc n k and f :: "int \<Rightarrow> int \<Rightarrow> string option"
    by (rule session_calls_bind [OF ctx]) (auto intro: session_calls_none split: sum.split)
  then show ?thesis
    unfolding check_hugepage_capacity_def Let_def by (simp add: session_calls_return)
qed

lemma calls_page_handlers:
  "session_calls (3 * node_count (env_host env)) (handle_get_memory_info env gr)"
  "session_calls (3 * node_count (env_host env) + 53) (handle_allocate_hugepages env hr)"
proof -
  have "session_calls (3 * node_count (env_host env) + 0 + 0) (handle_get_memory_info env gr)"
    unfolding handle_get_memory_info_def Let_def
    by (intro session_calls_try session_calls_bind calls_summary)
      (auto intro: session_calls_none split: option.split)
  then show "session_calls (3 * node_count (env_host env)) (handle_get_memory_info env gr)" by simp
  have upsert: "session_calls (50 + 0) (bind_s (upsert_allocation to_int now svc n k c) (\<lambda>_. return_s x))"
    for to_int now svc n k c and x :: epa_response
    unfolding upsert_allocation_def by (intro session_calls_bind calls_hp_transaction session_calls_none)
  have remove: "session_calls (50 + 0) (bind_s (remove_allocation_for_key to_int now svc n k) (\<lambda>b. return_s (f b)))"
    for to_int now svc n k and f :: "bool \<Rightarrow> epa_response"
    unfolding remove_allocation_for_key_def by (intro session_calls_bind calls_hp_transaction session_calls_none)
  have checked: "session_calls (3 * node_count (env_host env) + 3 + 50)
      (bind_s (check_hugepage_capacity env hr) (\<lambda>refusal. case refusal of
          Some m \<Rightarrow> return_s (f m)
        | None \<Rightarrow> bind_s (upsert_allocation to_int now svc n k c) (\<lambda>_. return_s x)))"
    for to_int now svc n k c x and f :: "string \<Rightarrow> epa_response"
    by (rule session_calls_bind [OF calls_capacity]) (use upsert in \<open>auto simp: session_calls_return split: option.split\<close>)
  have "session_calls (3 * node_count (env_host env) + 53 + 0) (handle_allocate_hugepages env hr)"
    unfolding handle_allocate_hugepages_def
    by (rule session_calls_try)
      (use session_calls_mono [OF remove] session_calls_mono [OF checked] session_calls_none in auto)
  then show "session_calls (3 * node_count (env_host env) + 53) (handle_allocate_hugepages env hr)" by simp
qed

section \<open>The daemon\<close>

definition world_calls :: "nat \<Rightarrow> 'a handler \<Rightarrow> bool" where
  "world_calls n f \<longleftrightarrow>
     (\<forall>w out w'. f w = (out, w') \<longrightarrow> (\<exists>k \<le> n. fates (w_store w') = drop k (fates (w_store w))))"

lemma world_callsD:
  "world_calls n f \<Longrightarrow> f w = (out, w') \<Longrightarrow> \<exists>k \<le> n. fates (w_store w') = drop k (fates (w_store w))"
  by (auto simp: world_calls_def)

lemma world_calls_mono: "world_calls n f \<Longrightarrow> n \<le> m \<Longrightarrow> world_calls m f"
  unfolding world_calls_def using drop_mono by blast

lemma world_calls_return: "world_calls n (return_h x)"
  by (auto simp: world_calls_def return_h_def intro: exI [of _ 0])

lemma world_calls_bind:
  assumes "world_calls n f" "\<And>x. world_calls m (g x)"
  shows "world_calls (n + m) (bind_h f g)"
  unfolding world_calls_def
proof (intro allI impI)
  fix w out w' assume "bind_h f g w = (out, w')"
  then show "\<exists>k \<le> n + m. fates (w_store w') = drop k (fates (w_store w))"
  proof (rule bind_h_cases, goal_cases)
    case (1 x w1)
    show ?case by (rule drop_trans [OF world_callsD [OF assms(1) 1(1)] world_callsD [OF assms(2) 1(2)]])
  qed (use drop_mono [OF world_callsD [OF assms(1)]] in simp_all)
qed

lemma world_calls_ledger: "session_calls n f \<Longrightarrow> world_calls n (on_ledger f)"
  by (auto simp: world_calls_def on_ledger_def split: prod.splits dest: session_callsD)

lemma world_calls_hugepages: "session_calls n f \<Longrightarrow> world_calls n (on_hugepages f)"
  by (auto simp: world_calls_def on_hugepages_def split: prod.splits dest: session_callsD)

lemma world_calls_map: "world_calls n f \<Longrightarrow> world_calls n (\<lambda>w. map_outcome g (f w))"
  unfolding world_calls_def using map_outcome_world by metis

lemma world_calls_outside: "world_calls 1 outside_call"
  using calls_uptoD [OF calls_syscall [of "\<lambda>s. s"]]
  by (auto simp: world_calls_def outside_call_def on_store_def split: prod.splits)

text \<open>The most calls of one request, and of its turn of the loop.\<close>

definition request_calls :: "host \<Rightarrow> nat" where
  "request_calls h = 3 * node_count h + 53"

lemma calls_request: "world_calls (request_calls (env_host env)) (run_request env pools req)"
proof -
  let ?n = "request_calls (env_host env)"
  have ledger: "world_calls ?n (\<lambda>w. map_outcome g (on_ledger f w))" if "session_calls 50 f" for f g
    using that by (intro world_calls_map world_calls_ledger) (simp add: session_calls_mono request_calls_def)
  have pages: "world_calls ?n (on_hugepages f)" if "session_calls n f" "n \<le> ?n" for f n
    using that by (intro world_calls_hugepages) (rule session_calls_mono)
  show ?thesis
  proof (cases req)
    case (CoresRequest r)
    then show ?thesis using ledger [OF calls_cpu_handlers(1)] by (simp add: run_request_def [abs_def])
  next
    case (PercentRequest r)
    then show ?thesis using ledger [OF calls_cpu_handlers(2)] by (simp add: run_request_def [abs_def])
  next
    case (NumaRequest r)
    then show ?thesis using ledger [OF calls_cpu_handlers(3)] by (simp add: run_request_def [abs_def])
  next
    case (ListRequest r)
    then show ?thesis
      using ledger [OF session_calls_mono [OF calls_cpu_handlers(4)]] by (simp add: run_request_def [abs_def])
  next
    case (MemoryRequest r)
    then show ?thesis
      using pages [OF calls_page_handlers(1)] by (simp add: run_request_def [abs_def] request_calls_def)
  next
    case (HugepagesRequest r)
    then show ?thesis
      using pages [OF calls_page_handlers(2)] by (simp add: run_request_def [abs_def] request_calls_def)
  qed
qed

lemma calls_dispatch: "world_calls (request_calls (env_host env)) (dispatch env pools data)"
  using world_callsD [OF calls_request]
  by (auto simp: world_calls_def dispatch_def Let_def split: sum.splits json.splits option.splits
      intro: exI [of _ 0])

lemma calls_log: "world_calls 3 (log_allocations response)"
  unfolding world_calls_def
proof (intro allI impI)
  fix w out w' assume run: "log_allocations response w = (out, w')"
  show "\<exists>k \<le> 3. fates (w_store w') = drop k (fates (w_store w))"
    using log_allocations_world(1) [OF run] world_callsD [OF world_calls_ledger [OF calls_fresh_read]] by blast
qed

lemma calls_handled: "world_calls (request_calls (env_host env) + 3) (handle_daemon_request env pools data)"
  unfolding world_calls_def
proof (intro allI impI)
  fix w out w' assume run: "handle_daemon_request env pools data w = (out, w')"
  obtain o1 w1 where d: "dispatch env pools data w = (o1, w1)" by fastforce
  note c = world_callsD [OF calls_dispatch d]
  have "w' = w1 \<or> (\<exists>response. log_allocations response w1 = (out, w'))"
    using run d by (auto simp: handle_daemon_request_def split: outcome.splits py_error.splits)
  then show "\<exists>k \<le> request_calls (env_host env) + 3. fates (w_store w') = drop k (fates (w_store w))"
    using drop_mono [OF c] drop_trans [OF c world_callsD [OF calls_log]] by auto
qed

lemma calls_served: "world_calls (request_calls (env_host env) + 6) (serve_connection decode env pools arrived)"
proof -
  have answer: "world_calls (request_calls (env_host env) + 3 + (1 + 0))
      (bind_h (handle_daemon_request env pools data) (\<lambda>response. bind_h outside_call (\<lambda>_. return_h (Some response))))"
    for data
    by (intro world_calls_bind calls_handled world_calls_outside world_calls_return)
  have "world_calls (1 + (1 + (request_calls (env_host env) + 4))) (serve_connection decode env pools arrived)"
    unfolding serve_connection_def Let_def
    by (intro world_calls_bind world_calls_outside)
      (use answer in \<open>auto simp: world_calls_return ac_simps\<close>)
  then show ?thesis by (simp add: add.commute)
qed

lemma calls_boot: "world_calls 20 (boot to_int h snapctl_get stale)"
proof -
  have dir: "world_calls 1 (on_store ensure_dir)"
    using world_calls_outside by (simp add: outside_call_def ensure_dir_def)
  have "world_calls (1 + (3 + (1 + 3))) (start_daemon to_int)"
    unfolding start_daemon_def
    by (intro world_calls_bind dir world_calls_ledger world_calls_hugepages calls_load calls_hp_load)
  moreover have "world_calls (1 + (1 + (1 + (1 + (1 + 1))))) (open_socket stale)"
    unfolding open_socket_def
    by (intro world_calls_bind world_calls_outside)
      (use world_calls_outside world_calls_return in \<open>auto simp del: One_nat_def\<close>)
  moreover have "world_calls 6 (on_ledger (validate_startup_pool pools))" for pools
  proof -
    have "session_calls (3 + 0) (bind_s (fresh_read f) (\<lambda>x. return_s (g x)))"
      for f :: "adb \<Rightarrow> 'x result" and g :: "'x \<Rightarrow> (cpu_pool_name \<times> string) list"
      by (intro session_calls_bind calls_fresh_read session_calls_none)
    then have "session_calls (3 * length (enum_class.enum :: cpu_pool_name list)) (validate_startup_pool pools)"
      unfolding validate_startup_pool_def by (intro session_calls_fold) simp
    then show ?thesis by (intro world_calls_ledger) (simp add: enum_cpu_pool_name_def)
  qed
  ultimately have "world_calls (1 + (3 + (1 + 3)) + (6 + (1 + (1 + (1 + (1 + (1 + 1)))) + 0)))
      (boot to_int h snapctl_get stale)"
    unfolding boot_def Let_def by (intro world_calls_bind world_calls_return)
  then show ?thesis by simp
qed

end
