(* ===== verification/Cache_Independence.thy ===== *)
theory Cache_Independence
  imports Daemon_Process
begin

text \<open>
  The fields in memory are a cache: every operation loads the store first, so its outcome and what
  it leaves in the store are the same whatever the fields held before.
\<close>

section \<open>Sessions\<close>

definition cache_free :: "('m, 'a) session \<Rightarrow> bool" where
  "cache_free f \<longleftrightarrow>
     (\<forall>m1 m2 s out m1' s'. f m1 s = (out, m1', s') \<longrightarrow> (\<exists>m2'. f m2 s = (out, m2', s')))"

named_theorems cache_intros \<open>sessions that do not depend on the fields in memory\<close>

lemma cache_freeI:
  "(\<And>m1 m2 s out m1' s'. f m1 s = (out, m1', s') \<Longrightarrow> \<exists>m2'. f m2 s = (out, m2', s')) \<Longrightarrow> cache_free f"
  unfolding cache_free_def by blast

lemma cache_freeE:
  assumes "cache_free f" "f m1 s = (out, m1', s')"
  obtains m2' where "f m2 s = (out, m2', s')"
  using assms unfolding cache_free_def by blast

lemma cache_free_plain [cache_intros]:
  "cache_free (return_s x)" "cache_free (raise_s e)" "cache_free (lift_s r)"
  by (auto simp: cache_free_def lift_s_def split: sum.splits)

lemma cache_free_bind [cache_intros]:
  assumes "cache_free f" "\<And>x. cache_free (g x)"
  shows "cache_free (bind_s f g)"
proof (rule cache_freeI)
  fix m1 m2 s out m1' s' assume run: "bind_s f g m1 s = (out, m1', s')"
  obtain o1 a1 s1 where f: "f m1 s = (o1, a1, s1)" using prod_cases3 by blast
  obtain a2 where f2: "f m2 s = (o1, a2, s1)" by (rule cache_freeE [OF assms(1) f])
  show "\<exists>m2'. bind_s f g m2 s = (out, m2', s')"
  proof (cases o1)
    case (Ret x)
    then have "g x a1 s1 = (out, m1', s')" using run f by (simp add: bind_s_def)
    from cache_freeE [OF assms(2) this] obtain m2' where "g x a2 s1 = (out, m2', s')" by blast
    then show ?thesis using f2 Ret by (simp add: bind_s_def)
  qed (use run f f2 in \<open>simp_all add: bind_s_def\<close>)
qed

lemma cache_free_try [cache_intros]:
  assumes "cache_free f" "\<And>e. cache_free (h e)"
  shows "cache_free (try_s f h)"
proof (rule cache_freeI)
  fix m1 m2 s out m1' s' assume run: "try_s f h m1 s = (out, m1', s')"
  obtain o1 a1 s1 where f: "f m1 s = (o1, a1, s1)" using prod_cases3 by blast
  obtain a2 where f2: "f m2 s = (o1, a2, s1)" by (rule cache_freeE [OF assms(1) f])
  show "\<exists>m2'. try_s f h m2 s = (out, m2', s')"
  proof (cases o1)
    case (Raise e)
    then have "h e a1 s1 = (out, m1', s')" using run f by (simp add: try_s_def)
    from cache_freeE [OF assms(2) this] obtain m2' where "h e a2 s1 = (out, m2', s')" by blast
    then show ?thesis using f2 Raise by (simp add: try_s_def)
  qed (use run f f2 in \<open>auto simp: try_s_def\<close>)
qed

lemma cache_free_fold [cache_intros]: "(\<And>x a. cache_free (f x a)) \<Longrightarrow> cache_free (fold_s f xs a)"
  by (induction xs arbitrary: a) (auto intro: cache_intros)

lemma cache_free_option [cache_intros]:
  "cache_free d \<Longrightarrow> (\<And>x. cache_free (f x)) \<Longrightarrow> cache_free (case opt of None \<Rightarrow> d | Some x \<Rightarrow> f x)"
  and cache_free_sum [cache_intros]:
  "(\<And>e. cache_free (l e)) \<Longrightarrow> (\<And>x. cache_free (g x)) \<Longrightarrow> cache_free (case r of Inl e \<Rightarrow> l e | Inr x \<Rightarrow> g x)"
  and cache_free_prod [cache_intros]:
  "(\<And>a b. cache_free (k a b)) \<Longrightarrow> cache_free (case p of (a, b) \<Rightarrow> k a b)"
  and cache_free_if [cache_intros]:
  "cache_free u \<Longrightarrow> cache_free v \<Longrightarrow> cache_free (if c then u else v)"
  by (auto split: option.split sum.split prod.split)

section \<open>The ledger\<close>

text \<open>What loading reads of the fields: those it has assigned before.\<close>

definition same_claims :: "adb \<Rightarrow> adb \<Rightarrow> bool" where
  "same_claims a b \<longleftrightarrow> allocations a = allocations b \<and> explicit_allocations a = explicit_allocations b"

lemma load_sets_result: "same_claims a b \<Longrightarrow> fst (load_cpu_sets a) = fst (load_cpu_sets b)"
  by (simp add: load_cpu_sets_def same_claims_def split: prod.split sum.split)

lemma load_pools_result:
  assumes "same_claims a b" "load_pool_metadata data a = (r, a')"
  obtains b' where "load_pool_metadata data b = (r, b')" "same_claims a' b'"
  using assms
  by (fastforce simp: load_pool_metadata_def same_claims_def unowned_names_def Let_def
      split: json.splits sum.splits if_splits)

lemma load_snapshot_raises:
  assumes "load_snapshot data m1 = (r, db)"
  shows "\<exists>db'. load_snapshot data m2 = (r, db')"
proof (cases "\<exists>policies ps. dict_get data ''preemption_policies'' (JObj []) = JObj policies \<and>
    decode_members policy_of_value ''Invalid stored preemption policy'' policies = Inr ps")
  case True
  then obtain policies ps where doc: "dict_get data ''preemption_policies'' (JObj []) = JObj policies"
    "decode_members policy_of_value ''Invalid stored preemption policy'' policies = Inr ps" by blast
  let ?start = "\<lambda>m. m\<lparr>preemption_policies := ps, allocations := string_items (map_of data ''allocations''),
    explicit_allocations := string_items (map_of data ''explicit_allocations'')\<rparr>"
  obtain res a1 where 1: "load_pool_metadata data (?start m1) = (res, a1)" by fastforce
  have "same_claims (?start m1) (?start m2)" by (simp add: same_claims_def)
  from load_pools_result [OF this 1] obtain a2
    where 2: "load_pool_metadata data (?start m2) = (res, a2)" "same_claims a1 a2" by blast
  have "unowned_names ps (?start m1) = unowned_names ps (?start m2)" by (simp add: unowned_names_def)
  moreover have "fst (load_cpu_sets a1) = fst (load_cpu_sets a2)" by (rule load_sets_result [OF 2(2)])
  ultimately show ?thesis
    using assms doc 1 2(1) by (cases res) (auto simp: load_snapshot_def Let_def split: if_splits
        intro: prod.collapse [symmetric])
next
  case False
  then show ?thesis using assms by (auto simp: load_snapshot_def split: json.splits sum.splits)
qed

text \<open>A load that succeeds gives the same fields, too.\<close>

lemma load_cases:
  assumes "load_from_store m1 s = (out, m1', s')"
  obtains "out = Ret ()" "load_from_store m2 s = (out, m1', s')"
    | m2' where "\<And>x. out \<noteq> Ret x" "load_from_store m2 s = (out, m2', s')"
proof -
  obtain o1 s1 where r: "read_section ''allocations_db'' s = (o1, s1)" by fastforce
  show thesis
  proof (cases o1)
    case (Ret c)
    obtain res db where l: "load_snapshot c m1 = (res, db)" by fastforce
    obtain db' where l2: "load_snapshot c m2 = (res, db')" using load_snapshot_raises [OF l] ..
    show thesis
    proof (cases res)
      case (Inl e)
      have "out = Raise e" "s' = s1" using assms r Ret l Inl by (simp_all add: load_from_store_def)
      then have "load_from_store m2 s = (out, db', s')" using r Ret l2 Inl by (simp add: load_from_store_def)
      then show thesis using \<open>out = Raise e\<close> by (intro that(2)) simp_all
    next
      case (Inr u)
      have "out = Ret ()" "m1' = db" "s' = s1" using assms r Ret l Inr by (simp_all add: load_from_store_def)
      moreover have "load_snapshot c m2 = (Inr (), db)" using l Inr by (auto intro: load_snapshot_fresh)
      ultimately show thesis using r Ret by (intro that(1)) (simp_all add: load_from_store_def)
    qed
  next
    case (Raise e)
    have "out = Raise e" "s' = s1" using assms r Raise by (simp_all add: load_from_store_def)
    then show thesis using r Raise by (intro that(2) [of m2]) (simp_all add: load_from_store_def)
  next
    case Crash
    have "out = Crash" "s' = s1" using assms r Crash by (simp_all add: load_from_store_def)
    then show thesis using r Crash by (intro that(2) [of m2]) (simp_all add: load_from_store_def)
  qed
qed

lemma cache_free_load [cache_intros]: "cache_free load_from_store"
  by (rule cache_freeI, erule load_cases) blast+

lemma cache_free_fresh_read [cache_intros]: "cache_free (fresh_read f)"
proof (rule cache_freeI)
  fix m1 m2 s out m1' s' assume run: "fresh_read f m1 s = (out, m1', s')"
  obtain o1 a1 s1 where l: "load_from_store m1 s = (o1, a1, s1)" using prod_cases3 by blast
  show "\<exists>m2'. fresh_read f m2 s = (out, m2', s')"
  proof (rule load_cases [OF l, of m2], goal_cases)
    case 1
    then show ?case using run l by (auto simp: fresh_read_def split: sum.splits)
  next
    case (2 a2)
    then show ?case using run l by (cases o1) (auto simp: fresh_read_def)
  qed
qed

lemma cache_free_transaction [cache_intros]: "cache_free (transaction operation now)"
proof (rule cache_freeI)
  fix m1 m2 s out m1' s' assume run: "transaction operation now m1 s = (out, m1', s')"
  obtain o1 s1 where sec: "transaction_section ''allocations_db'' (txn_update operation) now s = (o1, s1)"
    by fastforce
  show "\<exists>m2'. transaction operation now m2 s = (out, m2', s')"
  proof (cases o1)
    case (Ret y)
    obtain x cand where y: "y = (x, cand)" by (cases y)
    obtain res db where l: "load_snapshot (snapshot cand) m1 = (res, db)" by fastforce
    obtain db' where "load_snapshot (snapshot cand) m2 = (res, db')" using load_snapshot_raises [OF l] ..
    then show ?thesis using run sec Ret y l by (cases res) (auto simp: transaction_def)
  next
    case (Raise e)
    obtain o2 a1 s2 where l: "load_from_store m1 s1 = (o2, a1, s2)" using prod_cases3 by blast
    obtain a2 where "load_from_store m2 s1 = (o2, a2, s2)" by (rule cache_freeE [OF cache_free_load l])
    then show ?thesis using run sec Raise l by (cases o2) (auto simp: transaction_def)
  qed (use run sec in \<open>auto simp: transaction_def\<close>)
qed

section \<open>The hugepage table\<close>

text \<open>A load, and a reading of the table that was loaded.\<close>

lemma cache_free_hp_read: "cache_free (bind_s (hp_load to_int) (\<lambda>_ m s. (Ret (f m), m, s)))"
proof (rule cache_freeI)
  fix m1 m2 s out m1' s' assume run: "bind_s (hp_load to_int) (\<lambda>_ m s. (Ret (f m), m, s)) m1 s = (out, m1', s')"
  obtain o1 s1 where "read_section ''hugepages_db'' s = (o1, s1)" by fastforce
  then show "\<exists>m2'. bind_s (hp_load to_int) (\<lambda>_ m s. (Ret (f m), m, s)) m2 s = (out, m2', s')"
    using run by (cases o1) (auto simp: bind_s_def hp_load_def)
qed

lemma cache_free_hp_load [cache_intros]: "cache_free (hp_load to_int)"
proof (rule cache_freeI)
  fix m1 m2 s out m1' s' assume run: "hp_load to_int m1 s = (out, m1', s')"
  obtain o1 s1 where "read_section ''hugepages_db'' s = (o1, s1)" by fastforce
  then show "\<exists>m2'. hp_load to_int m2 s = (out, m2', s')" using run by (cases o1) (auto simp: hp_load_def)
qed

lemma cache_free_node_list [cache_intros]: "cache_free (list_allocations_for_node to_int n)"
  unfolding list_allocations_for_node_def by (rule cache_free_hp_read)

lemma cache_free_hp_transaction [cache_intros]: "cache_free (hp_transaction to_int operation now)"
proof (rule cache_freeI)
  fix m1 m2 s out m1' s' assume run: "hp_transaction to_int operation now m1 s = (out, m1', s')"
  obtain o1 s1 where sec: "transaction_section ''hugepages_db'' (hp_update to_int operation) now s = (o1, s1)"
    by fastforce
  show "\<exists>m2'. hp_transaction to_int operation now m2 s = (out, m2', s')"
  proof (cases o1)
    case (Raise e)
    have reload: "cache_free (bind_s (hp_load to_int) (\<lambda>_. raise_s e :: (hugepage_table, 'a) session))"
      by (intro cache_intros)
    have "bind_s (hp_load to_int) (\<lambda>_. raise_s e) m1 s1 = (out, m1', s')"
      using run sec Raise by (simp add: hp_transaction_def)
    from cache_freeE [OF reload this] obtain m2' where
      "bind_s (hp_load to_int) (\<lambda>_. raise_s e) m2 s1 = (out, m2', s')" by blast
    then show ?thesis using sec Raise by (simp add: hp_transaction_def)
  qed (use run sec in \<open>auto simp: hp_transaction_def split: prod.splits\<close>)
qed

section \<open>The handlers\<close>

lemma cache_free_summary [cache_intros]: "cache_free (get_memory_summary h to_int)"
  unfolding get_memory_summary_def get_numa_hugepages_info_def add_node_def get_node_allocations_def Let_def
  by (intro cache_intros)

lemma cache_free_handlers:
  "cache_free (handle_allocate_cores env pools cr)"
  "cache_free (handle_allocate_cores_percent env pools pr)"
  "cache_free (handle_allocate_numa_cores env pools nr)"
  "cache_free (handle_list_allocations env pools lr)"
  "cache_free (handle_get_memory_info env gr)"
  "cache_free (handle_allocate_hugepages env hr)"
  unfolding handle_allocate_cores_def handle_allocate_cores_percent_def handle_allocate_numa_cores_def
    handle_list_allocations_def handle_get_memory_info_def handle_allocate_hugepages_def
    check_hugepage_capacity_def get_hugepages_context_def upsert_allocation_def
    remove_allocation_for_key_def Let_def
  by (intro cache_intros)+

section \<open>The daemon\<close>

text \<open>The same answer and the same store, whatever the fields hold.\<close>

definition world_cache_free :: "'a handler \<Rightarrow> bool" where
  "world_cache_free f \<longleftrightarrow> (\<forall>(w1 :: world) w2 out w1'. w_store w1 = w_store w2 \<longrightarrow> f w1 = (out, w1') \<longrightarrow>
     (\<exists>w2'. f w2 = (out, w2') \<and> w_store w2' = w_store w1'))"

lemma world_cache_freeE:
  assumes "world_cache_free f" "f w1 = (out, w1')" "w_store w1 = w_store (w2 :: world)"
  obtains w2' where "f w2 = (out, w2')" "w_store w1' = w_store w2'"
  using assms unfolding world_cache_free_def by metis

named_theorems world_cache_intros \<open>handlers that do not depend on the fields in memory\<close>

lemma on_ledger_cache_free [world_cache_intros]:
  assumes "cache_free f"
  shows "world_cache_free (on_ledger f)"
  unfolding world_cache_free_def
proof (intro allI impI)
  fix w1 w2 :: world and out w1' assume same: "w_store w1 = w_store w2" and run: "on_ledger f w1 = (out, w1')"
  obtain o1 m1 s1 where f: "f (w_ledger w1) (w_store w1) = (o1, m1, s1)" using prod_cases3 by blast
  obtain m2 where "f (w_ledger w2) (w_store w1) = (o1, m2, s1)" by (rule cache_freeE [OF assms f])
  then show "\<exists>w2'. on_ledger f w2 = (out, w2') \<and> w_store w2' = w_store w1'"
    using run f same by (auto simp: on_ledger_def)
qed

lemma on_hugepages_cache_free [world_cache_intros]:
  assumes "cache_free f"
  shows "world_cache_free (on_hugepages f)"
  unfolding world_cache_free_def
proof (intro allI impI)
  fix w1 w2 :: world and out w1' assume same: "w_store w1 = w_store w2" and run: "on_hugepages f w1 = (out, w1')"
  obtain o1 m1 s1 where f: "f (w_hugepages w1) (w_store w1) = (o1, m1, s1)" using prod_cases3 by blast
  obtain m2 where "f (w_hugepages w2) (w_store w1) = (o1, m2, s1)" by (rule cache_freeE [OF assms f])
  then show "\<exists>w2'. on_hugepages f w2 = (out, w2') \<and> w_store w2' = w_store w1'"
    using run f same by (auto simp: on_hugepages_def)
qed

lemma on_store_cache_free [world_cache_intros]: "world_cache_free (on_store f)"
  by (auto simp: world_cache_free_def on_store_def split: prod.splits)

lemma return_cache_free [world_cache_intros]: "world_cache_free (return_h x)"
  by (auto simp: world_cache_free_def return_h_def)

lemma outside_cache_free [world_cache_intros]: "world_cache_free outside_call"
  unfolding outside_call_def by (rule on_store_cache_free)

lemma bind_cache_free [world_cache_intros]:
  assumes "world_cache_free f" "\<And>x. world_cache_free (g x)"
  shows "world_cache_free (bind_h f g)"
  unfolding world_cache_free_def
proof (intro allI impI)
  fix w1 w2 :: world and out w1' assume same: "w_store w1 = w_store w2" and run: "bind_h f g w1 = (out, w1')"
  obtain o1 a1 where f: "f w1 = (o1, a1)" by fastforce
  obtain a2 where f2: "f w2 = (o1, a2)" "w_store a1 = w_store a2" by (rule world_cache_freeE [OF assms(1) f same])
  show "\<exists>w2'. bind_h f g w2 = (out, w2') \<and> w_store w2' = w_store w1'"
  proof (cases o1)
    case (Ret x)
    then have "g x a1 = (out, w1')" using run f by (simp add: bind_h_def)
    from world_cache_freeE [OF assms(2) this f2(2)] obtain w2' where
      "g x a2 = (out, w2')" "w_store w1' = w_store w2'" by blast
    then show ?thesis using f2(1) Ret by (simp add: bind_h_def)
  qed (use run f f2 in \<open>simp_all add: bind_h_def\<close>)
qed

lemma map_outcome_cache_free [world_cache_intros]:
  assumes "world_cache_free f"
  shows "world_cache_free (\<lambda>w. map_outcome g (f w))"
  unfolding world_cache_free_def
proof (intro allI impI)
  fix w1 w2 :: world and out w1' assume same: "w_store w1 = w_store w2" and run: "map_outcome g (f w1) = (out, w1')"
  obtain o1 a1 where f: "f w1 = (o1, a1)" by fastforce
  obtain a2 where "f w2 = (o1, a2)" "w_store a1 = w_store a2" by (rule world_cache_freeE [OF assms f same])
  then show "\<exists>w2'. map_outcome g (f w2) = (out, w2') \<and> w_store w2' = w_store w1'"
    using run f by (cases o1) (auto simp: map_outcome_def)
qed

lemma request_cache_free [world_cache_intros]: "world_cache_free (run_request env pools req)"
  by (cases req)
    (simp_all add: run_request_def [abs_def] map_outcome_cache_free on_ledger_cache_free
      on_hugepages_cache_free cache_free_handlers)

lemma plain_cache_free: "world_cache_free (\<lambda>w. (out, w))"
  by (simp add: world_cache_free_def)

lemma dispatch_cache_free: "world_cache_free (dispatch env pools data)"
proof (cases data)
  case (Inr v)
  then show ?thesis
  proof (cases v)
    case (JObj obj)
    note doc = Inr JObj
    show ?thesis
    proof (cases "List.find (\<lambda>a. action_value a = json_str (dict_get obj ''action'' JNull)) all_actions")
      case (Some a)
      then show ?thesis
        using doc by (cases "env_parse_obj env a obj")
          (simp_all add: dispatch_def [abs_def] plain_cache_free request_cache_free)
    qed (use doc in \<open>simp add: dispatch_def [abs_def] plain_cache_free\<close>)
  qed (simp_all add: dispatch_def [abs_def] plain_cache_free)
qed (simp add: dispatch_def [abs_def] plain_cache_free)

lemma log_cache_free: "world_cache_free (log_allocations response)"
  unfolding world_cache_free_def
proof (intro allI impI)
  let ?read = "on_ledger (fresh_read (\<lambda>db. get_all_allocations db None))"
  fix w1 w2 :: world and out w1'
  assume same: "w_store w1 = w_store w2" and run: "log_allocations response w1 = (out, w1')"
  have read: "world_cache_free ?read" by (intro world_cache_intros cache_intros)
  obtain o1 a1 where r: "?read w1 = (o1, a1)" by fastforce
  obtain a2 where "?read w2 = (o1, a2)" "w_store a1 = w_store a2" by (rule world_cache_freeE [OF read r same])
  then show "\<exists>w2'. log_allocations response w2 = (out, w2') \<and> w_store w2' = w_store w1'"
    using run r by (cases o1) (auto simp: log_allocations_def)
qed

lemma handled_cache_free [world_cache_intros]: "world_cache_free (handle_daemon_request env pools data)"
  unfolding world_cache_free_def
proof (intro allI impI)
  fix w1 w2 :: world and out w1'
  assume same: "w_store w1 = w_store w2" and run: "handle_daemon_request env pools data w1 = (out, w1')"
  obtain o1 a1 where d: "dispatch env pools data w1 = (o1, a1)" by fastforce
  obtain a2 where d2: "dispatch env pools data w2 = (o1, a2)" "w_store a1 = w_store a2"
    by (rule world_cache_freeE [OF dispatch_cache_free d same])
  have logged: "\<exists>w2'. log_allocations response a2 = (out, w2') \<and> w_store w2' = w_store w1'"
    if "log_allocations response a1 = (out, w1')" for response
    using world_cache_freeE [OF log_cache_free that d2(2)] by metis
  show "\<exists>w2'. handle_daemon_request env pools data w2 = (out, w2') \<and> w_store w2' = w_store w1'"
    using run d d2 logged
    by (auto simp: handle_daemon_request_def split: outcome.splits py_error.splits)
qed

lemma served_cache_free: "world_cache_free (serve_connection decode env pools arrived)"
proof -
  have "world_cache_free (if data = [] then return_h None
      else bind_h (handle_daemon_request env pools (decode data)) (\<lambda>response.
             bind_h outside_call (\<lambda>_. return_h (Some response))))" for data
    by (auto intro!: world_cache_intros)
  then show ?thesis unfolding serve_connection_def Let_def by (intro world_cache_intros)
qed

end
