(* ===== verification/Configure_Hook.thy ===== *)
theory Configure_Hook
  imports Daemon_System
begin

text \<open>
  The configure hook as a process of its own: it opens the same store as the daemon, reads the
  options and the claims of the general pool, and records the pool it accepts.
\<close>

section \<open>The hook\<close>

text \<open>Importing the ledger module, in the hook's process.\<close>

definition open_ledger :: "(adb, unit) session" where
  "open_ledger m s =
     (case ensure_dir s of
        (Ret _, s') \<Rightarrow> load_from_store m s'
      | (Raise e, s') \<Rightarrow> (Raise e, m, s')
      | (Crash, s') \<Rightarrow> (Crash, m, s'))"

definition configure_hook ::
  "host \<Rightarrow> (string \<Rightarrow> json option) \<Rightarrow> (string \<Rightarrow> bool) \<Rightarrow> (adb, string option) session" where
  "configure_hook h snapctl_get snapctl_set =
     bind_s open_ledger (\<lambda>_.
     bind_s (lift_s (read_snap_cpu_pool snapctl_get)) (\<lambda>configuration.
     bind_s (lift_s (read_snap_pool_option snapctl_get validated_pool_option)) (\<lambda>accepted.
     bind_s (lift_s (normalize_configuration h configuration accepted)) (\<lambda>normalized.
       if Some normalized = accepted then return_s None
       else
         bind_s (lift_s (make_pools h configuration)) (\<lambda>pools.
         bind_s (fresh_read (\<lambda>db. get_claimed_cpus db (Some GENERAL))) (\<lambda>claimed.
           lift_s (record_configuration pools normalized snapctl_set claimed)))))))"

text \<open>\<open>main\<close>: every exception is a message and the exit status 1.\<close>

definition hook_main ::
  "host \<Rightarrow> (string \<Rightarrow> json option) \<Rightarrow> (string \<Rightarrow> bool) \<Rightarrow> (adb, int) session" where
  "hook_main h snapctl_get snapctl_set =
     try_s (bind_s (configure_hook h snapctl_get snapctl_set) (\<lambda>_. return_s 0)) (\<lambda>e. return_s 1)"

section \<open>It only reads\<close>

lemma open_ledger_reads: "reads_only open_ledger"
  unfolding reads_only_def
proof (intro allI impI)
  fix m s out m' s' assume run: "open_ledger m s = (out, m', s')"
  obtain o1 s1 where d: "ensure_dir s = (o1, s1)" by fastforce
  have u: "untouched s s1"
    using d by (auto simp: ensure_dir_def syscall_def Let_def split: list.splits fate.splits)
  show "untouched s s'"
  proof (cases o1)
    case (Ret x)
    then have "load_from_store m s1 = (out, m', s')" using run d by (simp add: open_ledger_def)
    then show ?thesis by (rule untouched_trans [OF u load_from_store_untouched])
  qed (use run d u in \<open>auto simp: open_ledger_def\<close>)
qed

lemma configure_hook_reads: "reads_only (configure_hook h snapctl_get snapctl_set)"
  unfolding configure_hook_def
  by (intro reads_only_bind open_ledger_reads reads_only_lift)
    (auto intro!: reads_only_bind reads_only_lift fresh_read_reads)

lemma hook_main_reads: "reads_only (hook_main h snapctl_get snapctl_set)"
  unfolding hook_main_def by (auto intro!: configure_hook_reads)

section \<open>What it decides\<close>

text \<open>A hook that returns has decided on the stored ledger.\<close>

lemma configure_hook_Ret:
  assumes "ledgers_sound s" "configure_hook h get set_ok m s = (Ret (Some saved), m', s')"
  obtains configuration accepted pools normalized where
    "read_snap_cpu_pool get = Inr configuration"
    and "read_snap_pool_option get validated_pool_option = Inr accepted"
    and "normalize_configuration h configuration accepted = Inr normalized" "Some normalized \<noteq> accepted"
    and "make_pools h configuration = Inr pools"
    and "stored_ledger s = Some m'" "wf_ledger m'"
    and "\<exists>claimed. get_claimed_cpus m' (Some GENERAL) = Inr claimed \<and>
      record_configuration pools normalized set_ok claimed = Inr (Some saved)"
proof -
  obtain m1 s1 m2 s2 configuration accepted pools normalized claimed where
    o: "open_ledger m s = (Ret (), m1, s1)"
    and opts: "read_snap_cpu_pool get = Inr configuration"
      "read_snap_pool_option get validated_pool_option = Inr accepted"
      "normalize_configuration h configuration accepted = Inr normalized" "Some normalized \<noteq> accepted"
      "make_pools h configuration = Inr pools"
    and fr: "fresh_read (\<lambda>db. get_claimed_cpus db (Some GENERAL)) m1 s1 = (Ret claimed, m2, s2)"
    and rec: "record_configuration pools normalized set_ok claimed = Inr (Some saved)"
    and same: "m2 = m'" "s2 = s'"
    using assms(2) unfolding configure_hook_def
    by (auto elim!: bind_s_RetE simp: lift_s_def return_s_def raise_s_def split: sum.splits if_splits)
  have u: "untouched s s1" by (rule reads_onlyD [OF open_ledger_reads o])
  note r = fresh_read_Ret [OF untouched_sound [OF u assms(1)] fr]
  have "stored_ledger s1 = stored_ledger s"
    using untouched_fields(1) [OF u] by (simp add: stored_ledger_def)
  then show thesis using that [OF opts] r rec same by simp
qed

section \<open>Claims and pools\<close>

text \<open>The CPUs claimed in a pool, and a pool whose claims its configuration does not cover.\<close>

definition pool_claims :: "adb \<Rightarrow> cpu_pool_name \<Rightarrow> int set" where
  "pool_claims db pool = \<Union> (owned_by db ` {s. service_pool db s = pool})"

definition pool_blocked :: "cpu_pools \<Rightarrow> adb \<Rightarrow> cpu_pool_name \<Rightarrow> bool" where
  "pool_blocked pools db pool \<longleftrightarrow> pool_claims db pool \<noteq> {} \<and>
     (\<forall>provider. select_pool pools pool = Inr provider \<longrightarrow> \<not> pool_claims db pool \<subseteq> prov_configured provider)"

lemma claims_of_pool: "wf_ledger db \<Longrightarrow> get_claimed_cpus db (Some pool) = Inr (pool_claims db pool)"
  by (simp add: claimed_cpus_wf pool_claims_def)

lemma claims_covered: "validate_claims provider claimed = Inr () \<longleftrightarrow> claimed \<subseteq> prov_configured provider"
  by (auto simp: validate_claims_def)

lemma blocked_pool_report:
  "pool' \<in> fst ` set (blocked_pool pools pool (pool_claims db pool)) \<longleftrightarrow> pool' = pool \<and> pool_blocked pools db pool"
proof (cases "select_pool pools pool")
  case (Inr provider)
  then show ?thesis
    using claims_covered [of provider "pool_claims db pool"]
    by (cases "validate_claims provider (pool_claims db pool)") (auto simp: blocked_pool_def pool_blocked_def)
qed (auto simp: blocked_pool_def pool_blocked_def)

text \<open>A configuration that passed the hook is what the daemon starts with.\<close>

lemma startup_uses_accepted:
  assumes "read_snap_cpu_pool get = Inr configuration" "make_pools h configuration = Inr pools"
  shows "load_startup_pool h get = pools"
proof -
  obtain isolated where i: "make_provider h None = Inr isolated"
    using assms(2) unfolding make_pools_def by blast
  show ?thesis
  proof (cases "custom_pool configuration")
    case None
    then show ?thesis
      using assms i by (simp add: load_startup_pool_def startup_general_def make_pools_def Let_def)
  next
    case (Some c)
    then obtain general where "make_provider h (Some c) = Inr general"
      "validate_disjoint \<lparr>isolated_pool = isolated, general_pool = Some general\<rparr> = Inr ()"
      "pools = \<lparr>isolated_pool = isolated, general_pool = Some general\<rparr>"
      using assms(2) i unfolding make_pools_def by (auto simp: Let_def)
    then show ?thesis
      using assms(1) i Some by (simp add: load_startup_pool_def startup_general_def Let_def)
  qed
qed

lemma recorded_not_blocked:
  assumes "record_configuration pools normalized set_ok (pool_claims db GENERAL) = Inr (Some saved)"
  shows "\<not> pool_blocked pools db GENERAL" "saved = normalized"
  using assms claims_covered
  by (auto simp: record_configuration_def pool_blocked_def select_pool_def simp del: validate_guards split: if_splits option.splits)

end
