(* ===== verification/Claims_Daemon.thy ===== *)
theory Claims_Daemon
  imports Claims_Selection Section_Views Call_Counts Response_Types Cache_Independence Configure_Hook Handler_Retry
begin

text \<open>
  Properties of the daemon as a whole: how long a turn of its loop is, which answer belongs to
  which request, what its fields in memory matter for, what it reports at startup, and what
  happens to an answer that cannot be delivered.
\<close>

definition three_request :: json where
  "three_request = JObj [(''action'', JStr ''allocate_cores''), (''num_of_cores'', JInt 3)]"

section \<open>A turn of the loop ends\<close>

text \<open>C19: Every turn of the daemon's loop ends after a bounded number of system calls on its files and sockets,
  whichever of them fail: at most 59 and 3 for each NUMA node directory; starting makes at most
  20. No error path retries or waits for a change.\<close>

theorem every_turn_is_bounded:
  "(\<exists>k. k \<le> 3 * node_count (env_host env) + 59 \<and>
     fates (w_store (snd (serve_connection decode env pools arrived w))) = drop k (fates (w_store w))) \<and>
   (\<exists>k. k \<le> 20 \<and>
     fates (w_store (snd (boot to_int h snapctl_get stale w))) = drop k (fates (w_store w)))"
proof
  obtain out w' where run: "serve_connection decode env pools arrived w = (out, w')" by fastforce
  from world_callsD [OF calls_served run] show "\<exists>k. k \<le> 3 * node_count (env_host env) + 59 \<and>
     fates (w_store (snd (serve_connection decode env pools arrived w))) = drop k (fates (w_store w))"
    using run by (simp add: request_calls_def add.commute)
next
  obtain out w' where run: "boot to_int h snapctl_get stale w = (out, w')" by fastforce
  from world_callsD [OF calls_boot run] show "\<exists>k. k \<le> 20 \<and>
     fates (w_store (snd (boot to_int h snapctl_get stale w))) = drop k (fates (w_store w))"
    using run by simp
qed

section \<open>Answers and requests\<close>

text \<open>C18: Answers belong to their requests: on a sound store, whatever fails, a request that is answered gets an
  answer of its own kind that repeats its pool, service, node and counts, whose CPU text has the
  reported size and whose free CPUs are part of the total; a memory or hugepage request is never
  ended by an exception, only a CPU request is.\<close>

theorem answers_match_requests:
  assumes "store_sound (env_to_int env) (w_store w)" "run_request env pools req w = (out, w')"
  shows "case out of Ret response \<Rightarrow> responds req response | Raise e \<Rightarrow> about_cpus req | Crash \<Rightarrow> True"
  using request_answers [OF _ assms(2)] assms(1) by (auto simp: world_sound_def split: outcome.split)

theorem answers_match_requests_witness:
  "\<exists>response w'. run_request example_env example_pools (CoresRequest (cores_request ''c'' 3))
       \<lparr>w_ledger = empty_adb, w_hugepages = [], w_store = example_store\<rparr> = (Ret response, w') \<and>
     responds (CoresRequest (cores_request ''c'' 3)) response"
proof -
  let ?w = "\<lparr>w_ledger = empty_adb, w_hugepages = [], w_store = example_store\<rparr>"
  let ?run = "run_request example_env example_pools (CoresRequest (cores_request ''c'' 3)) ?w"
  have "case ?run of (Ret response, w') \<Rightarrow> True | _ \<Rightarrow> False" by code_simp
  then obtain response w' where run: "?run = (Ret response, w')" by (auto split: prod.splits outcome.splits)
  have "store_sound (env_to_int example_env) (w_store ?w)" by (simp add: example_store_sound example_env_def)
  from answers_match_requests [OF this run] show ?thesis using run by auto
qed

section \<open>The fields in memory\<close>

text \<open>C17: The ledger and the table in memory are caches: two daemons on the same store give the same answer to the
  same message and leave the same store behind, whatever their fields hold, and so does a daemon
  that was just restarted.\<close>

theorem memory_does_not_matter:
  assumes "w_store w1 = w_store w2"
  shows "fst (serve_connection decode env pools arrived w1) = fst (serve_connection decode env pools arrived w2) \<and>
    w_store (snd (serve_connection decode env pools arrived w1)) =
      w_store (snd (serve_connection decode env pools arrived w2))"
proof -
  obtain out w1' where "serve_connection decode env pools arrived w1 = (out, w1')" by fastforce
  with world_cache_freeE [OF served_cache_free this assms] show ?thesis by (metis fst_conv snd_conv)
qed

theorem memory_does_not_matter_witness:
  "fst (serve_connection (\<lambda>text. Inr three_request) example_env example_pools ''request''
        \<lparr>w_ledger = empty_adb, w_hugepages = [], w_store = example_store\<rparr>) =
   fst (serve_connection (\<lambda>text. Inr three_request) example_env example_pools ''request''
        \<lparr>w_ledger = general_ledger, w_hugepages = [(''a'', [])], w_store = example_store\<rparr>)"
  by (rule memory_does_not_matter [THEN conjunct1]) simp

section \<open>The startup report\<close>

text \<open>No request for CPUs of such a pool is granted.\<close>

lemma blocked_refuses:
  assumes sound: "ledgers_sound s" "stored_ledger s = Some db" "pool_blocked pools db pool"
  shows "acr_pool cr = pool \<Longrightarrow> acr_num_of_cores cr \<noteq> - 1 \<Longrightarrow> handle_allocate_cores env pools cr m s \<noteq> (Ret c, m', s')"
    and "anr_pool nr = pool \<Longrightarrow> anr_num_of_cores nr \<noteq> - 1 \<Longrightarrow> handle_allocate_numa_cores env pools nr m s \<noteq> (Ret n, m', s')"
    and "apr_pool pr = pool \<Longrightarrow> 0 < apr_percent pr \<Longrightarrow> handle_allocate_cores_percent env pools pr m s \<noteq> (Ret p, m', s')"
proof -
  have uncovered: False if "select_pool pools pool = Inr provider" "wf_ledger db"
    "get_claimed_cpus db (Some pool) = Inr claimed" "claimed \<subseteq> prov_configured provider" for provider claimed
    using that sound(3) claims_of_pool [OF that(2), of pool] by (auto simp: pool_blocked_def)
  show "handle_allocate_cores env pools cr m s \<noteq> (Ret c, m', s')"
    if "acr_pool cr = pool" "acr_num_of_cores cr \<noteq> - 1"
  proof
    assume run: "handle_allocate_cores env pools cr m s = (Ret c, m', s')"
    obtain provider snap db' where p: "select_pool pools (acr_pool cr) = Inr provider" "stored_ledger s = Some db'"
      "wf_ledger db'" "allocate_cores_in env cr provider snap db' = Inr (c, m')"
      by (rule transaction_handler_Ret [OF sound(1) handlers_keep(1) run [unfolded handle_allocate_cores_def]])
    show False
      by (rule allocate_cores_in_count [OF p(4) that(2)]) (use uncovered p sound(2) that(1) in auto)
  qed
  show "handle_allocate_numa_cores env pools nr m s \<noteq> (Ret n, m', s')"
    if "anr_pool nr = pool" "anr_num_of_cores nr \<noteq> - 1"
  proof
    assume run: "handle_allocate_numa_cores env pools nr m s = (Ret n, m', s')"
    obtain provider snap db' where p: "select_pool pools (anr_pool nr) = Inr provider" "stored_ledger s = Some db'"
      "wf_ledger db'" "allocate_numa_in env nr provider snap db' = Inr (n, m')"
      by (rule transaction_handler_Ret [OF sound(1) handlers_keep(3) run [unfolded handle_allocate_numa_cores_def]])
    from allocate_numa_in_Inr [OF p(4)] show False using uncovered p sound(2) that by auto
  qed
  show "handle_allocate_cores_percent env pools pr m s \<noteq> (Ret p, m', s')"
    if "apr_pool pr = pool" "0 < apr_percent pr"
  proof
    assume run: "handle_allocate_cores_percent env pools pr m s = (Ret p, m', s')"
    obtain provider snap db' where p: "select_pool pools (apr_pool pr) = Inr provider" "stored_ledger s = Some db'"
      "wf_ledger db'" "allocate_percent_in env pr provider snap db' = Inr (p, m')"
      by (rule transaction_handler_Ret [OF sound(1) handlers_keep(2) run [unfolded handle_allocate_cores_percent_def]])
    then obtain res where res: "allocate_cores_in env (percent_request pr snap) provider snap db' = Inr (res, m')"
      by (auto simp: allocate_percent_in_def bindE_eq_Inr)
    have "- (py_len (snap_eligible snap) * apr_percent pr) \<le> 0" using that(2) by (simp add: py_len_def)
    then have "0 \<le> percent_cores (py_len (snap_eligible snap)) (apr_percent pr)"
      unfolding percent_cores_def by linarith
    then have "acr_num_of_cores (percent_request pr snap) \<noteq> - 1" "acr_pool (percent_request pr snap) = pool"
      using that by (simp_all add: percent_request_def)
    from allocate_cores_in_count [OF res this(1)] this(2) show False using uncovered p(1-3) sound(2) that(1) by auto
  qed
qed

text \<open>C21: The startup report names exactly the pools whose claims are not covered by their configured CPUs, changes
  nothing, and means what it says: while these claims stand, no request for CPUs of a reported pool is
  granted, be it for a number of cores, for a percentage of the pool or for cores of a node; only
  releases are.\<close>

theorem startup_report_names_blocked_pools:
  assumes "ledgers_sound s" "validate_startup_pool pools m s = (Ret report, m', s')"
  shows "stored_ledger s = Some m' \<and> untouched s s' \<and>
    fst ` set report = {pool. pool_blocked pools m' pool} \<and>
    (\<forall>t env r p r' a b c. stored_ledger t = Some m' \<and> ledgers_sound t \<longrightarrow>
      (acr_pool r \<in> fst ` set report \<and> acr_num_of_cores r \<noteq> - 1 \<longrightarrow>
        (\<forall>res. fst (handle_allocate_cores env pools r a t) \<noteq> Ret res)) \<and>
      (apr_pool p \<in> fst ` set report \<and> 0 < apr_percent p \<longrightarrow>
        (\<forall>res. fst (handle_allocate_cores_percent env pools p c t) \<noteq> Ret res)) \<and>
      (anr_pool r' \<in> fst ` set report \<and> anr_num_of_cores r' \<noteq> - 1 \<longrightarrow>
        (\<forall>res. fst (handle_allocate_numa_cores env pools r' b t) \<noteq> Ret res)))"
proof -
  note start = validate_startup_Ret [OF assms]
  have "wf_ledger m'" by (rule stored_wf [OF assms(1) start(1)])
  then have "report = blocked_pool pools ISOLATED (pool_claims m' ISOLATED) @ blocked_pool pools GENERAL (pool_claims m' GENERAL)"
    using start(3) by (auto simp: claims_of_pool)
  then have names: "pool \<in> fst ` set report \<longleftrightarrow> pool_blocked pools m' pool" for pool
    using blocked_pool_report [of pool pools ISOLATED m'] blocked_pool_report [of pool pools GENERAL m']
    by (cases pool) (auto simp: image_Un)
  then have "fst ` set report = {pool. pool_blocked pools m' pool}" by blast
  moreover have "\<forall>res. fst (handle_allocate_cores env pools r a t) \<noteq> Ret res"
    if "stored_ledger t = Some m'" "ledgers_sound t" "acr_pool r \<in> fst ` set report" "acr_num_of_cores r \<noteq> - 1"
    for t env r a
    using blocked_refuses(1) [OF that(2,1)] that(3,4) names by (metis prod.collapse)
  moreover have "\<forall>res. fst (handle_allocate_numa_cores env pools r a t) \<noteq> Ret res"
    if "stored_ledger t = Some m'" "ledgers_sound t" "anr_pool r \<in> fst ` set report" "anr_num_of_cores r \<noteq> - 1"
    for t env r a
    using blocked_refuses(2) [OF that(2,1)] that(3,4) names by (metis prod.collapse)
  moreover have "\<forall>res. fst (handle_allocate_cores_percent env pools p a t) \<noteq> Ret res"
    if "stored_ledger t = Some m'" "ledgers_sound t" "apr_pool p \<in> fst ` set report" "0 < apr_percent p"
    for t env p a
    using blocked_refuses(3) [OF that(2,1)] that(3,4) names by (metis prod.collapse)
  ultimately show ?thesis using start(1,2) by blast
qed

theorem startup_report_names_blocked_pools_witness:
  "\<exists>report m' s'. validate_startup_pool two_pools empty_adb example_store = (Ret report, m', s') \<and>
     fst ` set report = {ISOLATED} \<and>
     (\<forall>res. fst (handle_allocate_cores example_env two_pools (cores_request ''c'' 1) empty_adb example_store) \<noteq> Ret res)"
proof -
  let ?run = "validate_startup_pool two_pools empty_adb example_store"
  have "case ?run of (Ret report, m', s') \<Rightarrow> List.map fst report = [ISOLATED] | _ \<Rightarrow> False" by code_simp
  then obtain report m' s' where run: "?run = (Ret report, m', s')" and names: "List.map fst report = [ISOLATED]"
    by (auto split: prod.splits outcome.splits)
  have pool: "fst ` set report = {ISOLATED}" using arg_cong [OF names, of set] by simp
  from startup_report_names_blocked_pools [OF example_ledgers_sound run] run pool show ?thesis
    using example_ledgers_sound by (force simp: cores_request_def)
qed

section \<open>The configure hook\<close>

text \<open>C20: The configure hook, run as its own process on the daemon's store, records a pool only after checking it
  against the stored ledger, which it leaves alone: the text is canonical, its CPUs are present,
  disjoint from the isolated CPUs and cover every general claim (or there is no general pool and no
  general claim), and a daemon started with this configuration and ledger has the general pool
  unblocked.\<close>

theorem hook_accepts_usable_pools:
  assumes "ledgers_sound s" "configure_hook h get set_ok m s = (Ret (Some saved), m', s')"
  shows "stored_ledger s = Some m' \<and> untouched s s' \<and>
    \<not> pool_blocked (load_startup_pool h get) m' GENERAL \<and>
    (saved = ''isolated'' \<and> pool_claims m' GENERAL = {} \<or>
     (\<exists>S present isolated. saved = set_ranges S \<and> pool_claims m' GENERAL \<subseteq> S \<and>
        read_cpu_list h present_cpus_path = Inr present \<and> S \<subseteq> present \<and>
        make_provider h None = Inr isolated \<and> prov_configured isolated \<inter> S = {}))"
proof -
  obtain configuration accepted pools normalized where hook:
    "read_snap_cpu_pool get = Inr configuration"
    "read_snap_pool_option get validated_pool_option = Inr accepted"
    "normalize_configuration h configuration accepted = Inr normalized" "Some normalized \<noteq> accepted"
    "make_pools h configuration = Inr pools" "stored_ledger s = Some m'" "wf_ledger m'"
    and rec: "\<exists>claimed. get_claimed_cpus m' (Some GENERAL) = Inr claimed \<and>
      record_configuration pools normalized set_ok claimed = Inr (Some saved)"
    by (rule configure_hook_Ret [OF assms])
  note claims = claims_of_pool [OF hook(7), of GENERAL]
  have "validate_snap_configuration h get set_ok m' = Inr (Some saved)"
    using hook rec claims by (simp add: validate_snap_configuration_def accept_configuration_def)
  from hook_records_only_safe_pools [OF this] claims have
    "saved = ''isolated'' \<and> pool_claims m' GENERAL = {} \<or>
     (\<exists>S present isolated. saved = set_ranges S \<and> pool_claims m' GENERAL \<subseteq> S \<and>
        read_cpu_list h present_cpus_path = Inr present \<and> S \<subseteq> present \<and>
        make_provider h None = Inr isolated \<and> prov_configured isolated \<inter> S = {})" by simp
  moreover have "\<not> pool_blocked (load_startup_pool h get) m' GENERAL"
    using recorded_not_blocked(1) [of pools normalized set_ok m'] rec claims startup_uses_accepted [OF hook(1,5)] by auto
  ultimately show ?thesis using hook(6) reads_onlyD [OF configure_hook_reads assms(2)] by blast
qed

definition general_store :: store where
  "general_store = (fresh_store ''state.json'')\<lparr>
     state_file := Json (JObj (dump_load [(''allocations_db'', JObj (snapshot general_ledger))])),
     maybe_data := [Json (JObj (dump_load [(''allocations_db'', JObj (snapshot general_ledger))]))]\<rparr>"

lemma general_store_sound: "ledgers_sound general_store"
proof -
  have "wf_ledger general_ledger" "store_ok general_store" by code_simp+
  moreover have "section_of ''allocations_db'' (state_file general_store) = Some (dump_load (snapshot general_ledger))"
    by code_simp
  moreover have "maybe_files general_store = [state_file general_store]" by (simp add: general_store_def fresh_store_def maybe_files_def)
  ultimately show ?thesis
    using sound_dumped by (simp add: ledgers_sound_def claim_section.contents_satisfy_def)
qed

theorem hook_accepts_usable_pools_witness:
  "\<exists>m' s'. configure_hook split_host snap_options (\<lambda>v. True) empty_adb general_store = (Ret (Some ''4-5''), m', s') \<and>
     stored_ledger general_store = Some m' \<and> \<not> pool_blocked (load_startup_pool split_host snap_options) m' GENERAL"
proof -
  let ?run = "configure_hook split_host snap_options (\<lambda>v. True) empty_adb general_store"
  have "case ?run of (Ret (Some saved), m', s') \<Rightarrow> saved = ''4-5'' | _ \<Rightarrow> False" by code_simp
  then obtain m' s' where run: "?run = (Ret (Some ''4-5''), m', s')"
    by (auto split: prod.splits outcome.splits option.splits)
  from hook_accepts_usable_pools [OF general_store_sound run] run show ?thesis by blast
qed

section \<open>Answers that cannot be delivered\<close>

text \<open>C32: A client that hangs up before its answer is sent ends the daemon: the failing send leaves the loop as an
  exception, and the request is not undone - what it committed is what the store holds when the
  daemon is started again.\<close>

theorem undelivered_answer_ends_the_daemon:
  assumes "fates (w_store w) = Done # Done # fs" "arrived \<noteq> []"
    and "handle_daemon_request env pools (decode (take 1024 arrived)) (facing fs w) = (Ret response, w')"
    and "fates (w_store w') = Fails # rest"
  shows "\<exists>e v. serve_connection decode env pools arrived w = (Raise e, v) \<and>
    daemon_step (env_to_int env) (Running pools w) (Down (restart (w_store v))) \<and>
    stored_ledger (restart (w_store v)) = stored_ledger (w_store w') \<and>
    stored_table (env_to_int env) (restart (w_store v)) = stored_table (env_to_int env) (w_store w')"
proof -
  let ?v = "w'\<lparr>w_store := (w_store w')\<lparr>fates := rest\<rparr>\<rparr>"
  have call: "outside_call (facing (Done # gs) u) = (Ret (), facing gs u)" for gs u
    by (simp add: outside_call_def on_store_def syscall_def with_fates_def)
  have start: "w = facing (Done # Done # fs) w" using assms(1) by (simp add: with_fates_def)
  have "outside_call w' = (Raise (OSError ''system call failed''), ?v)"
    using assms(4) by (simp add: outside_call_def on_store_def syscall_def)
  then have "serve_connection decode env pools arrived (facing (Done # Done # fs) w)
      = (Raise (OSError ''system call failed''), ?v)"
    using assms(2,3) call by (simp add: serve_connection_def bind_h_def Let_def)
  then have run: "serve_connection decode env pools arrived w = (Raise (OSError ''system call failed''), ?v)"
    using start by simp
  have "daemon_step (env_to_int env) (Running pools w) (Down (restart (w_store ?v)))"
    by (rule daemon_step.Failed [OF refl, where fs = "Done # Done # fs"]) (use run start in auto)
  then show ?thesis
    using run by (auto simp: stored_ledger_def stored_table_def restart_def)
qed

theorem undelivered_answer_ends_the_daemon_witness:
  "\<exists>fs e v. serve_connection (\<lambda>text. Inr three_request) example_env example_pools ''request''
       (facing fs \<lparr>w_ledger = empty_adb, w_hugepages = [], w_store = example_store\<rparr>) = (Raise e, v) \<and>
     map_option (\<lambda>db. owned_by db ''c'') (stored_ledger (restart (w_store v))) = Some {2, 3, 5}"
proof -
  let ?fs = "replicate 30 Done @ [Fails]"
  let ?w = "\<lparr>w_ledger = empty_adb, w_hugepages = [], w_store = example_store\<rparr>"
  let ?run = "handle_daemon_request example_env example_pools (Inr three_request) (facing ?fs ?w)"
  have "case ?run of (Ret response, w') \<Rightarrow> fates (w_store w') = [Fails] \<and>
      map_option (\<lambda>db. owned_by db ''c'') (stored_ledger (w_store w')) = Some {2, 3, 5} | _ \<Rightarrow> False" by code_simp
  then obtain response w' where run: "?run = (Ret response, w')" and fates: "fates (w_store w') = [Fails]"
    and own: "map_option (\<lambda>db. owned_by db ''c'') (stored_ledger (w_store w')) = Some {2, 3, 5}"
    by (auto split: prod.splits outcome.splits)
  have start: "fates (w_store (facing (Done # Done # ?fs) ?w)) = Done # Done # ?fs" by (simp add: with_fates_def)
  have again: "facing ?fs (facing (Done # Done # ?fs) ?w) = facing ?fs ?w" by (simp add: with_fates_def)
  have some: "''request'' \<noteq> []" by simp
  from undelivered_answer_ends_the_daemon [OF start some, where decode = "\<lambda>text. Inr three_request" and env = example_env
      and pools = example_pools, unfolded again, OF run fates]
  obtain e v where sent: "serve_connection (\<lambda>text. Inr three_request) example_env example_pools ''request''
      (facing (Done # Done # ?fs) ?w) = (Raise e, v)"
    and kept: "stored_ledger (restart (w_store v)) = stored_ledger (w_store w')" by blast
  show ?thesis
    by (intro exI [of _ "Done # Done # ?fs"] exI [of _ e] exI [of _ v] conjI sent) (simp only: kept own)
qed

section \<open>Asking again\<close>

text \<open>C16: A client that lost its answer may ask again: an allocation request that was granted and committed, by
  count, by percentage or from a node, is granted again on any daemon of the same host and pools
  that finds the ledger it left, at any later time; the answer is the same to the last field and no
  service's claim changes.\<close>

theorem lost_answers_can_be_asked_again:
  assumes "ledgers_sound (w_store w)" "asks_for_cpus req" "run_request env pools req w = (Ret response, w')"
    and "ledgers_sound (w_store v)" "fates (w_store v) = []" "\<not> blocked (w_store v)"
    and "stored_ledger (w_store v) = stored_ledger (w_store w')"
  shows "\<exists>v'. run_request (env\<lparr>env_now := now\<rparr>) pools req v = (Ret response, v') \<and>
    map_option abs_ledger (stored_ledger (w_store v')) = map_option abs_ledger (stored_ledger (w_store v))"
  using assms by (rule request_again)

theorem lost_answers_can_be_asked_again_witness:
  "\<exists>response w' v'. run_request example_env example_pools (CoresRequest (cores_request ''c'' 3))
       \<lparr>w_ledger = empty_adb, w_hugepages = [], w_store = example_store\<rparr> = (Ret response, w') \<and>
     run_request (example_env\<lparr>env_now := ''later''\<rparr>) example_pools (CoresRequest (cores_request ''c'' 3)) w'
       = (Ret response, v')"
proof -
  let ?w = "\<lparr>w_ledger = empty_adb, w_hugepages = [], w_store = example_store\<rparr>"
  let ?run = "run_request example_env example_pools (CoresRequest (cores_request ''c'' 3)) ?w"
  have "case ?run of (Ret response, w') \<Rightarrow> \<not> blocked (w_store w') \<and> fates (w_store w') = [] | _ \<Rightarrow> False"
    by code_simp
  then obtain response w' where run: "?run = (Ret response, w')" "\<not> blocked (w_store w')" "fates (w_store w') = []"
    by (auto split: prod.splits outcome.splits)
  have env: "env_to_int example_env = example_to_int" by (simp add: example_env_def)
  have "world_sound example_to_int ?w" by (simp add: world_sound_def example_store_sound)
  from run_request_sound [of example_env, unfolded env, OF example_to_int_reads this run(1)]
  have "ledgers_sound (w_store w')" by (simp add: world_sound_def store_sound_def)
  moreover have "asks_for_cpus (CoresRequest (cores_request ''c'' 3))" by (simp add: cores_request_def)
  ultimately show ?thesis
    using lost_answers_can_be_asked_again [of ?w, OF _ _ run(1) _ run(3,2) refl] run(1) example_ledgers_sound
    by fastforce
qed

end
