(* ===== verification/Spec2Isabelle.thy ===== *)
theory Spec2Isabelle
  imports Claims_Selection Claims_Ledger Claims_Store Claims_Hugepages Claims_Handlers Claims_Reports
    Claims_Daemon
begin

text \<open>
  A verification library for the EPA orchestrator, the daemon that hands out CPUs and records
  hugepage requests for the services of a host.

  The program. A client sends one JSON request over a Unix socket (\<open>src/bin/daemon\<close>).
  \<open>daemon_handler.py\<close> dispatches it to one of six handlers. The CPU handlers take a pool
  (\<open>cpu_pool.py\<close>), snapshot its online CPUs and run one transaction of \<open>AllocationsDB\<close>
  (\<open>allocations_db.py\<close>), which reads sysfs topology (\<open>utils.py\<close>, \<open>cpu_pinning.py\<close>) and records who
  owns which CPUs. The hugepage handlers combine sysfs counts (\<open>memory_manager.py\<close>) with recorded
  requests (\<open>hugepages_db.py\<close>). Both databases keep a section of one JSON file in a store that
  replaces it atomically and blocks after an uncertain commit (\<open>state_store.py\<close>).

  Which theory models what.
    \<^item> \<open>Prelude\<close>: exceptions and results, Python dictionaries and finite CPU sets; the lemma
      collections. \<open>Py_Text\<close>: the string and integer operations of Python that the code uses.
    \<^item> \<open>Cpu_Ranges\<close>: \<open>utils.py\<close>. \<open>Cpu_Pinning\<close>: \<open>cpu_pinning.py\<close>. \<open>Schemas\<close>: \<open>schemas.py\<close>. The host's
      sysfs is a parameter, the record \<open>host\<close>, where \<open>None\<close> is an \<open>OSError\<close>.
    \<^item> \<open>Smt_Selection\<close>: choosing CPUs inside a node, whole sibling pairs first. \<open>Sibling_Cores\<close>: the
      cores of a host, read off the sibling lists, and that the groups are these cores.
      \<open>Claim_Table\<close>: dictionaries of range texts with the set they cover, over an abstract printer
      and parser.
    \<^item> \<open>Allocations_DB\<close>: every operation of \<open>AllocationsDB\<close> on its six fields (record \<open>adb\<close>). A
      policy or pool argument that Python omits is passed as \<open>None\<close> or \<open>ISOLATED\<close>.
    \<^item> \<open>Ledger_Spec\<close>: the abstract ledger, a map from services to claims with disjoint CPUs, and its
      operations. \<open>Ledger_Refine\<close>, \<open>Ledger_Ops\<close>: each code operation implements an abstract one.
      \<open>Ledger_History\<close>: sequences of operations. \<open>Ledger_Progress\<close>: when operations succeed.
      \<open>Ledger_Retry\<close>: an allocation repeated on its own result selects the same CPUs.
    \<^item> \<open>Json_Values\<close>: JSON documents and what writing with sorted keys and reading does to them.
      \<open>Store_Io\<close>: system calls that may succeed, fail or end the process, with what a loss of power
      may leave of the files' contents and, apart from them, of their directory entries, and a
      weakest-precondition calculus for them.
      \<open>State_Store\<close>: \<open>StateStore\<close>, call by call. \<open>Store_Safety\<close>, \<open>Store_Sections\<close>: what each operation
      guarantees, and the contract of a section as the locales \<open>section_store\<close> and
      \<open>separate_section\<close>, interpreted for both databases. \<open>Store_Progress\<close>: runs without faults.
    \<^item> \<open>Ledger_Txn\<close>: snapshot, load and transaction of the ledger. \<open>Db_Session\<close>: computations over
      fields in memory and the store. \<open>Hugepages_DB\<close>: \<open>hugepages_db.py\<close>. \<open>Memory_Manager\<close>:
      \<open>memory_manager.py\<close>. \<open>Load_Checks\<close>: what loading a ledger can reject, told from the document.
      \<open>Cpu_Pool\<close>: \<open>cpu_pool.py\<close> with the configure hook; \<open>snapctl\<close> is a parameter.
    \<^item> \<open>Daemon_Handler\<close>: the handlers, the startup check and the dispatcher, on a \<open>world\<close> of both
      databases' fields and the store. \<open>Handler_Safety\<close>: they keep the stored state sound.
      \<open>Hugepage_Capacity\<close>: the capacity check answers from the stored records and the kernel's counts.
      \<open>Daemon_Process\<close>: \<open>bin/daemon\<close>, its start, its socket and one turn of its loop; its calls on
      directories and sockets are system calls that may fail. \<open>Daemon_System\<close>: the daemon over time
      as the step relation \<open>daemon_step\<close>. \<open>Configure_Hook\<close>: the hook as a process on the same store.
      \<open>Value_Errors\<close>, \<open>Calm_Runs\<close>: which exceptions occur, and that requests are answered when
      nothing fails. \<open>Call_Counts\<close>: how many system calls each operation makes at most.
      \<open>Response_Types\<close>: a typing of answers by requests. \<open>Cache_Independence\<close>: the fields in memory
      are caches. \<open>Section_Views\<close>: requests leave the other database alone. \<open>Handler_Retry\<close>: a
      granted request asked again gets the same answer.
    \<^item> \<open>Example_Host\<close>: a small host on which the properties are applied.

  The properties. \<open>Claims_Selection\<close>: range texts, the split into dedicated and shared CPUs,
  sibling-aware and stable selection, pools at startup, the hook's decision. \<open>Claims_Ledger\<close>: the
  invariant over histories, protection of foreign claims, the effect and the success of each
  operation, persistence. \<open>Claims_Store\<close>: atomicity, blocking, recovery and progress under faults.
  \<open>Claims_Hugepages\<close>: records, reports and grants. \<open>Claims_Handlers\<close>, \<open>Claims_Reports\<close>: what an answer
  says of the committed state, failed requests are all or nothing. \<open>Claims_Daemon\<close>: turns of the
  loop are bounded, answers match requests, memory does not matter, the startup report and the
  configure hook, undelivered and repeated requests. This theory: the daemon over time and its two
  databases together.

  Parameters. \<open>env_parse_obj\<close> and \<open>env_to_int\<close> stand for pydantic's decoding of requests and of
  integer fields, \<open>decode\<close> for the JSON decoder on bytes, \<open>snapctl_get\<close> for the snap tool. What is
  assumed of them is named: \<open>reads_ints\<close> (a JSON integer is read as itself) and \<open>decoding_ok\<close> (they
  never raise the state store's own corruption error). The time stamp is a parameter of each
  transaction. No fuel is used: all loops are structural recursions over their input. The list of
  fates bounds only the failing calls; calls after its end succeed. The bounds on system calls (59
  for a turn of the loop and 3 for each node directory, 20 for a start) count every call the model
  makes, the waits for the lock and for a client included; opening, reading and closing a file that
  is only read is one call.

  Not modelled: how a request arrives over several receives, since the daemon does one \<open>recv(1024)\<close>
  and what has arrived by then is a parameter; the bytes that encode an answer; logging except the
  startup report, so \<open>log.py\<close> has no part in the model; the path of the lock file beside the state
  file and of the socket; the release of the lock as calls that may fail, since the code swallows
  that; a failing \<open>os.fdopen\<close> of a temporary file; the durability of directories above the store's own; the text of an \<open>OSError\<close> inside
  messages; snap packaging, the sudo wrapper, the tests and the probe script.
  Strings are sequences of bytes, so only ASCII digits and spaces count as such. The float product
  in the default heuristic is used for at most 100 CPUs and is modelled as integer arithmetic. A
  process is modelled on its own: other processes of the store wait for its lock.
\<close>

section \<open>The daemon over time\<close>

text \<open>C4: In every state the daemon can reach, through requests under any faults, crashes, losses of power,
  recoveries and restarts, each content the state file may have after a loss of power can be read:
  its ledger loads and is well-formed, and its hugepage table is sound.\<close>

theorem stored_state_always_sound:
  assumes "reads_ints to_int" "reachable to_int m" "f \<in> set (maybe_files (machine_store m))"
  shows "(\<exists>c db. section_of ''allocations_db'' f = Some c \<and> ledger_in c = Some db \<and> wf_ledger db) \<and>
    (\<exists>c. section_of ''hugepages_db'' f = Some c \<and> table_sound (restore_allocations to_int c))"
  using sound_file_ledger [OF reachable_sound [OF assms(1,2)] assms(3)]
    sound_file_table [OF reachable_sound [OF assms(1,2)] assms(3)] by blast

text \<open>A client's text and its decoding; every other text is rejected by the JSON decoder.\<close>

definition quoted :: "string \<Rightarrow> string" where
  "quoted s = CHR 0x22 # s @ [CHR 0x22]"

definition three_text :: string where
  "three_text = ''{'' @ quoted ''action'' @ '': '' @ quoted ''allocate_cores'' @ '', '' @ quoted ''num_of_cores'' @ '': 3}''"

definition example_decode :: "string \<Rightarrow> json result" where
  "example_decode data =
     (if data = three_text
      then Inr (JObj [(''action'', JStr ''allocate_cores''), (''num_of_cores'', JInt 3)])
      else Inl (ValueError ''Expecting value''))"

text \<open>A daemon that was started on a fresh installation and has answered one request.\<close>

lemma example_reachable:
  obtains pools w where "reachable example_to_int (Running pools w)"
    and "map_option (\<lambda>db. owned_by db ''c'') (stored_ledger (w_store w)) = Some {0, 1, 2}"
proof -
  let ?path = "state_file_path (\<lambda>x. Some ''/var/snap/epa-orchestrator/common'') ''/root''"
  let ?start = "boot example_to_int example_host (\<lambda>key. Some (JObj [])) False
    (new_world (with_fates [] (fresh_store ?path)))"
  let ?answer = "\<lambda>pools w. serve_connection example_decode example_env pools three_text (facing [] w)"
  have all: "case ?start of
      (Ret pools, w) \<Rightarrow>
        (case ?answer pools w of
           (Ret r, w') \<Rightarrow> map_option (\<lambda>db. owned_by db ''c'') (stored_ledger (w_store w')) = Some {0, 1, 2}
         | _ \<Rightarrow> False)
      | _ \<Rightarrow> False" by code_simp
  obtain pools w where w1: "?start = (Ret pools, w)"
    using all by (cases ?start; cases "fst ?start") auto
  then have "case ?answer pools w of
           (Ret r, w') \<Rightarrow> map_option (\<lambda>db. owned_by db ''c'') (stored_ledger (w_store w')) = Some {0, 1, 2}
         | _ \<Rightarrow> False" using all by simp
  then obtain r w' where w2: "?answer pools w = (Ret r, w')"
    and own: "map_option (\<lambda>db. owned_by db ''c'') (stored_ledger (w_store w')) = Some {0, 1, 2}"
    by (cases "?answer pools w"; cases "fst (?answer pools w)") auto
  have env: "env_to_int example_env = example_to_int" by (simp add: example_env_def)
  have "reachable example_to_int (Running pools w)"
    by (rule reachable.Stepped [OF reachable.Installed daemon_step.Started [OF w1]])
  then have "reachable example_to_int (Running pools w')"
    by (rule reachable.Stepped) (rule daemon_step.Answered [OF env w2])
  then show thesis using own by (rule that)
qed

theorem stored_state_always_sound_witness:
  "\<exists>pools w c db. reachable example_to_int (Running pools w) \<and>
     section_of ''allocations_db'' (state_file (w_store w)) = Some c \<and> ledger_in c = Some db \<and> wf_ledger db"
proof -
  obtain pools w where w: "reachable example_to_int (Running pools w)" by (rule example_reachable)
  have "state_file (w_store w) \<in> set (maybe_files (machine_store (Running pools w)))"
    using store_ok_visible [OF store_sound_ok [OF reachable_sound [OF example_to_int_reads w]]] by simp
  from stored_state_always_sound [OF example_to_int_reads w this] show ?thesis using w by blast
qed

text \<open>C14: Whatever happened before, a stopped daemon whose system calls succeed can be started: nothing it
  ever wrote is rejected as corrupt, the ledger it starts with is the one on disk, and its pools
  are those of the startup configuration.\<close>

theorem calm_start_succeeds:
  assumes "reads_ints to_int" "reachable to_int (Down s)"
  shows "\<exists>w. boot to_int h snapctl_get stale (new_world (with_fates [] s)) = (Ret (load_startup_pool h snapctl_get), w) \<and>
    daemon_step to_int (Down s) (Running (load_startup_pool h snapctl_get) w) \<and>
    stored_ledger s = Some (w_ledger w) \<and> wf_ledger (w_ledger w) \<and> table_sound (w_hugepages w)"
proof -
  have "store_sound to_int (with_fates [] s)" "fates (with_fates [] s) = []"
    using reachable_sound [OF assms] store_sound_fates by (simp_all add: with_fates_def)
  from calm_boot [OF this] obtain w where
    w: "boot to_int h snapctl_get stale (new_world (with_fates [] s)) = (Ret (load_startup_pool h snapctl_get), w)"
    "wf_ledger (w_ledger w)" "table_sound (w_hugepages w)" "stored_ledger (with_fates [] s) = Some (w_ledger w)"
    by blast
  moreover have "stored_ledger (with_fates [] s) = stored_ledger s" by (simp add: stored_ledger_def with_fates_def)
  ultimately show ?thesis using daemon_step.Started [OF w(1)] by auto
qed

theorem calm_start_succeeds_witness:
  "\<exists>s pools w. reachable example_to_int (Down s) \<and>
     boot example_to_int example_host (\<lambda>key. None) True (new_world (with_fates [] s)) = (Ret pools, w) \<and>
     stored_ledger s = Some (w_ledger w) \<and> owned_by (w_ledger w) ''c'' = {0, 1, 2}"
proof -
  obtain pools w where w: "reachable example_to_int (Running pools w)"
    "map_option (\<lambda>db. owned_by db ''c'') (stored_ledger (w_store w)) = Some {0, 1, 2}"
    by (rule example_reachable)
  have down: "reachable example_to_int (Down (restart (w_store w)))"
    by (rule reachable.Stepped [OF w(1) daemon_step.Killed])
  have same: "stored_ledger (restart (w_store w)) = stored_ledger (w_store w)"
    by (simp add: stored_ledger_def restart_def)
  from calm_start_succeeds [OF example_to_int_reads down, of example_host "\<lambda>key. None" True]
  obtain v where v: "boot example_to_int example_host (\<lambda>key. None) True (new_world (with_fates [] (restart (w_store w))))
      = (Ret (load_startup_pool example_host (\<lambda>key. None)), v)"
    "stored_ledger (restart (w_store w)) = Some (w_ledger v)" by blast
  moreover have "owned_by (w_ledger v) ''c'' = {0, 1, 2}" using v(2) w(2) same by simp
  ultimately show ?thesis using down by blast
qed

text \<open>The calls of the loop itself, facing the given fates.\<close>

lemma outside_call_facing:
  "outside_call (facing [] w) = (Ret (), facing [] w)"
  "outside_call (facing (Done # fs) w) = (Ret (), facing fs w)"
  "outside_call (facing (Fails # fs) w) = (Raise (OSError ''system call failed''), facing fs w)"
  "outside_call (facing (Dies # fs) w) = (Crash, facing fs w)"
  by (simp_all add: outside_call_def on_store_def syscall_def with_fates_def Let_def)

lemma outside_call_Raise:
  assumes "outside_call w = (Raise e, w')"
  shows "e = OSError ''system call failed'' \<and> (\<exists>rest. fates (w_store w) = Fails # rest)"
  using assms
  by (auto simp: outside_call_def on_store_def syscall_def Let_def split: list.splits fate.splits)

text \<open>An exception of a turn of the loop: of \<open>accept\<close>, of \<open>recv\<close>, of handling the message, or of \<open>sendall\<close>.\<close>

lemma served_raises:
  assumes "serve_connection decode env pools arrived (facing fs w) = (Raise e, w')"
  shows "e = OSError ''system call failed'' \<and> (\<exists>rest. fs = Fails # rest \<or> fs = Done # Fails # rest) \<or>
    (\<exists>out v. handle_daemon_request env pools (decode (take 1024 arrived)) (facing (drop 2 fs) w) = (out, v) \<and>
       (out = Raise e \<and> corruption e \<or>
        (\<exists>r rest. out = Ret r \<and> fates (w_store v) = Fails # rest) \<and> e = OSError ''system call failed''))"
proof -
  let ?turn = "\<lambda>w. let data = take 1024 arrived in
       if data = [] then return_h None
       else bind_h (handle_daemon_request env pools (decode data)) (\<lambda>response.
            bind_h outside_call (\<lambda>_. return_h (Some response)))"
  have handled: ?thesis if "?turn w (facing (drop 2 fs) w) = (Raise e, w')"
    using that unfolding Let_def
    by (auto elim!: bind_h_cases split: if_splits simp: return_h_def dest: handled_errors outside_call_Raise)
  show ?thesis
  proof (cases fs)
    case Nil
    then show ?thesis using assms handled
      by (simp add: serve_connection_def bind_h_def outside_call_facing)
  next
    case first: (Cons f rest)
    show ?thesis
    proof (cases f)
      case Done
      show ?thesis
      proof (cases rest)
        case Nil
        then show ?thesis using assms handled first Done
          by (simp add: serve_connection_def bind_h_def outside_call_facing)
      next
        case (Cons g others)
        then show ?thesis using assms handled first Done
          by (cases g) (simp_all add: serve_connection_def bind_h_def outside_call_facing)
      qed
    qed (use assms first in \<open>auto simp: serve_connection_def bind_h_def outside_call_facing\<close>)
  qed
qed

text \<open>C7: A running daemon answers. When system calls succeed, every connection that sends something gets a
  response, whatever it asks for and whatever happened before, and the daemon goes on with the
  same pools. Under any faults, handling a message never lets an exception out but the corruption of
  the state file: every other error, that of a failing call of the store included, becomes an
  answer. So an exception that ends the loop is that corruption, or it is raised by a failing
  \<open>accept\<close>, \<open>recv\<close> or \<open>sendall\<close> of the loop itself.\<close>

theorem daemon_answers:
  assumes "reads_ints (env_to_int env)" "reachable (env_to_int env) (Running pools w)" "decoding_ok env decode"
  shows "(\<exists>r w'. serve_connection decode env pools arrived (facing [] w) = (Ret r, w') \<and> (r = None \<longleftrightarrow> arrived = []) \<and>
      daemon_step (env_to_int env) (Running pools w) (Running pools w')) \<and>
    (\<forall>fs message e v. handle_daemon_request env pools message (facing fs w) = (Raise e, v) \<longrightarrow> corruption e) \<and>
    (\<forall>fs e w'. serve_connection decode env pools arrived (facing fs w) = (Raise e, w') \<longrightarrow>
      e = OSError ''system call failed'' \<and> (\<exists>rest. fs = Fails # rest \<or> fs = Done # Fails # rest) \<or>
      (\<exists>out v. handle_daemon_request env pools (decode (take 1024 arrived)) (facing (drop 2 fs) w) = (out, v) \<and>
         (out = Raise e \<and> corruption e \<or>
          (\<exists>r rest. out = Ret r \<and> fates (w_store v) = Fails # rest) \<and> e = OSError ''system call failed'')))"
proof (intro conjI)
  have "store_sound (env_to_int env) (w_store (facing [] w))" "fates (w_store (facing [] w)) = []"
    using reachable_sound [OF assms(1,2)] store_sound_fates by (simp_all add: with_fates_def)
  from calm_serve [OF assms(1) this assms(3)] obtain r w' where
    run: "serve_connection decode env pools arrived (facing [] w) = (Ret r, w')" "r = None \<longleftrightarrow> arrived = []" by blast
  then show "\<exists>r w'. serve_connection decode env pools arrived (facing [] w) = (Ret r, w') \<and> (r = None \<longleftrightarrow> arrived = []) \<and>
      daemon_step (env_to_int env) (Running pools w) (Running pools w')"
    using daemon_step.Answered [OF refl run(1)] by blast
qed (intro allI impI, (erule handled_errors | erule served_raises))+

theorem daemon_answers_witness:
  "\<exists>pools w r w'. reachable example_to_int (Running pools w) \<and>
     serve_connection example_decode example_env pools ''list'' (facing [] w) = (Ret (Some r), w')"
proof -
  obtain pools w where w: "reachable example_to_int (Running pools w)" by (rule example_reachable)
  have env: "env_to_int example_env = example_to_int" by (simp add: example_env_def)
  have "decoding_ok example_env example_decode"
    by (auto simp: decoding_ok_def example_env_def example_parse_def example_decode_def
        split: action_type.splits json.splits if_splits)
  from daemon_answers [of example_env, unfolded env, OF example_to_int_reads w this, THEN conjunct1, of "''list''"]
  obtain r w' where "serve_connection example_decode example_env pools ''list'' (facing [] w) = (Ret r, w')" "r \<noteq> None"
    by auto
  then show ?thesis using w by blast
qed

text \<open>C15: The two databases share the state file without disturbing each other: whatever fails, a request about
  CPUs leaves every hugepage record as it was, and a memory or hugepage request leaves every claim
  as it was.\<close>

theorem requests_touch_one_section:
  assumes "reads_ints (env_to_int env)" "store_sound (env_to_int env) (w_store w)"
    and "run_request env pools req w = (out, w')"
  shows "(about_cpus req \<longrightarrow> map_option recorded (stored_table (env_to_int env) (w_store w'))
      = map_option recorded (stored_table (env_to_int env) (w_store w))) \<and>
    (\<not> about_cpus req \<longrightarrow> map_option abs_ledger (stored_ledger (w_store w'))
      = map_option abs_ledger (stored_ledger (w_store w)))"
  using cpu_request_leaves_pages [OF assms(2,3)] page_request_leaves_ledger [OF assms]
  by (simp add: pages_view_def ledger_view_def)

theorem requests_touch_one_section_witness:
  "\<exists>out w'. run_request example_env example_pools (CoresRequest (cores_request ''c'' 3))
       \<lparr>w_ledger = empty_adb, w_hugepages = [], w_store = example_store\<rparr> = (out, w') \<and>
     map_option recorded (stored_table example_to_int (w_store w'))
       = map_option recorded (stored_table example_to_int example_store)"
proof -
  let ?w = "\<lparr>w_ledger = empty_adb, w_hugepages = [], w_store = example_store\<rparr>"
  obtain out w' where run: "run_request example_env example_pools (CoresRequest (cores_request ''c'' 3)) ?w = (out, w')"
    by fastforce
  have env: "env_to_int example_env = example_to_int" by (simp add: example_env_def)
  have "store_sound example_to_int (w_store ?w)" by (simp add: example_store_sound)
  from requests_touch_one_section [of example_env, unfolded env, OF example_to_int_reads this run] run
  show ?thesis by auto
qed

end
